(* ===== verification/Prelude.thy ===== *)
theory Prelude
  imports Main "HOL-Library.AList"
begin

text \<open>
  Shared material of the development: Rust's \<open>HashMap\<close> as an association list with
  distinct keys (iteration order is the order of the list, so every property of an
  iteration is stated on sets or multisets), the string functions of the standard library
  the core uses (\<open>str::split\<close>, \<open>contains\<close>, \<open>starts_with\<close>, \<open>ends_with\<close>), results as sums,
  and the generic lemmas the components share.
\<close>

named_theorems hm_simps \<open>rewrite rules of the hash map operations\<close>
named_theorems result_simps \<open>rewrite rules of fallible operations\<close>

subsection \<open>Hash maps\<close>

type_synonym ('k, 'v) hmap = "('k \<times> 'v) list"

definition hm_get :: "('k, 'v) hmap \<Rightarrow> 'k \<Rightarrow> 'v option" where
  "hm_get m k = map_of m k"

definition hm_insert :: "'k \<Rightarrow> 'v \<Rightarrow> ('k, 'v) hmap \<Rightarrow> ('k, 'v) hmap" where
  "hm_insert k v m = AList.update k v m"

definition hm_remove :: "'k \<Rightarrow> ('k, 'v) hmap \<Rightarrow> ('k, 'v) hmap" where
  "hm_remove k m = AList.delete k m"

definition hm_contains :: "('k, 'v) hmap \<Rightarrow> 'k \<Rightarrow> bool" where
  "hm_contains m k \<longleftrightarrow> hm_get m k \<noteq> None"

definition hm_values :: "('k, 'v) hmap \<Rightarrow> 'v list" where
  "hm_values m = map snd m"

definition hm_keys :: "('k, 'v) hmap \<Rightarrow> 'k list" where
  "hm_keys m = map fst m"

text \<open>\<open>retain\<close> keeps the entries that satisfy the predicate.\<close>

definition hm_retain :: "('k \<Rightarrow> 'v \<Rightarrow> bool) \<Rightarrow> ('k, 'v) hmap \<Rightarrow> ('k, 'v) hmap" where
  "hm_retain p m = filter (\<lambda>(k, v). p k v) m"

definition hm_wf :: "('k, 'v) hmap \<Rightarrow> bool" where
  "hm_wf m \<longleftrightarrow> distinct (map fst m)"

text \<open>
  A relation between the states before and after a step: reflexive where the invariant
  holds, transitive, and keeping the invariant. A loop whose steps stay in the relation stays in it;
  a step may use that it starts from a state related to the first one.
\<close>

locale state_relation =
  fixes ok :: "'s \<Rightarrow> bool" and rel :: "'s \<Rightarrow> 's \<Rightarrow> bool"
  assumes rel_refl: "ok s \<Longrightarrow> rel s s"
    and rel_trans: "rel a b \<Longrightarrow> rel b c \<Longrightarrow> rel a c"
    and rel_ok: "rel a b \<Longrightarrow> ok b"
begin

lemma rel_fold:
  assumes "ok s" and "\<And>e d. ok d \<Longrightarrow> e \<in> set es \<Longrightarrow> rel s d \<Longrightarrow> rel d (f e d)"
  shows "rel s (fold f es s)"
proof -
  have "rel s (fold f xs d)" if "rel s d" "set xs \<subseteq> set es" for xs d
    using that
  proof (induction xs arbitrary: d)
    case (Cons e xs)
    have "rel s (f e d)" using rel_trans [OF Cons.prems(1) assms(2)] rel_ok Cons.prems by simp
    then show ?case using Cons.IH Cons.prems(2) by simp
  qed simp
  then show ?thesis using rel_refl [OF assms(1)] by simp
qed

end

text \<open>
  The contract the clients of a hash map rely on. Everything a component proves about its
  maps goes through these laws.
\<close>

locale hash_map =
  fixes get :: "'m \<Rightarrow> 'k \<Rightarrow> 'v option"
    and insert :: "'k \<Rightarrow> 'v \<Rightarrow> 'm \<Rightarrow> 'm"
    and remove :: "'k \<Rightarrow> 'm \<Rightarrow> 'm"
    and entries :: "'m \<Rightarrow> ('k \<times> 'v) set"
    and wf :: "'m \<Rightarrow> bool"
  assumes get_insert: "wf m \<Longrightarrow> get (insert k v m) j = (if j = k then Some v else get m j)"
    and get_remove: "wf m \<Longrightarrow> get (remove k m) j = (if j = k then None else get m j)"
    and entries_get: "wf m \<Longrightarrow> (k, v) \<in> entries m \<longleftrightarrow> get m k = Some v"
    and wf_insert: "wf m \<Longrightarrow> wf (insert k v m)"
    and wf_remove: "wf m \<Longrightarrow> wf (remove k m)"
begin

lemma entries_insert:
  assumes "wf m"
  shows "entries (insert k v m) = Set.insert (k, v) {e \<in> entries m. fst e \<noteq> k}"
  using assms by (auto simp: entries_get get_insert wf_insert split: if_splits)

lemma entries_remove:
  assumes "wf m"
  shows "entries (remove k m) = {e \<in> entries m. fst e \<noteq> k}"
  using assms by (auto simp: entries_get get_remove wf_remove split: if_splits)

lemma entries_functional: "wf m \<Longrightarrow> (k, v) \<in> entries m \<Longrightarrow> (k, w) \<in> entries m \<Longrightarrow> v = w"
  by (simp add: entries_get)

lemma entries_remove_insert:
  assumes "wf m" and "get m k = None"
  shows "entries (remove k (insert k v m)) = entries m"
proof -
  have ne: "fst e \<noteq> k" if "e \<in> entries m" for e
    using assms that by (cases e) (auto simp: entries_get)
  have "entries (remove k (insert k v m)) = {e \<in> entries m. fst e \<noteq> k}"
    using assms(1) by (auto simp: entries_remove entries_insert wf_insert)
  with ne show ?thesis by blast
qed

lemma get_none_iff:
  assumes "wf m"
  shows "get m k = None \<longleftrightarrow> k \<notin> fst ` entries m"
proof (cases "get m k")
  case None
  then have "(k, v) \<notin> entries m" for v using assms by (simp add: entries_get)
  then show ?thesis using None by auto
next
  case (Some v)
  then have "(k, v) \<in> entries m" using assms by (simp add: entries_get)
  then show ?thesis using Some by force
qed

end

lemma hm_wf_Nil [simp]: "hm_wf []"
  by (simp add: hm_wf_def)

lemma hm_get_Nil [simp]: "hm_get [] k = None"
  by (simp add: hm_get_def)

interpretation hm: hash_map hm_get hm_insert hm_remove set hm_wf
proof unfold_locales
  fix m :: "('k, 'v) hmap" and k j :: 'k and v :: 'v
  assume wf: "hm_wf m"
  show "hm_get (hm_insert k v m) j = (if j = k then Some v else hm_get m j)"
    by (simp add: hm_get_def hm_insert_def update_conv')
  show "hm_get (hm_remove k m) j = (if j = k then None else hm_get m j)"
    by (simp add: hm_get_def hm_remove_def delete_conv')
  show "(k, v) \<in> set m \<longleftrightarrow> hm_get m k = Some v"
    using wf by (simp add: hm_get_def hm_wf_def)
  show "hm_wf (hm_insert k v m)"
    using wf by (simp add: hm_insert_def hm_wf_def distinct_update)
  show "hm_wf (hm_remove k m)"
    using wf by (simp add: hm_remove_def hm_wf_def distinct_delete)
qed

lemmas hm_laws = hm.get_insert hm.get_remove hm.wf_insert hm.wf_remove
  hm.entries_insert hm.entries_remove

lemma hm_contains_iff: "hm_wf m \<Longrightarrow> hm_contains m k \<longleftrightarrow> k \<in> fst ` set m"
  by (auto simp: hm_contains_def hm.get_none_iff)

lemma hm_wf_distinct: "hm_wf m \<Longrightarrow> distinct m"
  by (auto simp: hm_wf_def distinct_map)

lemma in_hm_values: "v \<in> set (hm_values m) \<longleftrightarrow> (\<exists>k. (k, v) \<in> set m)"
  by (force simp: hm_values_def)

lemma hm_filter_key:
  assumes "hm_wf m"
  shows "filter (\<lambda>(j, v). j = k) m = (case hm_get m k of Some v \<Rightarrow> [(k, v)] | None \<Rightarrow> [])"
  using assms
proof (induction m)
  case (Cons e m)
  obtain j v where e: "e = (j, v)" by (cases e)
  have IH: "filter (\<lambda>(j, v). j = k) m = (case hm_get m k of Some v \<Rightarrow> [(k, v)] | None \<Rightarrow> [])"
    using Cons by (simp add: hm_wf_def)
  have "hm_get m j = None" using Cons.prems e by (simp add: hm_wf_def hm_get_def map_of_eq_None_iff)
  then show ?case using IH e by (cases "j = k") (auto simp: hm_get_def)
qed simp

lemma hm_wf_retain [simp]: "hm_wf m \<Longrightarrow> hm_wf (hm_retain p m)"
  by (simp add: hm_wf_def hm_retain_def distinct_map_filter)

lemma set_hm_retain [simp]: "set (hm_retain p m) = {(k, v) \<in> set m. p k v}"
  by (auto simp: hm_retain_def)

lemma hm_get_retain:
  assumes "hm_wf m"
  shows "hm_get (hm_retain p m) k =
    (case hm_get m k of None \<Rightarrow> None | Some v \<Rightarrow> if p k v then Some v else None)"
proof -
  have *: "hm_get (hm_retain p m) k = Some v \<longleftrightarrow> hm_get m k = Some v \<and> p k v" for v
    using hm.entries_get [OF assms, of k v] hm.entries_get [OF hm_wf_retain [OF assms], of k v p]
    by simp
  show ?thesis
  proof (cases "hm_get (hm_retain p m) k")
    case None
    with * show ?thesis by (auto split: option.splits)
  next
    case (Some v)
    then have "hm_get m k = Some v \<and> p k v" using * [of v] by simp
    with Some show ?thesis by simp
  qed
qed

lemma set_hm_values: "set (hm_values m) = snd ` set m"
  by (simp add: hm_values_def)

subsection \<open>Strings\<close>

text \<open>
  \<open>s.split(c)\<close> of the standard library: never the empty sequence, the empty string gives one
  empty chunk, adjacent separators give empty chunks.
\<close>

fun split_char :: "char \<Rightarrow> string \<Rightarrow> string list" where
  "split_char c [] = [[]]"
| "split_char c (x # xs) =
     (if x = c then [] # split_char c xs
      else (case split_char c xs of [] \<Rightarrow> [[x]] | w # ws \<Rightarrow> (x # w) # ws))"

fun join_char :: "char \<Rightarrow> string list \<Rightarrow> string" where
  "join_char c [] = []"
| "join_char c [w] = w"
| "join_char c (w # v # ws) = w @ c # join_char c (v # ws)"

lemma split_char_not_Nil [simp]: "split_char c s \<noteq> []"
  by (cases s) (auto split: list.splits)

lemma join_split_char: "join_char c (split_char c s) = s"
proof (induction s)
  case Nil
  then show ?case by simp
next
  case (Cons x xs)
  obtain w ws where sp: "split_char c xs = w # ws"
    by (cases "split_char c xs") auto
  with Cons show ?case
    by (cases ws) (auto simp: sp)
qed

lemma split_char_inj: "split_char c s = split_char c t \<longleftrightarrow> s = t"
proof
  assume "split_char c s = split_char c t"
  then have "join_char c (split_char c s) = join_char c (split_char c t)" by simp
  then show "s = t" by (simp only: join_split_char)
qed simp

definition str_starts_with :: "string \<Rightarrow> string \<Rightarrow> bool" where
  "str_starts_with s p \<longleftrightarrow> take (length p) s = p"

definition str_ends_with :: "string \<Rightarrow> string \<Rightarrow> bool" where
  "str_ends_with s p \<longleftrightarrow> str_starts_with (rev s) (rev p)"

fun str_contains :: "string \<Rightarrow> string \<Rightarrow> bool" where
  "str_contains [] p \<longleftrightarrow> p = []"
| "str_contains (x # xs) p \<longleftrightarrow> str_starts_with (x # xs) p \<or> str_contains xs p"

lemma str_starts_with_iff: "str_starts_with s p \<longleftrightarrow> (\<exists>r. s = p @ r)"
proof
  assume "str_starts_with s p"
  then have t: "take (length p) s = p" by (simp add: str_starts_with_def)
  have "take (length p) s @ drop (length p) s = s" by (rule append_take_drop_id)
  then have "s = p @ drop (length p) s" by (simp only: t)
  then show "\<exists>r. s = p @ r" by (rule exI)
next
  assume "\<exists>r. s = p @ r"
  then show "str_starts_with s p" by (auto simp: str_starts_with_def)
qed

lemma str_contains_iff: "str_contains s p \<longleftrightarrow> (\<exists>l r. s = l @ p @ r)"
proof (induction s)
  case Nil
  then show ?case by simp
next
  case (Cons x xs)
  show ?case
  proof
    assume "str_contains (x # xs) p"
    then consider "str_starts_with (x # xs) p" | "str_contains xs p" by auto
    then show "\<exists>l r. x # xs = l @ p @ r"
    proof cases
      case 1
      then obtain r where "x # xs = [] @ p @ r" by (auto simp: str_starts_with_iff)
      then show ?thesis by blast
    next
      case 2
      then obtain l r where "xs = l @ p @ r" using Cons by auto
      then have "x # xs = (x # l) @ p @ r" by simp
      then show ?thesis by blast
    qed
  next
    assume "\<exists>l r. x # xs = l @ p @ r"
    then obtain l r where lr: "x # xs = l @ p @ r" by blast
    show "str_contains (x # xs) p"
    proof (cases l)
      case Nil
      then have "str_starts_with (x # xs) p" using lr by (auto simp: str_starts_with_iff)
      then show ?thesis by simp
    next
      case (Cons y l')
      then show ?thesis using lr Cons.IH by auto
    qed
  qed
qed

lemma str_ends_with_iff: "str_ends_with s p \<longleftrightarrow> (\<exists>l. s = l @ p)"
proof
  assume "str_ends_with s p"
  then obtain r where "rev s = rev p @ r"
    by (auto simp: str_ends_with_def str_starts_with_iff)
  then have "rev (rev s) = rev (rev p @ r)" by simp
  then have "s = rev r @ p" by simp
  then show "\<exists>l. s = l @ p" by (rule exI)
next
  assume "\<exists>l. s = l @ p"
  then show "str_ends_with s p" by (auto simp: str_ends_with_def str_starts_with_iff)
qed

definition strip_prefix :: "string \<Rightarrow> string \<Rightarrow> string option" where
  "strip_prefix p s = (if str_starts_with s p then Some (drop (length p) s) else None)"

subsection \<open>Results\<close>

text \<open>\<open>r.is_ok()\<close>, and \<open>ok\<close> as an option.\<close>

fun is_ok :: "'e + 'a \<Rightarrow> bool" where
  "is_ok (Inl e) \<longleftrightarrow> False"
| "is_ok (Inr x) \<longleftrightarrow> True"

definition ok_or :: "'e \<Rightarrow> 'a option \<Rightarrow> 'e + 'a" where
  "ok_or e r = (case r of None \<Rightarrow> Inl e | Some x \<Rightarrow> Inr x)"

definition unwrap_or :: "'a \<Rightarrow> 'a option \<Rightarrow> 'a" where
  "unwrap_or d r = (case r of None \<Rightarrow> d | Some x \<Rightarrow> x)"

lemma ok_or_simps [simp, result_simps]: "ok_or e None = Inl e" "ok_or e (Some x) = Inr x"
  by (simp_all add: ok_or_def)

lemma unwrap_or_simps [simp]: "unwrap_or d None = d" "unwrap_or d (Some x) = x"
  by (simp_all add: unwrap_or_def)

subsection \<open>Hash sets\<close>

text \<open>A \<open>HashSet\<close> as the list of its elements, in the order of iteration.\<close>

definition hs_insert :: "'a \<Rightarrow> 'a list \<Rightarrow> 'a list" where
  "hs_insert x s = (if x \<in> set s then s else s @ [x])"

definition hs_remove :: "'a \<Rightarrow> 'a list \<Rightarrow> 'a list" where
  "hs_remove x s = removeAll x s"

lemma set_hs_insert [simp]: "set (hs_insert x s) = insert x (set s)"
  by (auto simp: hs_insert_def)

lemma set_hs_remove [simp]: "set (hs_remove x s) = set s - {x}"
  by (simp add: hs_remove_def)

lemma distinct_hs_insert [simp]: "distinct s \<Longrightarrow> distinct (hs_insert x s)"
  by (simp add: hs_insert_def)

lemma distinct_hs_remove [simp]: "distinct s \<Longrightarrow> distinct (hs_remove x s)"
  by (simp add: hs_remove_def distinct_removeAll)

end
