(* ===== verification/Eva_Types.thy ===== *)
theory Eva_Types
  imports Complex_Main Prelude "HOL-Library.Word"
begin

text \<open>
  The vocabulary of the \<open>eva_common\<close> crate that the node core uses: item identifiers, event
  identifiers, values, 64-bit floats, raw and replication events, errors. The crate itself is
  not part of the repository. The datatypes below have the fields and variants the core reads
  and writes; the functions of the crate (conversions of values, the order of event
  identifiers, range checks, mask matching, regular expressions) are the fields of the
  parameter \<open>eva_lib\<close>, which every definition that calls them takes as its first argument.
\<close>

subsection \<open>Item identifiers\<close>

datatype item_kind = KUnit | KSensor | KLvar | KLmacro

fun kind_str :: "item_kind \<Rightarrow> string" where
  "kind_str KUnit = ''unit''"
| "kind_str KSensor = ''sensor''"
| "kind_str KLvar = ''lvar''"
| "kind_str KLmacro = ''lmacro''"

datatype oid = OID (oid_kind: item_kind) (oid_full_id: string)

definition oid_as_path :: "oid \<Rightarrow> string" where
  "oid_as_path x = kind_str (oid_kind x) @ ''/'' @ oid_full_id x"

definition oid_as_str :: "oid \<Rightarrow> string" where
  "oid_as_str x = kind_str (oid_kind x) @ '':'' @ oid_full_id x"

text \<open>The chunks of the full id, as \<open>oid.full_id().split('/')\<close> yields them.\<close>

definition oid_chunks :: "oid \<Rightarrow> string list" where
  "oid_chunks x = split_char (CHR ''/'') (oid_full_id x)"

lemma oid_chunks_not_Nil [simp]: "oid_chunks x \<noteq> []"
  by (simp add: oid_chunks_def)

lemma oid_eqI: "oid_kind x = oid_kind y \<Longrightarrow> oid_chunks x = oid_chunks y \<Longrightarrow> x = y"
  by (cases x; cases y) (simp add: oid_chunks_def split_char_inj)

text \<open>An OID mask: \<open>kind()\<close> is \<open>None\<close> for any kind, \<open>chunks()\<close> is \<open>None\<close> for any id.\<close>

record oid_mask =
  mask_kind :: "item_kind option"
  mask_chunks :: "string list option"

subsection \<open>Floats\<close>

text \<open>
  \<open>f64\<close>: the IEEE comparisons are exact on the rationals a finite float stands for; NaN is not
  equal to itself. The rounding of an arithmetic result is a parameter \<open>rnd\<close>, so what is
  proved holds for any rounding. The two zeros are identified.
\<close>

datatype f64 = NaN | NegInf | PosInf | Fin rat

fun f64_eq :: "f64 \<Rightarrow> f64 \<Rightarrow> bool" where
  "f64_eq NaN y \<longleftrightarrow> False"
| "f64_eq x NaN \<longleftrightarrow> False"
| "f64_eq x y \<longleftrightarrow> x = y"

fun f64_lt :: "f64 \<Rightarrow> f64 \<Rightarrow> bool" where
  "f64_lt NaN y \<longleftrightarrow> False"
| "f64_lt x NaN \<longleftrightarrow> False"
| "f64_lt NegInf y \<longleftrightarrow> y \<noteq> NegInf"
| "f64_lt x NegInf \<longleftrightarrow> False"
| "f64_lt PosInf y \<longleftrightarrow> False"
| "f64_lt x PosInf \<longleftrightarrow> True"
| "f64_lt (Fin a) (Fin b) \<longleftrightarrow> a < b"

fun f64_neg :: "f64 \<Rightarrow> f64" where
  "f64_neg NaN = NaN"
| "f64_neg NegInf = PosInf"
| "f64_neg PosInf = NegInf"
| "f64_neg (Fin a) = Fin (- a)"

fun f64_add :: "(rat \<Rightarrow> f64) \<Rightarrow> f64 \<Rightarrow> f64 \<Rightarrow> f64" where
  "f64_add rnd NaN y = NaN"
| "f64_add rnd x NaN = NaN"
| "f64_add rnd PosInf y = (if y = NegInf then NaN else PosInf)"
| "f64_add rnd NegInf y = (if y = PosInf then NaN else NegInf)"
| "f64_add rnd x PosInf = PosInf"
| "f64_add rnd x NegInf = NegInf"
| "f64_add rnd (Fin a) (Fin b) = rnd (a + b)"

definition f64_sub :: "(rat \<Rightarrow> f64) \<Rightarrow> f64 \<Rightarrow> f64 \<Rightarrow> f64" where
  "f64_sub rnd x y = f64_add rnd x (f64_neg y)"

definition f64_sgn :: "f64 \<Rightarrow> int" where
  "f64_sgn x = (if f64_lt x (Fin 0) then -1 else if f64_lt (Fin 0) x then 1 else 0)"

definition f64_inf :: "int \<Rightarrow> f64" where
  "f64_inf s = (if s < 0 then NegInf else if 0 < s then PosInf else NaN)"

fun f64_mul :: "(rat \<Rightarrow> f64) \<Rightarrow> f64 \<Rightarrow> f64 \<Rightarrow> f64" where
  "f64_mul rnd NaN y = NaN"
| "f64_mul rnd x NaN = NaN"
| "f64_mul rnd (Fin a) (Fin b) = rnd (a * b)"
| "f64_mul rnd x y = f64_inf (f64_sgn x * f64_sgn y)"

fun f64_div :: "(rat \<Rightarrow> f64) \<Rightarrow> f64 \<Rightarrow> f64 \<Rightarrow> f64" where
  "f64_div rnd NaN y = NaN"
| "f64_div rnd x NaN = NaN"
| "f64_div rnd (Fin a) (Fin b) = (if b = 0 then f64_inf (f64_sgn (Fin a)) else rnd (a / b))"
| "f64_div rnd (Fin a) y = Fin 0"
| "f64_div rnd x (Fin b) = f64_inf (f64_sgn x * (if b < 0 then -1 else 1))"
| "f64_div rnd x y = NaN"

lemma f64_eq_iff: "f64_eq x y \<longleftrightarrow> x = y \<and> x \<noteq> NaN"
  by (cases x; cases y) auto

lemma f64_lt_irrefl [simp]: "\<not> f64_lt x x"
  by (cases x) auto

lemma f64_lt_trans: "f64_lt x y \<Longrightarrow> f64_lt y z \<Longrightarrow> f64_lt x z"
  by (cases x; cases y; cases z) auto

lemma f64_lt_total: "x \<noteq> NaN \<Longrightarrow> y \<noteq> NaN \<Longrightarrow> f64_lt x y \<or> x = y \<or> f64_lt y x"
  by (cases x; cases y) auto

subsection \<open>Values\<close>

datatype 'f valued =
    VUnit
  | VBool bool
  | VU8 "8 word" | VU16 "16 word" | VU32 "32 word" | VU64 "64 word"
  | VI8 "8 word" | VI16 "16 word" | VI32 "32 word" | VI64 "64 word"
  | VF32 'f | VF64 'f
  | VString string
  | VSeq "'f valued list"
  | VMap "('f valued \<times> 'f valued) list"
  | VBytes "8 word list"

type_synonym eva_value = "f64 valued"

definition is_bytes :: "eva_value \<Rightarrow> bool" where
  "is_bytes v = (case v of VBytes _ \<Rightarrow> True | _ \<Rightarrow> False)"

type_synonym item_status = int

definition ITEM_STATUS_ERROR :: item_status where
  "ITEM_STATUS_ERROR = -1"

datatype ieid = IEID (ieid_boot_id: "64 word") (ieid_ns: "64 word")

record range =
  range_min :: "f64 option"
  range_max :: "f64 option"
  range_min_eq :: bool
  range_max_eq :: bool

subsection \<open>Errors\<close>

datatype error =
    ENotFound | EInvalidData | EFailed | ECore | EDuplicate | EBusy | EAccess
  | ENotImplemented | EInvalidParams | ETimeout | EAborted | ENotReady | EBus | EPack

type_synonym 'a result = "error + 'a"

subsection \<open>Action statuses\<close>

text \<open>
  The statuses of an action with their codes. The code compares statuses by their code.
\<close>

datatype action_status =
    AS_Created | AS_Accepted | AS_Pending | AS_Running | AS_Completed
  | AS_Failed | AS_Canceled | AS_Terminated

fun status_code :: "action_status \<Rightarrow> 8 word" where
  "status_code AS_Created = 0"
| "status_code AS_Accepted = 1"
| "status_code AS_Pending = 2"
| "status_code AS_Running = 8"
| "status_code AS_Completed = 15"
| "status_code AS_Failed = 128"
| "status_code AS_Canceled = 129"
| "status_code AS_Terminated = 130"

lemma status_code_inj: "status_code a = status_code b \<longleftrightarrow> a = b"
  by (cases a; cases b) simp_all

instantiation action_status :: linorder
begin

definition less_eq_action_status :: "action_status \<Rightarrow> action_status \<Rightarrow> bool" where
  "less_eq_action_status a b \<longleftrightarrow> status_code a \<le> status_code b"

definition less_action_status :: "action_status \<Rightarrow> action_status \<Rightarrow> bool" where
  "less_action_status a b \<longleftrightarrow> status_code a < status_code b"

instance
  by standard (auto simp: less_eq_action_status_def less_action_status_def status_code_inj [symmetric])

end

lemmas action_status_order = less_eq_action_status_def less_action_status_def

lemma AS_Created_least [simp]: "AS_Created \<le> s"
  by (simp add: less_eq_action_status_def)

subsection \<open>Events\<close>

datatype force = ForceNone | ForceWeak | ForceFull

datatype on_negative = NegSkip | NegReset | NegProcess | NegOverflow f64 f64

datatype on_error = ErrSkip | ErrReset | ErrProcess

datatype on_modified =
    SetOther (so_oid: "oid_mask list") (so_status: item_status) (so_value: "eva_value option")
  | SetOtherValueDelta (sd_oid: oid) (sd_on_negative: on_negative) (sd_on_error: on_error)
      (sd_period: "f64 option")

record raw_event =
  raw_status :: item_status
  raw_value :: "eva_value option"
  raw_status_compare :: "item_status option"
  raw_value_compare :: "eva_value option"
  raw_status_else :: "item_status option"
  raw_value_else :: "eva_value option"
  raw_force :: force
  raw_t :: "f64 option"
  raw_on_modified :: "on_modified option"

text \<open>\<open>RawStateEventOwned { status, value, force, t, ..default() }\<close>\<close>

definition raw_event_default :: "item_status \<Rightarrow> eva_value option \<Rightarrow> force \<Rightarrow> f64 option \<Rightarrow> raw_event" where
  "raw_event_default s v f t =
     \<lparr>raw_status = s, raw_value = v, raw_status_compare = None, raw_value_compare = None,
      raw_status_else = None, raw_value_else = None, raw_force = f, raw_t = t,
      raw_on_modified = None\<rparr>"

record local_state_event =
  lse_status :: item_status
  lse_value :: eva_value
  lse_act :: "nat option"
  lse_ieid :: ieid
  lse_t :: f64

record db_state =
  dbs_status :: item_status
  dbs_value :: eva_value
  dbs_ieid :: ieid
  dbs_t :: f64

record remote_state_event =
  rse_status :: item_status
  rse_value :: eva_value
  rse_act :: "nat option"
  rse_ieid :: ieid
  rse_t :: f64
  rse_node :: string
  rse_connected :: bool

record replication_state =
  rs_status :: item_status
  rs_value :: eva_value
  rs_act :: "nat option"
  rs_ieid :: ieid
  rs_t :: f64

record replication_state_event =
  rpe_status :: item_status
  rpe_value :: eva_value
  rpe_act :: "nat option"
  rpe_ieid :: ieid
  rpe_t :: f64
  rpe_node :: string
  rpe_force_accept :: bool

record repl_inventory_item =
  ri_oid :: oid
  ri_status :: "item_status option"
  ri_value :: "eva_value option"
  ri_act :: "nat option"
  ri_ieid :: "ieid option"
  ri_t :: "f64 option"
  ri_meta :: "eva_value option"
  ri_enabled :: bool

text \<open>What the core keeps about a replication node.\<close>

record node_data =
  nd_svc :: "string option"
  nd_online :: bool
  nd_info :: "eva_value option"
  nd_timeout :: "nat option"

subsection \<open>The library parameter\<close>

record eva_lib =
  lib_to_f64 :: "eva_value \<Rightarrow> f64 option"
  lib_to_i64 :: "eva_value \<Rightarrow> 64 word option"
  lib_value_eq :: "eva_value \<Rightarrow> eva_value \<Rightarrow> bool"
  lib_range_matches :: "range \<Rightarrow> f64 \<Rightarrow> bool"
  lib_ieid_gt :: "ieid \<Rightarrow> ieid \<Rightarrow> bool"
  lib_rnd :: "rat \<Rightarrow> f64"
  lib_prefix_formula :: string
  lib_prefix_regex :: string
  lib_formula :: "string \<Rightarrow> string \<Rightarrow> bool"
  lib_regex :: "string \<Rightarrow> (string \<Rightarrow> bool) option"
  lib_masks_match :: "oid_mask list \<Rightarrow> oid \<Rightarrow> bool"
  lib_mask_match :: "oid_mask \<Rightarrow> oid \<Rightarrow> bool"
  lib_action_status :: "8 word \<Rightarrow> action_status result"
  lib_error_text :: "error \<Rightarrow> string"
  lib_remote_event :: "local_state_event \<Rightarrow> string \<Rightarrow> bool \<Rightarrow> remote_state_event"
  lib_rpe_to_remote :: "replication_state_event \<Rightarrow> remote_state_event"
  lib_rpe_to_rs :: "replication_state_event \<Rightarrow> replication_state"
  lib_ri_to_rs :: "repl_inventory_item \<Rightarrow> replication_state result"
  lib_node_update_info :: "eva_value \<Rightarrow> node_data \<Rightarrow> node_data"
  lib_node_update_timeout :: "nat option \<Rightarrow> node_data \<Rightarrow> node_data"
  lib_oid_from_str :: "string \<Rightarrow> oid result"
  lib_oid_from_path :: "string \<Rightarrow> oid result"

text \<open>
  Documented behaviour of the crate that some properties rely on: event identifiers are
  strictly ordered, and values that compare equal convert to the same float.
\<close>

definition ieid_strict_order :: "eva_lib \<Rightarrow> bool" where
  "ieid_strict_order L \<longleftrightarrow>
     (\<forall>a. \<not> lib_ieid_gt L a a) \<and>
     (\<forall>a b c. lib_ieid_gt L a b \<longrightarrow> lib_ieid_gt L b c \<longrightarrow> lib_ieid_gt L a c)"

definition value_eq_conv :: "eva_lib \<Rightarrow> bool" where
  "value_eq_conv L \<longleftrightarrow> (\<forall>a b. lib_value_eq L a b \<longrightarrow> lib_to_f64 L a = lib_to_f64 L b)"

text \<open>
  The conversions between the event structures carry the fields over, and an inventory item
  converts to a state only if it has an event identifier and a set time.
\<close>

definition repl_conv :: "eva_lib \<Rightarrow> bool" where
  "repl_conv L \<longleftrightarrow>
     (\<forall>e n cn. lib_remote_event L e n cn =
        \<lparr>rse_status = lse_status e, rse_value = lse_value e, rse_act = lse_act e, rse_ieid = lse_ieid e,
         rse_t = lse_t e, rse_node = n, rse_connected = cn\<rparr>) \<and>
     (\<forall>e. rse_status (lib_rpe_to_remote L e) = rpe_status e \<and> rse_value (lib_rpe_to_remote L e) = rpe_value e \<and>
        rse_ieid (lib_rpe_to_remote L e) = rpe_ieid e \<and> rse_t (lib_rpe_to_remote L e) = rpe_t e \<and>
        rse_node (lib_rpe_to_remote L e) = rpe_node e) \<and>
     (\<forall>e. lib_rpe_to_rs L e =
        \<lparr>rs_status = rpe_status e, rs_value = rpe_value e, rs_act = rpe_act e, rs_ieid = rpe_ieid e,
         rs_t = rpe_t e\<rparr>) \<and>
     (\<forall>r rs. lib_ri_to_rs L r = Inr rs \<longrightarrow>
        ri_ieid r = Some (rs_ieid rs) \<and> ri_t r = Some (rs_t rs) \<and> rs_act rs = ri_act r)"

text \<open>Updates of a node's information keep its service and its online flag.\<close>

definition node_conv :: "eva_lib \<Rightarrow> bool" where
  "node_conv L \<longleftrightarrow>
     (\<forall>i d. nd_svc (lib_node_update_info L i d) = nd_svc d \<and> nd_online (lib_node_update_info L i d) = nd_online d) \<and>
     (\<forall>t d. nd_svc (lib_node_update_timeout L t d) = nd_svc d \<and>
        nd_online (lib_node_update_timeout L t d) = nd_online d)"

text \<open>The conversion of status codes accepts exactly the codes of the statuses.\<close>

definition action_status_conv :: "eva_lib \<Rightarrow> bool" where
  "action_status_conv L \<longleftrightarrow>
     (\<forall>s. lib_action_status L (status_code s) = Inr s) \<and>
     (\<forall>c s. lib_action_status L c = Inr s \<longrightarrow> c = status_code s)"

text \<open>A concrete library, for evaluation.\<close>

definition std_action_status :: "8 word \<Rightarrow> action_status result" where
  "std_action_status c =
     (case filter (\<lambda>s. status_code s = c)
         [AS_Created, AS_Accepted, AS_Pending, AS_Running, AS_Completed, AS_Failed, AS_Canceled,
          AS_Terminated] of
        s # _ \<Rightarrow> Inr s
      | [] \<Rightarrow> Inl EInvalidData)"

definition std_to_i64 :: "eva_value \<Rightarrow> 64 word option" where
  "std_to_i64 v =
     (case v of VU8 w \<Rightarrow> Some (ucast w) | VU16 w \<Rightarrow> Some (ucast w) | VU32 w \<Rightarrow> Some (ucast w)
      | VI64 w \<Rightarrow> Some w | VBool b \<Rightarrow> Some (if b then 1 else 0) | _ \<Rightarrow> None)"

definition std_to_f64 :: "eva_value \<Rightarrow> f64 option" where
  "std_to_f64 v =
     (case v of VF64 x \<Rightarrow> Some x | VF32 x \<Rightarrow> Some x
      | VU8 w \<Rightarrow> Some (Fin (of_nat (unat w))) | VU16 w \<Rightarrow> Some (Fin (of_nat (unat w)))
      | VU32 w \<Rightarrow> Some (Fin (of_nat (unat w))) | VI64 w \<Rightarrow> Some (Fin (of_int (sint w)))
      | _ \<Rightarrow> None)"

definition std_range_matches :: "range \<Rightarrow> f64 \<Rightarrow> bool" where
  "std_range_matches r x \<longleftrightarrow>
     (case range_min r of None \<Rightarrow> True
      | Some m \<Rightarrow> f64_lt m x \<or> range_min_eq r \<and> f64_eq m x) \<and>
     (case range_max r of None \<Rightarrow> True
      | Some m \<Rightarrow> f64_lt x m \<or> range_max_eq r \<and> f64_eq m x)"

definition std_ieid_gt :: "ieid \<Rightarrow> ieid \<Rightarrow> bool" where
  "std_ieid_gt a b \<longleftrightarrow>
     ieid_boot_id b < ieid_boot_id a \<or> ieid_boot_id a = ieid_boot_id b \<and> ieid_ns b < ieid_ns a"

definition std_oid_parse :: "char \<Rightarrow> string \<Rightarrow> oid result" where
  "std_oid_parse sep s =
     (case filter (\<lambda>k. take (Suc (length (kind_str k))) s = kind_str k @ [sep]) [KUnit, KSensor, KLvar, KLmacro] of
        k # _ \<Rightarrow> Inr (OID k (drop (Suc (length (kind_str k))) s))
      | [] \<Rightarrow> Inl EInvalidData)"

definition std_lib :: eva_lib where
  "std_lib =
     \<lparr>lib_to_f64 = std_to_f64, lib_to_i64 = std_to_i64, lib_value_eq = (=),
      lib_range_matches = std_range_matches, lib_ieid_gt = std_ieid_gt, lib_rnd = Fin,
      lib_prefix_formula = ''f('', lib_prefix_regex = ''r('',
      lib_formula = (\<lambda>_ _. False), lib_regex = (\<lambda>_. None),
      lib_masks_match = (\<lambda>_ _. True), lib_mask_match = (\<lambda>_ _. True), lib_action_status = std_action_status,
      lib_error_text = (\<lambda>_. ''error''),
      lib_remote_event = (\<lambda>e n cn. \<lparr>rse_status = lse_status e, rse_value = lse_value e, rse_act = lse_act e,
        rse_ieid = lse_ieid e, rse_t = lse_t e, rse_node = n, rse_connected = cn\<rparr>),
      lib_rpe_to_remote = (\<lambda>e. \<lparr>rse_status = rpe_status e, rse_value = rpe_value e, rse_act = rpe_act e,
        rse_ieid = rpe_ieid e, rse_t = rpe_t e, rse_node = rpe_node e, rse_connected = True\<rparr>),
      lib_rpe_to_rs = (\<lambda>e. \<lparr>rs_status = rpe_status e, rs_value = rpe_value e, rs_act = rpe_act e,
        rs_ieid = rpe_ieid e, rs_t = rpe_t e\<rparr>),
      lib_ri_to_rs = (\<lambda>r. case (ri_ieid r, ri_t r) of
          (Some ie, Some t) \<Rightarrow> Inr \<lparr>rs_status = unwrap_or 0 (ri_status r), rs_value = unwrap_or VUnit (ri_value r),
             rs_act = ri_act r, rs_ieid = ie, rs_t = t\<rparr>
        | _ \<Rightarrow> Inl EInvalidData),
      lib_node_update_info = (\<lambda>i d. d\<lparr>nd_info := Some i\<rparr>),
      lib_node_update_timeout = (\<lambda>t d. d\<lparr>nd_timeout := t\<rparr>),
      lib_oid_from_str = std_oid_parse (CHR '':''), lib_oid_from_path = std_oid_parse (CHR ''/'')\<rparr>"

lemma std_lib_simps [simp]:
  "lib_to_f64 std_lib = std_to_f64" "lib_to_i64 std_lib = std_to_i64"
  "lib_value_eq std_lib = (=)" "lib_range_matches std_lib = std_range_matches"
  "lib_ieid_gt std_lib = std_ieid_gt" "lib_rnd std_lib = Fin"
  "lib_prefix_formula std_lib = ''f(''" "lib_prefix_regex std_lib = ''r(''"
  "lib_masks_match std_lib = (\<lambda>_ _. True)" "lib_mask_match std_lib = (\<lambda>_ _. True)"
  "lib_action_status std_lib = std_action_status"
  "lib_error_text std_lib = (\<lambda>_. ''error'')"
  "lib_oid_from_str std_lib = std_oid_parse (CHR '':'')"
  "lib_oid_from_path std_lib = std_oid_parse (CHR ''/'')"
  by (simp_all add: std_lib_def)

lemma std_lib_order: "ieid_strict_order std_lib"
  unfolding ieid_strict_order_def by (auto simp: std_ieid_gt_def)

lemma std_lib_value_eq_conv: "value_eq_conv std_lib"
  by (simp add: value_eq_conv_def)

lemma std_lib_action_status_conv: "action_status_conv std_lib"
  unfolding action_status_conv_def
proof (intro conjI allI impI)
  fix s show "lib_action_status std_lib (status_code s) = Inr s"
    by (cases s) (simp_all add: std_action_status_def)
next
  fix c s assume "lib_action_status std_lib c = Inr s"
  then show "c = status_code s" by (auto simp: std_action_status_def split: list.splits if_splits)
qed

lemma std_lib_repl_conv: "repl_conv std_lib"
  unfolding repl_conv_def by (auto simp: std_lib_def split: option.splits prod.splits)

lemma std_lib_node_conv: "node_conv std_lib"
  unfolding node_conv_def by (simp add: std_lib_def)

end
