(* ===== verification/Item_State.thy ===== *)
theory Item_State
  imports Eva_Types
begin

text \<open>
  The state of an item (\<open>ItemState\<close> of \<open>eva/src/items.rs\<close>) and the operations that change it:
  raw events from controllers with the item's range logic, forced updates of lvars, the
  counter of running actions of a unit, and replicated states. The clock readings of an
  operation are arguments: \<open>now\<close> for \<open>Time::now().timestamp()\<close> and \<open>ns\<close> for
  \<open>monotonic_ns()\<close>.
\<close>

record logic =
  logic_range :: "range option"

record item_state =
  st_status :: item_status
  st_value :: eva_value
  st_act :: "nat option"
  st_ieid :: ieid
  st_t :: f64

definition ieid_generate :: "64 word \<Rightarrow> 64 word \<Rightarrow> ieid" where
  "ieid_generate boot_id ns = IEID boot_id ns"

definition validate_logic :: "eva_lib \<Rightarrow> eva_value option \<Rightarrow> logic option \<Rightarrow> bool" where
  "validate_logic L val lg =
     (case Option.bind lg logic_range of
        Some rg \<Rightarrow>
          (case val of
             None \<Rightarrow> False
           | Some v \<Rightarrow> (case lib_to_f64 L v of Some x \<Rightarrow> lib_range_matches L rg x | None \<Rightarrow> False))
      | None \<Rightarrow> True)"

definition state_new0 :: "ieid \<Rightarrow> item_kind \<Rightarrow> f64 \<Rightarrow> item_state" where
  "state_new0 ieid tp now =
     \<lparr>st_status = 1, st_value = VUnit, st_act = (if tp = KUnit then Some 0 else None),
      st_ieid = ieid, st_t = now\<rparr>"

definition state_new ::
    "item_status \<Rightarrow> eva_value \<Rightarrow> nat option \<Rightarrow> ieid \<Rightarrow> f64 \<Rightarrow> item_state" where
  "state_new status val act ieid t =
     \<lparr>st_status = status, st_value = val, st_act = act, st_ieid = ieid, st_t = t\<rparr>"

definition state_mark_failed :: "ieid \<Rightarrow> f64 \<Rightarrow> item_state \<Rightarrow> bool \<times> item_state" where
  "state_mark_failed ieid now st =
     (if st_status st = ITEM_STATUS_ERROR then (False, st)
      else (True, st\<lparr>st_status := ITEM_STATUS_ERROR, st_ieid := ieid, st_t := now\<rparr>))"

definition force_set_state ::
    "item_status option \<Rightarrow> eva_value option \<Rightarrow> ieid \<Rightarrow> f64 \<Rightarrow> item_state \<Rightarrow> item_state" where
  "force_set_state status val ieid now st =
     (let st1 = (case status of Some s \<Rightarrow> st\<lparr>st_status := s\<rparr> | None \<Rightarrow> st);
          st2 = (case val of Some v \<Rightarrow> st1\<lparr>st_value := v\<rparr> | None \<Rightarrow> st1)
      in st2\<lparr>st_ieid := ieid, st_t := now\<rparr>)"

definition force_set_value :: "eva_value \<Rightarrow> ieid \<Rightarrow> f64 \<Rightarrow> item_state \<Rightarrow> item_state" where
  "force_set_value v ieid now st = st\<lparr>st_value := v, st_ieid := ieid, st_t := now\<rparr>"

definition act_decr :: "ieid \<Rightarrow> f64 \<Rightarrow> item_state \<Rightarrow> item_state" where
  "act_decr ieid now st =
     (let a = unwrap_or 0 (st_act st);
          st1 = (if a = 0 then st else st\<lparr>st_act := Some (a - 1)\<rparr>)
      in st1\<lparr>st_ieid := ieid, st_t := now\<rparr>)"

definition act_incr :: "ieid \<Rightarrow> f64 \<Rightarrow> item_state \<Rightarrow> item_state" where
  "act_incr ieid now st =
     st\<lparr>st_act := Some (case st_act st of None \<Rightarrow> 1 | Some a \<Rightarrow> a + 1),
        st_ieid := ieid, st_t := now\<rparr>"

definition set_from_rs :: "replication_state \<Rightarrow> item_state \<Rightarrow> item_state" where
  "set_from_rs rpl st =
     (let st1 = st\<lparr>st_status := rs_status rpl\<rparr>;
          st2 = (case rs_act rpl of Some act \<Rightarrow> st1\<lparr>st_act := Some act\<rparr> | None \<Rightarrow> st1)
      in st2\<lparr>st_value := rs_value rpl, st_ieid := rs_ieid rpl, st_t := rs_t rpl\<rparr>)"

text \<open>The status and the value the event asks for, after its compare clauses.\<close>

definition raw_compared :: "eva_lib \<Rightarrow> raw_event \<Rightarrow> item_state \<Rightarrow> bool" where
  "raw_compared L raw st \<longleftrightarrow>
     (case raw_status_compare raw of None \<Rightarrow> True | Some s \<Rightarrow> s = st_status st) \<and>
     (case raw_value_compare raw of None \<Rightarrow> True | Some v \<Rightarrow> lib_value_eq L v (st_value st))"

definition raw_target :: "eva_lib \<Rightarrow> raw_event \<Rightarrow> item_state \<Rightarrow> item_status \<times> eva_value option" where
  "raw_target L raw st =
     (if raw_compared L raw st then (raw_status raw, raw_value raw)
      else (unwrap_or ITEM_STATUS_ERROR (raw_status_else raw), raw_value_else raw))"

text \<open>
  \<open>set_from_raw\<close> in three steps: the status and the value under the range logic, the time of the
  event, and the new event identifier. The flag says whether the state was modified.
\<close>

definition raw_apply ::
    "eva_lib \<Rightarrow> item_status \<Rightarrow> eva_value option \<Rightarrow> logic option \<Rightarrow> item_state \<Rightarrow> bool \<times> item_state" where
  "raw_apply L status val lg st =
     (if status = ITEM_STATUS_ERROR \<or> validate_logic L val lg then
        (let st1 = (if st_status st \<noteq> status then st\<lparr>st_status := status\<rparr> else st);
             m1 = (st_status st \<noteq> status)
         in case val of
              Some v \<Rightarrow> if \<not> lib_value_eq L (st_value st1) v then (True, st1\<lparr>st_value := v\<rparr>)
                        else (m1, st1)
            | None \<Rightarrow> (m1, st1))
      else (True, st\<lparr>st_status := ITEM_STATUS_ERROR\<rparr>))"

definition raw_apply_t :: "f64 option \<Rightarrow> bool \<times> item_state \<Rightarrow> bool \<times> item_state" where
  "raw_apply_t rt ms =
     (case rt of
        Some t \<Rightarrow> if \<not> f64_eq t (Fin 0) \<and> \<not> f64_eq (st_t (snd ms)) t
                  then (True, (snd ms)\<lparr>st_t := t\<rparr>) else ms
      | None \<Rightarrow> ms)"

definition set_from_raw ::
    "eva_lib \<Rightarrow> raw_event \<Rightarrow> logic option \<Rightarrow> 64 word \<Rightarrow> 64 word \<Rightarrow> f64 \<Rightarrow> item_state \<Rightarrow> bool \<times> item_state"
where
  "set_from_raw L raw lg boot_id ns time st =
     (let (status, val) = raw_target L raw st;
          (modified, st2) = raw_apply_t (raw_t raw) (raw_apply L status val lg st)
      in if modified \<or> raw_force raw \<noteq> ForceNone then
           (let st3 = st2\<lparr>st_ieid := ieid_generate boot_id ns\<rparr>;
                st4 = (if raw_t raw = None then st3\<lparr>st_t := time\<rparr> else st3)
            in (modified, st4))
         else (False, st2))"

definition apply_logic ::
    "eva_lib \<Rightarrow> logic option \<Rightarrow> 64 word \<Rightarrow> 64 word \<Rightarrow> f64 \<Rightarrow> item_state \<Rightarrow> bool \<times> item_state" where
  "apply_logic L lg boot_id ns now st =
     (if st_status st = ITEM_STATUS_ERROR \<or> validate_logic L (Some (st_value st)) lg then (False, st)
      else (True, st\<lparr>st_status := ITEM_STATUS_ERROR, st_ieid := ieid_generate boot_id ns,
                     st_t := now\<rparr>))"

definition local_state_event_of :: "item_state \<Rightarrow> local_state_event" where
  "local_state_event_of st =
     \<lparr>lse_status = st_status st, lse_value = st_value st, lse_act = st_act st,
      lse_ieid = st_ieid st, lse_t = st_t st\<rparr>"

definition db_state_of :: "item_state \<Rightarrow> db_state" where
  "db_state_of st =
     \<lparr>dbs_status = st_status st, dbs_value = st_value st, dbs_ieid = st_ieid st, dbs_t = st_t st\<rparr>"

subsection \<open>Lemmas\<close>

named_theorems state_defs \<open>definitions of the item state operations\<close>

lemmas state_op_defs [state_defs] =
  state_new0_def state_new_def state_mark_failed_def force_set_state_def force_set_value_def
  act_decr_def act_incr_def set_from_rs_def

text \<open>The range logic is respected: the item is in error or its value lies in the range.\<close>

definition logic_respected :: "eva_lib \<Rightarrow> logic option \<Rightarrow> item_state \<Rightarrow> bool" where
  "logic_respected L lg st \<longleftrightarrow>
     st_status st = ITEM_STATUS_ERROR \<or> validate_logic L (Some (st_value st)) lg"

lemma validate_logic_None [simp]: "validate_logic L v None"
  by (simp add: validate_logic_def)

lemma validate_logic_cong:
  "lib_to_f64 L v = lib_to_f64 L w \<Longrightarrow> validate_logic L (Some v) lg = validate_logic L (Some w) lg"
  by (simp add: validate_logic_def split: option.splits)

lemma validate_logic_absent:
  assumes "validate_logic L None lg"
  shows "validate_logic L v lg"
  using assms by (simp add: validate_logic_def split: option.splits)

lemma raw_apply_accepted:
  assumes "status = ITEM_STATUS_ERROR \<or> validate_logic L val lg"
  shows "st_status (snd (raw_apply L status val lg st)) = status"
    and "st_value (snd (raw_apply L status val lg st)) =
      (case val of Some v \<Rightarrow> if lib_value_eq L (st_value st) v then st_value st else v
       | None \<Rightarrow> st_value st)"
    and "fst (raw_apply L status val lg st) \<longleftrightarrow>
      st_status st \<noteq> status \<or> (\<exists>v. val = Some v \<and> \<not> lib_value_eq L (st_value st) v)"
  using assms by (auto simp: raw_apply_def Let_def split: option.splits)

lemma raw_apply_rejected:
  assumes "status \<noteq> ITEM_STATUS_ERROR" and "\<not> validate_logic L val lg"
  shows "raw_apply L status val lg st = (True, st\<lparr>st_status := ITEM_STATUS_ERROR\<rparr>)"
  using assms by (simp add: raw_apply_def)

lemma raw_apply_frame [simp]:
  "st_t (snd (raw_apply L status val lg st)) = st_t st"
  "st_act (snd (raw_apply L status val lg st)) = st_act st"
  "st_ieid (snd (raw_apply L status val lg st)) = st_ieid st"
  by (simp_all add: raw_apply_def Let_def split: option.splits)

lemma raw_apply_t_frame [simp]:
  "st_status (snd (raw_apply_t rt ms)) = st_status (snd ms)"
  "st_value (snd (raw_apply_t rt ms)) = st_value (snd ms)"
  "st_act (snd (raw_apply_t rt ms)) = st_act (snd ms)"
  "st_ieid (snd (raw_apply_t rt ms)) = st_ieid (snd ms)"
  by (simp_all add: raw_apply_t_def split: option.splits)

lemma set_from_raw_status_value:
  assumes "raw_target L raw st = (status, val)"
  shows "st_status (snd (set_from_raw L raw lg b ns time st)) =
      st_status (snd (raw_apply L status val lg st))"
    and "st_value (snd (set_from_raw L raw lg b ns time st)) =
      st_value (snd (raw_apply L status val lg st))"
    and "st_act (snd (set_from_raw L raw lg b ns time st)) = st_act st"
  using assms by (simp_all add: set_from_raw_def split_beta Let_def)

lemma set_from_raw_modified:
  assumes "raw_target L raw st = (status, val)"
  shows "fst (set_from_raw L raw lg b ns time st) =
      fst (raw_apply_t (raw_t raw) (raw_apply L status val lg st))"
  using assms by (auto simp: set_from_raw_def split_beta Let_def)

lemma set_from_raw_ieid:
  "st_ieid (snd (set_from_raw L raw lg b ns time st)) =
     (if fst (set_from_raw L raw lg b ns time st) \<or> raw_force raw \<noteq> ForceNone
      then ieid_generate b ns else st_ieid st)"
  by (auto simp: set_from_raw_def split_beta Let_def)

lemma set_from_raw_unmodified_state:
  assumes "\<not> fst (set_from_raw L raw lg b ns time st)" and "raw_force raw = ForceNone"
  shows "snd (set_from_raw L raw lg b ns time st) = st"
proof -
  obtain status val where tgt: "raw_target L raw st = (status, val)"
    by (cases "raw_target L raw st")
  have nm: "\<not> fst (raw_apply_t (raw_t raw) (raw_apply L status val lg st))"
    using assms(1) by (simp add: set_from_raw_modified [OF tgt])
  then have eq: "raw_apply_t (raw_t raw) (raw_apply L status val lg st) = raw_apply L status val lg st"
    and na: "\<not> fst (raw_apply L status val lg st)"
    by (auto simp: raw_apply_t_def split: option.splits if_splits)
  from na have "snd (raw_apply L status val lg st) = st"
    by (auto simp: raw_apply_def Let_def split: option.splits if_splits)
  then show ?thesis
    using assms(2) tgt eq na by (auto simp: set_from_raw_def split_beta Let_def)
qed

subsection \<open>Properties\<close>

lemma set_from_raw_logic:
  assumes "value_eq_conv L"
  shows "logic_respected L lg (snd (set_from_raw L raw lg boot_id ns time st))"
proof -
  obtain status val where tgt: "raw_target L raw st = (status, val)"
    by (cases "raw_target L raw st")
  note sv = set_from_raw_status_value [OF tgt]
  show ?thesis
  proof (cases "status = ITEM_STATUS_ERROR \<or> validate_logic L val lg")
    case False
    then show ?thesis
      by (simp add: logic_respected_def sv raw_apply_rejected)
  next
    case True
    note acc = raw_apply_accepted [OF True]
    show ?thesis
    proof (cases "status = ITEM_STATUS_ERROR")
      case True
      then show ?thesis using acc(1) by (simp add: logic_respected_def sv)
    next
      case False
      with True have val: "validate_logic L val lg" by simp
      show ?thesis
      proof (cases val)
        case None
        then show ?thesis
          using val acc(2) validate_logic_absent by (simp add: logic_respected_def sv)
      next
        case (Some v)
        have "validate_logic L (Some (if lib_value_eq L (st_value st) v then st_value st else v)) lg"
          using val Some assms validate_logic_cong [of L "st_value st" v]
          by (auto simp: value_eq_conv_def)
        then show ?thesis using Some acc(2) by (simp add: logic_respected_def sv)
      qed
    qed
  qed
qed

text \<open>
  C35. A raw event never leaves an item with a value outside its range logic and a
  non-error status: after \<open>set_from_raw\<close>, whatever the event and the previous state, the item is
  in the error status or its value satisfies the range.
\<close>

theorem set_from_raw_respects_logic:
  assumes "value_eq_conv L"
  shows "logic_respected L lg (snd (set_from_raw L raw lg boot_id ns time st))"
  by (rule set_from_raw_logic [OF assms])

theorem set_from_raw_respects_logic_witness:
  "value_eq_conv std_lib \<and>
   logic_respected std_lib
     (Some \<lparr>logic_range = Some \<lparr>range_min = Some (Fin 0), range_max = None,
        range_min_eq = False, range_max_eq = False\<rparr>\<rparr>)
     (snd (set_from_raw std_lib (raw_event_default 1 (Some (VF64 (Fin (-5)))) ForceNone None)
        (Some \<lparr>logic_range = Some \<lparr>range_min = Some (Fin 0), range_max = None,
           range_min_eq = False, range_max_eq = False\<rparr>\<rparr>)
        1 7 (Fin 3) (state_new 1 (VF64 (Fin 2)) None (IEID 1 1) (Fin 1))))"
  using set_from_raw_respects_logic [OF std_lib_value_eq_conv] std_lib_value_eq_conv by blast

text \<open>
  C22. The flag \<open>set_from_raw\<close> returns and the new event identifier. The flag is set exactly when
  the event is rejected by the range logic, asks for another status, another value, or carries
  another non-zero time. The identifier is renewed exactly when the flag is set or the event is
  forced; otherwise the whole state is left as it was. The counter of actions never changes.
\<close>

theorem set_from_raw_effect:
  assumes "raw_target L raw st = (status, val)"
    and "set_from_raw L raw lg boot_id ns time st = (modified, st')"
  shows "(modified \<longleftrightarrow>
      (status \<noteq> ITEM_STATUS_ERROR \<and> \<not> validate_logic L val lg) \<or> st_status st \<noteq> status \<or>
      (\<exists>v. val = Some v \<and> \<not> lib_value_eq L (st_value st) v) \<or>
      (\<exists>t. raw_t raw = Some t \<and> \<not> f64_eq t (Fin 0) \<and> \<not> f64_eq (st_t st) t)) \<and>
    st_ieid st' = (if modified \<or> raw_force raw \<noteq> ForceNone then IEID boot_id ns else st_ieid st) \<and>
    st_act st' = st_act st \<and>
    (\<not> modified \<and> raw_force raw = ForceNone \<longrightarrow> st' = st)"
proof (intro conjI)
  have m: "modified = fst (raw_apply_t (raw_t raw) (raw_apply L status val lg st))"
    using set_from_raw_modified [OF assms(1), of lg boot_id ns time] assms(2) by simp
  have f: "fst (raw_apply L status val lg st) \<longleftrightarrow>
      (status \<noteq> ITEM_STATUS_ERROR \<and> \<not> validate_logic L val lg) \<or> st_status st \<noteq> status \<or>
      (\<exists>v. val = Some v \<and> \<not> lib_value_eq L (st_value st) v)"
    using raw_apply_accepted(3) [of status L val lg st] raw_apply_rejected [of status L val lg st]
    by (cases "status = ITEM_STATUS_ERROR \<or> validate_logic L val lg") auto
  show "modified \<longleftrightarrow>
      (status \<noteq> ITEM_STATUS_ERROR \<and> \<not> validate_logic L val lg) \<or> st_status st \<noteq> status \<or>
      (\<exists>v. val = Some v \<and> \<not> lib_value_eq L (st_value st) v) \<or>
      (\<exists>t. raw_t raw = Some t \<and> \<not> f64_eq t (Fin 0) \<and> \<not> f64_eq (st_t st) t)"
    unfolding m using f by (auto simp: raw_apply_t_def split: option.splits)
  show "st_ieid st' = (if modified \<or> raw_force raw \<noteq> ForceNone then IEID boot_id ns else st_ieid st)"
    using set_from_raw_ieid [of L raw lg boot_id ns time st] assms(2)
    by (simp add: ieid_generate_def)
  show "st_act st' = st_act st"
    using set_from_raw_status_value(3) [OF assms(1), of lg boot_id ns time] assms(2) by simp
  show "\<not> modified \<and> raw_force raw = ForceNone \<longrightarrow> st' = st"
    using set_from_raw_unmodified_state [of L raw lg boot_id ns time st] assms(2) by simp
qed

theorem set_from_raw_effect_witness:
  "let st = state_new 1 (VU8 5) None (IEID 1 1) (Fin 1);
       raw = raw_event_default 1 (Some (VU8 6)) ForceNone None
   in raw_target std_lib raw st = (1, Some (VU8 6)) \<and>
      st_ieid (snd (set_from_raw std_lib raw None 3 9 (Fin 2) st)) = IEID 3 9"
proof -
  define st where "st = state_new 1 (VU8 5) None (IEID 1 1) (Fin 1)"
  define raw where "raw = raw_event_default 1 (Some (VU8 6)) ForceNone None"
  have t: "raw_target std_lib raw st = (1, Some (VU8 6))"
    by (simp add: raw_def st_def raw_target_def raw_compared_def raw_event_default_def)
  obtain m st' where r: "set_from_raw std_lib raw None 3 9 (Fin 2) st = (m, st')"
    by (cases "set_from_raw std_lib raw None 3 9 (Fin 2) st")
  have m: m
    using set_from_raw_effect [OF t r] by (simp add: st_def state_new_def)
  have "st_ieid st' = IEID 3 9"
    using set_from_raw_effect [OF t r] m by simp
  then show ?thesis using t r by (simp add: st_def raw_def Let_def)
qed

text \<open>
  C9. An event outside the range is always reported as a modification, also when the item was
  in the error status before and neither its status nor its value changes.
\<close>

theorem out_of_range_always_modified:
  assumes "raw_target L raw st = (status, val)"
    and "status \<noteq> ITEM_STATUS_ERROR" and "\<not> validate_logic L val lg"
  shows "fst (set_from_raw L raw lg boot_id ns time st) \<and>
    st_status (snd (set_from_raw L raw lg boot_id ns time st)) = ITEM_STATUS_ERROR \<and>
    st_value (snd (set_from_raw L raw lg boot_id ns time st)) = st_value st"
  using assms
  by (simp add: set_from_raw_status_value [OF assms(1)] set_from_raw_modified [OF assms(1)]
      raw_apply_rejected raw_apply_t_def split: option.split)

theorem out_of_range_always_modified_witness:
  "let st = state_new ITEM_STATUS_ERROR (VF64 (Fin 1)) None (IEID 1 1) (Fin 1);
       lg = Some \<lparr>logic_range = Some \<lparr>range_min = Some (Fin 0), range_max = None,
              range_min_eq = False, range_max_eq = False\<rparr>\<rparr>;
       raw = raw_event_default 1 (Some (VF64 (Fin (-5)))) ForceNone None
   in fst (set_from_raw std_lib raw lg 1 7 (Fin 3) st) \<and>
      st_status (snd (set_from_raw std_lib raw lg 1 7 (Fin 3) st)) = st_status st \<and>
      st_value (snd (set_from_raw std_lib raw lg 1 7 (Fin 3) st)) = st_value st"
proof -
  define st where "st = state_new ITEM_STATUS_ERROR (VF64 (Fin 1)) None (IEID 1 1) (Fin 1)"
  define lg where "lg = Some \<lparr>logic_range = Some \<lparr>range_min = Some (Fin 0), range_max = None,
              range_min_eq = False, range_max_eq = False\<rparr>\<rparr>"
  define raw where "raw = raw_event_default 1 (Some (VF64 (Fin (-5)))) ForceNone None"
  have t: "raw_target std_lib raw st = (1, Some (VF64 (Fin (-5))))"
    by (simp add: raw_def st_def raw_target_def raw_compared_def raw_event_default_def)
  have n: "(1 :: int) \<noteq> ITEM_STATUS_ERROR" by (simp add: ITEM_STATUS_ERROR_def)
  have v: "\<not> validate_logic std_lib (Some (VF64 (Fin (-5)))) lg"
    by (simp add: lg_def validate_logic_def std_to_f64_def std_range_matches_def)
  have s: "st_status st = ITEM_STATUS_ERROR" by (simp add: st_def state_new_def)
  show ?thesis
    using out_of_range_always_modified [OF t n v, of 1 7 "Fin 3"] s
    unfolding st_def [symmetric] lg_def [symmetric] raw_def [symmetric] Let_def by simp
qed

end
