(* ===== verification/Item_Data.thy ===== *)
theory Item_Data
  imports Item_State
begin

text \<open>
  Items, their sources and their configuration (\<open>ItemData\<close>, \<open>ItemSource\<close>, \<open>ItemConfigData\<close> of
  \<open>eva/src/items.rs\<close>). The inventory shares items as \<open>Arc<ItemData>\<close>: the immutable fields are the
  fields of the handle \<open>item\<close>, the fields with interior mutability (the state behind its
  mutex, the \<open>enabled\<close> flag) live in a store at the handle's address, so that a change
  made through one copy of the handle is seen through every other. Sources are shared in
  the same way.
\<close>

subsection \<open>Handles and the store\<close>

record source =
  src_node :: string
  src_svc :: string
  src_cell :: nat

record source_cell =
  sc_online :: bool
  sc_destroyed :: bool

record action_config =
  ac_svc :: string
  ac_timeout :: "f64 option"
  ac_config :: "eva_value option"

record item_data =
  id_oid :: oid
  id_state :: "item_state option"
  id_meta :: "eva_value option"
  id_source :: "source option"
  id_enabled :: bool
  id_logic :: "logic option"
  id_action :: "action_config option"

record item =
  it_oid :: oid
  it_meta :: "eva_value option"
  it_source :: "source option"
  it_logic :: "logic option"
  it_action :: "action_config option"
  it_cell :: nat

record item_cell =
  ic_state :: "item_state option"
  ic_enabled :: bool

record heap =
  hp_items :: "nat \<Rightarrow> item_cell"
  hp_sources :: "nat \<Rightarrow> source_cell"
  hp_next :: nat

text \<open>\<open>Arc::new(data)\<close>: a fresh address for the mutable fields.\<close>

definition arc_item :: "item_data \<Rightarrow> heap \<Rightarrow> item \<times> heap" where
  "arc_item d h =
     (\<lparr>it_oid = id_oid d, it_meta = id_meta d, it_source = id_source d, it_logic = id_logic d,
       it_action = id_action d, it_cell = hp_next h\<rparr>,
      h\<lparr>hp_items := (hp_items h)(hp_next h := \<lparr>ic_state = id_state d, ic_enabled = id_enabled d\<rparr>),
        hp_next := Suc (hp_next h)\<rparr>)"

definition create_source :: "string \<Rightarrow> string \<Rightarrow> heap \<Rightarrow> source \<times> heap" where
  "create_source source_id svc h =
     (\<lparr>src_node = source_id, src_svc = svc, src_cell = hp_next h\<rparr>,
      h\<lparr>hp_sources := (hp_sources h)(hp_next h := \<lparr>sc_online = True, sc_destroyed = False\<rparr>),
        hp_next := Suc (hp_next h)\<rparr>)"

definition src_mark_online :: "source \<Rightarrow> bool \<Rightarrow> heap \<Rightarrow> heap" where
  "src_mark_online s online h =
     h\<lparr>hp_sources := (hp_sources h)(src_cell s := (hp_sources h (src_cell s))\<lparr>sc_online := online\<rparr>)\<rparr>"

definition src_mark_destroyed :: "source \<Rightarrow> heap \<Rightarrow> heap" where
  "src_mark_destroyed s h =
     h\<lparr>hp_sources := (hp_sources h)(src_cell s := (hp_sources h (src_cell s))\<lparr>sc_destroyed := True\<rparr>)\<rparr>"

definition src_online :: "heap \<Rightarrow> source \<Rightarrow> bool" where
  "src_online h s = sc_online (hp_sources h (src_cell s))"

definition src_is_destroyed :: "heap \<Rightarrow> source \<Rightarrow> bool" where
  "src_is_destroyed h s = sc_destroyed (hp_sources h (src_cell s))"

definition item_state_of :: "heap \<Rightarrow> item \<Rightarrow> item_state option" where
  "item_state_of h i = ic_state (hp_items h (it_cell i))"

definition item_enabled :: "heap \<Rightarrow> item \<Rightarrow> bool" where
  "item_enabled h i = ic_enabled (hp_items h (it_cell i))"

definition item_set_enabled :: "item \<Rightarrow> bool \<Rightarrow> heap \<Rightarrow> heap" where
  "item_set_enabled i val h =
     h\<lparr>hp_items := (hp_items h)(it_cell i := (hp_items h (it_cell i))\<lparr>ic_enabled := val\<rparr>)\<rparr>"

text \<open>Writing through the guard of \<open>state.lock()\<close>.\<close>

definition item_write_state :: "item \<Rightarrow> item_state \<Rightarrow> heap \<Rightarrow> heap" where
  "item_write_state i st h =
     h\<lparr>hp_items := (hp_items h)(it_cell i := (hp_items h (it_cell i))\<lparr>ic_state := Some st\<rparr>)\<rparr>"

subsection \<open>Views of an item\<close>

definition item_local_state_event :: "heap \<Rightarrow> item \<Rightarrow> local_state_event option" where
  "item_local_state_event h i = map_option local_state_event_of (item_state_of h i)"

definition item_db_state :: "heap \<Rightarrow> item \<Rightarrow> db_state option" where
  "item_db_state h i =
     (case item_state_of h i of
        Some st \<Rightarrow> if is_bytes (st_value st) then None else Some (db_state_of st)
      | None \<Rightarrow> None)"

text \<open>The configuration is serialized with \<open>to_value\<close>, whose result is a parameter.\<close>

definition item_config :: "(item \<Rightarrow> bool \<Rightarrow> eva_value result) \<Rightarrow> heap \<Rightarrow> item \<Rightarrow> eva_value result" where
  "item_config ser h i =
     (case it_source i of Some _ \<Rightarrow> Inl EFailed | None \<Rightarrow> ser i (item_enabled h i))"

record item_state_and_info =
  si_oid :: oid
  si_status :: "item_status option"
  si_value :: "eva_value option"
  si_act :: "nat option"
  si_ieid :: "ieid option"
  si_t :: "f64 option"
  si_node :: string
  si_connected :: bool

definition state_and_info :: "heap \<Rightarrow> item \<Rightarrow> string \<Rightarrow> bool \<Rightarrow> item_state_and_info" where
  "state_and_info h i system_name include_binary_values =
     (let (status, val, act, ieid, t) =
            (case item_state_of h i of
               Some st \<Rightarrow>
                 (Some (st_status st),
                  (if include_binary_values \<or> \<not> is_bytes (st_value st) then Some (st_value st)
                   else (case st_value st of
                           VBytes v \<Rightarrow> Some (VBytes (if 3 \<le> length v then take 3 v else v))
                         | v \<Rightarrow> Some v)),
                  st_act st, Some (st_ieid st), Some (st_t st))
             | None \<Rightarrow> (None, None, None, None, None));
          (node, connected) =
            (case it_source i of Some src \<Rightarrow> (src_node src, src_online h src)
             | None \<Rightarrow> (system_name, True))
      in \<lparr>si_oid = it_oid i, si_status = status, si_value = val, si_act = act,
          si_ieid = (if connected then ieid
                     else (case ieid of Some _ \<Rightarrow> Some (IEID 0 0) | None \<Rightarrow> None)),
          si_t = t, si_node = node, si_connected = connected\<rparr>)"

record full_item_state_and_info =
  fsi_si :: item_state_and_info
  fsi_meta :: "eva_value option"
  fsi_enabled :: bool

definition full_state_and_info :: "heap \<Rightarrow> item \<Rightarrow> string \<Rightarrow> bool \<Rightarrow> full_item_state_and_info" where
  "full_state_and_info h i system_name include_binary_values =
     \<lparr>fsi_si = state_and_info h i system_name include_binary_values,
      fsi_meta = it_meta i, fsi_enabled = item_enabled h i\<rparr>"

subsection \<open>Configuration data\<close>

record item_config_data =
  cd_oid :: oid
  cd_meta :: "eva_value option"
  cd_enabled :: bool
  cd_logic :: "logic option"
  cd_action :: "action_config option"
  cd_status :: "item_status option"
  cd_value :: "eva_value option"
  cd_t :: "f64 option"

record state_data =
  sd_status :: "item_status option"
  sd_value :: "eva_value option"
  sd_t :: "f64 option"

definition unit_action_config :: "oid \<Rightarrow> string \<Rightarrow> action_config option" where
  "unit_action_config x sender =
     (if oid_kind x = KUnit then Some \<lparr>ac_svc = sender, ac_timeout = None, ac_config = None\<rparr>
      else None)"

definition config_blank :: "oid \<Rightarrow> string \<Rightarrow> item_config_data" where
  "config_blank x sender =
     \<lparr>cd_oid = x, cd_meta = None, cd_enabled = True, cd_logic = None,
      cd_action = unit_action_config x sender, cd_status = None, cd_value = None, cd_t = None\<rparr>"

definition config_from_raw_event :: "oid \<Rightarrow> raw_event \<Rightarrow> string \<Rightarrow> item_config_data" where
  "config_from_raw_event x ev sender =
     \<lparr>cd_oid = x, cd_meta = None, cd_enabled = True, cd_logic = None,
      cd_action = unit_action_config x sender, cd_status = Some (raw_status ev),
      cd_value = raw_value ev, cd_t = raw_t ev\<rparr>"

definition config_split :: "item_config_data \<Rightarrow> item_data \<times> state_data" where
  "config_split c =
     (\<lparr>id_oid = cd_oid c, id_state = None, id_meta = cd_meta c, id_source = None,
       id_enabled = cd_enabled c, id_logic = cd_logic c, id_action = cd_action c\<rparr>,
      \<lparr>sd_status = cd_status c, sd_value = cd_value c, sd_t = cd_t c\<rparr>)"

definition check_item_data :: "item_data \<Rightarrow> unit result" where
  "check_item_data d =
     (case oid_kind (id_oid d) of
        KUnit \<Rightarrow> Inr ()
      | KSensor \<Rightarrow> if id_action d \<noteq> None then Inl EInvalidData else Inr ()
      | KLvar \<Rightarrow> if id_action d \<noteq> None then Inl EInvalidData else Inr ()
      | KLmacro \<Rightarrow> if id_logic d \<noteq> None then Inl EInvalidData else Inr ())"

definition from_repl_item :: "repl_inventory_item \<Rightarrow> source \<Rightarrow> item_data result" where
  "from_repl_item r src =
     (let mk = (\<lambda>st. \<lparr>id_oid = ri_oid r, id_state = st, id_meta = ri_meta r, id_source = Some src,
                      id_enabled = ri_enabled r, id_logic = None, id_action = None\<rparr>)
      in if oid_kind (ri_oid r) = KLmacro then Inr (mk None)
         else (case ri_ieid r of
                 None \<Rightarrow> Inl EInvalidData
               | Some ieid \<Rightarrow>
                   (case ri_t r of
                      None \<Rightarrow> Inl EInvalidData
                    | Some t \<Rightarrow>
                        Inr (mk (Some (state_new (unwrap_or 0 (ri_status r))
                                         (unwrap_or VUnit (ri_value r)) (ri_act r) ieid t))))))"

subsection \<open>Lemmas\<close>

lemma arc_item_fields [simp]:
  "it_oid (fst (arc_item d h)) = id_oid d"
  "it_source (fst (arc_item d h)) = id_source d"
  "it_logic (fst (arc_item d h)) = id_logic d"
  "it_meta (fst (arc_item d h)) = id_meta d"
  "it_action (fst (arc_item d h)) = id_action d"
  "it_cell (fst (arc_item d h)) = hp_next h"
  "hp_next (snd (arc_item d h)) = Suc (hp_next h)"
  "hp_sources (snd (arc_item d h)) = hp_sources h"
  by (simp_all add: arc_item_def)

lemma item_state_of_arc:
  "item_state_of (snd (arc_item d h)) (fst (arc_item d h)) = id_state d"
  "it_cell j \<noteq> hp_next h \<Longrightarrow> item_state_of (snd (arc_item d h)) j = item_state_of h j"
  by (simp_all add: item_state_of_def arc_item_def)

lemma item_state_of_write:
  "item_state_of (item_write_state i st h) j =
     (if it_cell j = it_cell i then Some st else item_state_of h j)"
  by (simp add: item_state_of_def item_write_state_def)

lemma item_enabled_write [simp]: "item_enabled (item_write_state i st h) j = item_enabled h j"
  by (simp add: item_enabled_def item_write_state_def)

lemma src_cells_write [simp]: "hp_sources (item_write_state i st h) = hp_sources h"
  by (simp add: item_write_state_def)

lemma from_repl_item_ok:
  assumes "from_repl_item r src = Inr d"
  shows "id_oid d = ri_oid r" and "id_source d = Some src"
    and "id_state d = None \<longleftrightarrow> oid_kind (ri_oid r) = KLmacro"
  using assms by (auto simp: from_repl_item_def Let_def split: if_splits option.splits)

end
