(* ===== verification/Item_Tree.thy ===== *)
theory Item_Tree
  imports Item_Data
begin

text \<open>
  The tree of items of one kind (\<open>ItemTree\<close> of \<open>eva/src/items.rs\<close>): a trie over the chunks of
  the full id. A node keeps the items whose path ends there (\<open>members\<close>) and, for masks that
  end in \<open>#\<close>, every item below it (\<open>members_wildcard\<close>). The recursive operations work on the
  tree in place, so the model returns the changed tree together with the result, on the
  error paths too.
\<close>

datatype item_tree =
  ItemTree (childs: "(string \<times> item_tree) list") (members: "(oid \<times> item) list")
    (members_wildcard: "(oid \<times> item) list")

definition tree_default :: item_tree where
  "tree_default = ItemTree [] [] []"

definition tree_is_empty :: "item_tree \<Rightarrow> bool" where
  "tree_is_empty t \<longleftrightarrow> childs t = [] \<and> members t = []"

fun get_item_rec :: "item_tree \<Rightarrow> string list \<Rightarrow> item option" where
  "get_item_rec t (chunk # sp) =
     (case hm_get (childs t) chunk of Some child \<Rightarrow> get_item_rec child sp | None \<Rightarrow> None)"
| "get_item_rec t [] = (case hm_values (members t) of [] \<Rightarrow> None | i # _ \<Rightarrow> Some i)"

fun remove_item_rec :: "item_tree \<Rightarrow> string list \<Rightarrow> oid \<Rightarrow> item option \<times> item_tree" where
  "remove_item_rec t (chunk # sp) x =
     (case hm_get (members_wildcard t) x of
        None \<Rightarrow> (None, t)
      | Some _ \<Rightarrow>
          (let ws = hm_remove x (members_wildcard t)
           in case hm_get (childs t) chunk of
                None \<Rightarrow> (None, ItemTree (childs t) (members t) ws)
              | Some c \<Rightarrow>
                  (case remove_item_rec c sp x of
                     (None, c') \<Rightarrow> (None, ItemTree (hm_insert chunk c' (childs t)) (members t) ws)
                   | (Some i, c') \<Rightarrow>
                       (Some i,
                        ItemTree (if tree_is_empty c' then hm_remove chunk (childs t)
                                  else hm_insert chunk c' (childs t)) (members t) ws))))"
| "remove_item_rec t [] x =
     (hm_get (members t) x,
      ItemTree (childs t) (hm_remove x (members t)) (members_wildcard t))"

fun append_item_rec :: "item_tree \<Rightarrow> string list \<Rightarrow> item \<Rightarrow> bool \<Rightarrow> unit result \<times> item_tree" where
  "append_item_rec t (chunk # sp) i replace =
     (if hm_contains (members_wildcard t) (it_oid i) \<and> \<not> replace then (Inl EDuplicate, t)
      else
        (let ws = hm_insert (it_oid i) i (members_wildcard t)
         in case hm_get (childs t) chunk of
              Some c \<Rightarrow>
                (case append_item_rec c sp i replace of
                   (r, c') \<Rightarrow> (r, ItemTree (hm_insert chunk c' (childs t)) (members t) ws))
            | None \<Rightarrow>
                (case append_item_rec tree_default sp i replace of
                   (Inl e, _) \<Rightarrow> (Inl e, ItemTree (childs t) (members t) ws)
                 | (Inr _, c') \<Rightarrow>
                     (Inr (), ItemTree (hm_insert chunk c' (childs t)) (members t) ws))))"
| "append_item_rec t [] i replace =
     (if hm_contains (members t) (it_oid i) \<and> \<not> replace then (Inl EDuplicate, t)
      else (Inr (), ItemTree (childs t) (hm_insert (it_oid i) i (members t)) (members_wildcard t)))"

fun get_item_by_mask_rec ::
    "eva_lib \<Rightarrow> (item \<Rightarrow> bool) \<Rightarrow> string list \<Rightarrow> item_tree \<Rightarrow> item list" where
  "get_item_by_mask_rec L flt (chunk # it) t =
     (if chunk = ''#'' then filter flt (hm_values (members_wildcard t))
      else if chunk = ''+'' then
        concat (map (\<lambda>(_, child). get_item_by_mask_rec L flt it child) (childs t))
      else
        (case strip_prefix (lib_prefix_formula L) chunk of
           Some f \<Rightarrow>
             concat (map (\<lambda>(_, child). get_item_by_mask_rec L flt it child)
               (filter (\<lambda>(name, _). lib_formula L f name) (childs t)))
         | None \<Rightarrow>
             (case strip_prefix (lib_prefix_regex L) chunk of
                Some re \<Rightarrow>
                  (case lib_regex L re of
                     Some is_match \<Rightarrow>
                       concat (map (\<lambda>(name, child).
                         if is_match name then get_item_by_mask_rec L flt it child else [])
                         (childs t))
                   | None \<Rightarrow> [])
              | None \<Rightarrow>
                  (case hm_get (childs t) chunk of
                     Some child \<Rightarrow> get_item_by_mask_rec L flt it child
                   | None \<Rightarrow> []))))"
| "get_item_by_mask_rec L flt [] t = filter flt (hm_values (members t))"

subsection \<open>The abstraction and the invariant\<close>

text \<open>All items of a tree, keyed by their identifier.\<close>

fun tree_items :: "item_tree \<Rightarrow> (oid \<times> item) set" where
  "tree_items (ItemTree cs ms ws) = set ms \<union> (\<Union>(k, c) \<in> set cs. tree_items c)"

text \<open>
  \<open>tree_ok K pre t\<close>: the subtree under the path \<open>pre\<close> of the tree of kind \<open>K\<close> is well formed: a
  member's identifier has exactly this path, the wildcard index holds exactly the items of
  the subtrees, and no subtree is empty.
\<close>

fun tree_ok :: "item_kind \<Rightarrow> string list \<Rightarrow> item_tree \<Rightarrow> bool" where
  "tree_ok K pre (ItemTree cs ms ws) \<longleftrightarrow>
     hm_wf cs \<and> hm_wf ms \<and> hm_wf ws \<and>
     (\<forall>(x, i) \<in> set ms. it_oid i = x \<and> oid_kind x = K \<and> oid_chunks x = pre) \<and>
     set ws = (\<Union>(k, c) \<in> set cs. tree_items c) \<and>
     (\<forall>(k, c) \<in> set cs. tree_ok K (pre @ [k]) c \<and> \<not> tree_is_empty c)"

text \<open>Mask matching on paths, without the tree.\<close>

definition chunk_matches :: "eva_lib \<Rightarrow> string \<Rightarrow> string \<Rightarrow> bool" where
  "chunk_matches L chunk name \<longleftrightarrow>
     (if chunk = ''+'' then True
      else (case strip_prefix (lib_prefix_formula L) chunk of
              Some f \<Rightarrow> lib_formula L f name
            | None \<Rightarrow>
                (case strip_prefix (lib_prefix_regex L) chunk of
                   Some re \<Rightarrow> (case lib_regex L re of Some is_match \<Rightarrow> is_match name | None \<Rightarrow> False)
                 | None \<Rightarrow> name = chunk)))"

fun path_matches :: "eva_lib \<Rightarrow> string list \<Rightarrow> string list \<Rightarrow> bool" where
  "path_matches L [] path \<longleftrightarrow> path = []"
| "path_matches L (chunk # it) path \<longleftrightarrow>
     (if chunk = ''#'' then path \<noteq> []
      else (case path of [] \<Rightarrow> False
            | name # rest \<Rightarrow> chunk_matches L chunk name \<and> path_matches L it rest))"

subsection \<open>Lemmas\<close>

lemma tree_ok_simp:
  "tree_ok K pre t \<longleftrightarrow>
     hm_wf (childs t) \<and> hm_wf (members t) \<and> hm_wf (members_wildcard t) \<and>
     (\<forall>(x, i) \<in> set (members t). it_oid i = x \<and> oid_kind x = K \<and> oid_chunks x = pre) \<and>
     set (members_wildcard t) = (\<Union>(k, c) \<in> set (childs t). tree_items c) \<and>
     (\<forall>(k, c) \<in> set (childs t). tree_ok K (pre @ [k]) c \<and> \<not> tree_is_empty c)"
  by (cases t) simp

lemma tree_items_simp:
  "tree_items t = set (members t) \<union> (\<Union>(k, c) \<in> set (childs t). tree_items c)"
  by (cases t) simp

lemma tree_ok_default [simp]: "tree_ok K pre tree_default" "tree_items tree_default = {}"
  by (simp_all add: tree_default_def)

lemma tree_okD:
  assumes "tree_ok K pre t"
  shows "hm_wf (childs t)" "hm_wf (members t)" "hm_wf (members_wildcard t)"
    and "set (members_wildcard t) = (\<Union>(k, c) \<in> set (childs t). tree_items c)"
    and "(x, i) \<in> set (members t) \<Longrightarrow> it_oid i = x \<and> oid_kind x = K \<and> oid_chunks x = pre"
    and "(k, c) \<in> set (childs t) \<Longrightarrow> tree_ok K (pre @ [k]) c"
    and "(k, c) \<in> set (childs t) \<Longrightarrow> \<not> tree_is_empty c"
  using assms by (auto simp: tree_ok_simp [of K pre t])

text \<open>The identifier of an item below \<open>pre\<close> starts with \<open>pre\<close>.\<close>

lemma tree_items_oid:
  assumes "tree_ok K pre t" and "(x, i) \<in> tree_items t"
  shows "it_oid i = x \<and> oid_kind x = K \<and> (\<exists>suf. oid_chunks x = pre @ suf)"
  using assms
proof (induction t arbitrary: pre)
  case (ItemTree cs ms ws)
  from ItemTree.prems(2) consider "(x, i) \<in> set ms" | k c where "(k, c) \<in> set cs" "(x, i) \<in> tree_items c"
    by auto
  then show ?case
  proof cases
    case 1
    then show ?thesis using ItemTree.prems(1) by auto
  next
    case 2
    then have "tree_ok K (pre @ [k]) c" using ItemTree.prems(1) by auto
    then have "it_oid i = x \<and> oid_kind x = K \<and> (\<exists>suf. oid_chunks x = (pre @ [k]) @ suf)"
      using ItemTree.IH [of "(k, c)" c "pre @ [k]"] 2 by (simp add: prod_set_defs)
    then show ?thesis by auto
  qed
qed

lemma child_items_oid:
  assumes "tree_ok K pre t" and "(k, c) \<in> set (childs t)" and "(x, i) \<in> tree_items c"
  shows "it_oid i = x \<and> oid_kind x = K \<and> (\<exists>suf. oid_chunks x = pre @ k # suf)"
  using tree_items_oid [OF tree_okD(6) [OF assms(1,2)] assms(3)] by auto

text \<open>A subtree that is not empty has an item.\<close>

lemma tree_items_nonempty:
  assumes "tree_ok K pre t" and "\<not> tree_is_empty t"
  shows "tree_items t \<noteq> {}"
  using assms
proof (induction t arbitrary: pre)
  case (ItemTree cs ms ws)
  show ?case
  proof (cases "ms = []")
    case False
    then show ?thesis by (cases ms) auto
  next
    case True
    with ItemTree.prems(2) obtain k c where kc: "(k, c) \<in> set cs"
      by (cases cs) (auto simp: tree_is_empty_def)
    then have "tree_items c \<noteq> {}"
      using ItemTree.IH [of "(k, c)" c "pre @ [k]"] ItemTree.prems(1) by (auto simp: prod_set_defs)
    with kc show ?thesis by auto
  qed
qed

text \<open>Items of the subtree on the path of an identifier, and of the others.\<close>

lemma items_split:
  assumes ok: "tree_ok K pre t" and ch: "oid_chunks x = pre @ k # suf"
  shows "(x, i) \<in> tree_items t \<longleftrightarrow>
    (case hm_get (childs t) k of Some c \<Rightarrow> (x, i) \<in> tree_items c | None \<Rightarrow> False)"
    and "(x, i) \<in> tree_items t \<longleftrightarrow> (x, i) \<in> set (members_wildcard t)"
proof -
  have nm: "(x, i) \<notin> set (members t)"
    using tree_okD(5) [OF ok, of x i] ch by auto
  have only: "k' = k" if "(k', c) \<in> set (childs t)" "(x, i) \<in> tree_items c" for k' c
    using child_items_oid [OF ok that] ch by auto
  show w: "(x, i) \<in> tree_items t \<longleftrightarrow> (x, i) \<in> set (members_wildcard t)"
    using nm by (auto simp: tree_items_simp [of t] tree_okD(4) [OF ok])
  show "(x, i) \<in> tree_items t \<longleftrightarrow>
    (case hm_get (childs t) k of Some c \<Rightarrow> (x, i) \<in> tree_items c | None \<Rightarrow> False)"
  proof
    assume "(x, i) \<in> tree_items t"
    then obtain k' c where kc: "(k', c) \<in> set (childs t)" "(x, i) \<in> tree_items c"
      using nm by (auto simp: tree_items_simp [of t])
    then have "hm_get (childs t) k = Some c"
      using only [OF kc] hm.entries_get [OF tree_okD(1) [OF ok]] by auto
    then show "case hm_get (childs t) k of Some c \<Rightarrow> (x, i) \<in> tree_items c | None \<Rightarrow> False"
      using kc by simp
  next
    assume a: "case hm_get (childs t) k of Some c \<Rightarrow> (x, i) \<in> tree_items c | None \<Rightarrow> False"
    then obtain c where c: "hm_get (childs t) k = Some c" "(x, i) \<in> tree_items c"
      by (auto split: option.splits)
    then have "(k, c) \<in> set (childs t)"
      using hm.entries_get [OF tree_okD(1) [OF ok]] by auto
    then show "(x, i) \<in> tree_items t"
      using c(2) by (auto simp: tree_items_simp [of t])
  qed
qed

lemma items_here:
  assumes ok: "tree_ok K pre t" and ch: "oid_chunks x = pre"
  shows "(x, i) \<in> tree_items t \<longleftrightarrow> (x, i) \<in> set (members t)"
proof
  assume "(x, i) \<in> tree_items t"
  then show "(x, i) \<in> set (members t)"
    using child_items_oid [OF ok] ch by (fastforce simp: tree_items_simp [of t])
qed (simp add: tree_items_simp [of t])

lemma tree_items_functional:
  assumes "tree_ok K pre t" and "(x, i) \<in> tree_items t" and "(x, j) \<in> tree_items t"
  shows "i = j"
proof -
  obtain suf where ch: "oid_chunks x = pre @ suf"
    using tree_items_oid [OF assms(1,2)] by auto
  show ?thesis
  proof (cases suf)
    case Nil
    with ch have "oid_chunks x = pre" by simp
    then have "(x, i) \<in> set (members t)" "(x, j) \<in> set (members t)"
      using items_here [OF assms(1)] assms(2,3) by auto
    then show ?thesis
      using hm.entries_functional [OF tree_okD(2) [OF assms(1)]] by blast
  next
    case (Cons k s)
    with ch have ch': "oid_chunks x = pre @ k # s" by simp
    then have "(x, i) \<in> set (members_wildcard t)" "(x, j) \<in> set (members_wildcard t)"
      using items_split(2) [OF assms(1) ch'] assms(2,3) by auto
    then show ?thesis
      using hm.entries_functional [OF tree_okD(3) [OF assms(1)]] by blast
  qed
qed

text \<open>Looking an identifier up.\<close>

lemma get_item_rec_iff:
  assumes "tree_ok K pre t" and "oid_kind x = K" and "oid_chunks x = pre @ suf"
  shows "get_item_rec t suf = Some i \<longleftrightarrow> (x, i) \<in> tree_items t"
  using assms
proof (induction suf arbitrary: pre t)
  case Nil
  then have here: "(x, i) \<in> tree_items t \<longleftrightarrow> (x, i) \<in> set (members t)"
    using items_here [of K pre t x i] by simp
  have all: "y = x" if "(y, j) \<in> set (members t)" for y j
    using tree_okD(5) [OF Nil.prems(1) that] Nil.prems by (auto intro: oid_eqI)
  show ?case
  proof (cases "members t")
    case Nil
    then show ?thesis using here by (simp add: hm_values_def)
  next
    case (Cons e rest)
    obtain y j where e: "e = (y, j)" by (cases e)
    have "y = x" using all [of y j] Cons e by simp
    then have "(x, i) \<in> set (members t) \<longleftrightarrow> i = j"
      using hm.entries_functional [OF tree_okD(2) [OF Nil.prems(1)]] Cons e
      by (metis list.set_intros(1))
    then show ?thesis using here Cons e by (auto simp: hm_values_def)
  qed
next
  case (Cons k suf)
  note sp = items_split(1) [OF Cons.prems(1), of x k suf i]
  show ?case
  proof (cases "hm_get (childs t) k")
    case None
    then show ?thesis using sp Cons.prems by simp
  next
    case (Some c)
    then have "(k, c) \<in> set (childs t)"
      using hm.entries_get [OF tree_okD(1) [OF Cons.prems(1)]] by auto
    then have "tree_ok K (pre @ [k]) c" by (rule tree_okD(6) [OF Cons.prems(1)])
    then have "get_item_rec c suf = Some i \<longleftrightarrow> (x, i) \<in> tree_items c"
      using Cons.IH [of "pre @ [k]" c] Cons.prems by simp
    then show ?thesis using sp Cons.prems Some by simp
  qed
qed

text \<open>The children after a subtree was replaced or dropped.\<close>

lemma child_update:
  assumes ok: "tree_ok K pre t" and c': "tree_ok K (pre @ [k]) c'" "\<not> tree_is_empty c'"
    and ws: "hm_wf ws" "set ws = tree_items c' \<union> (\<Union>(j, d) \<in> {e \<in> set (childs t). fst e \<noteq> k}. tree_items d)"
  shows "tree_ok K pre (ItemTree (hm_insert k c' (childs t)) (members t) ws)"
    and "tree_items (ItemTree (hm_insert k c' (childs t)) (members t) ws) = set (members t) \<union> set ws"
proof -
  note wf = tree_okD(1) [OF ok]
  have un: "(\<Union>(j, d) \<in> set (hm_insert k c' (childs t)). tree_items d) = set ws"
    unfolding hm.entries_insert [OF wf] ws(2) by auto
  show "tree_items (ItemTree (hm_insert k c' (childs t)) (members t) ws) = set (members t) \<union> set ws"
    by (simp add: un)
  have kids: "\<forall>(j, d) \<in> set (hm_insert k c' (childs t)). tree_ok K (pre @ [j]) d \<and> \<not> tree_is_empty d"
    using c' tree_okD(6,7) [OF ok] by (auto simp: hm.entries_insert [OF wf])
  show "tree_ok K pre (ItemTree (hm_insert k c' (childs t)) (members t) ws)"
    using kids ws(1) tree_okD(2,5) [OF ok] by (auto simp only: tree_ok.simps un hm.wf_insert [OF wf])
qed

lemma child_drop:
  assumes ok: "tree_ok K pre t"
    and ws: "hm_wf ws" "set ws = (\<Union>(j, d) \<in> {e \<in> set (childs t). fst e \<noteq> k}. tree_items d)"
  shows "tree_ok K pre (ItemTree (hm_remove k (childs t)) (members t) ws)"
    and "tree_items (ItemTree (hm_remove k (childs t)) (members t) ws) = set (members t) \<union> set ws"
proof -
  note wf = tree_okD(1) [OF ok]
  have un: "(\<Union>(j, d) \<in> set (hm_remove k (childs t)). tree_items d) = set ws"
    unfolding hm.entries_remove [OF wf] ws(2) by auto
  show "tree_items (ItemTree (hm_remove k (childs t)) (members t) ws) = set (members t) \<union> set ws"
    by (simp add: un)
  have kids: "\<forall>(j, d) \<in> set (hm_remove k (childs t)). tree_ok K (pre @ [j]) d \<and> \<not> tree_is_empty d"
    using tree_okD(6,7) [OF ok] by (auto simp: hm.entries_remove [OF wf])
  show "tree_ok K pre (ItemTree (hm_remove k (childs t)) (members t) ws)"
    using kids ws(1) tree_okD(2,5) [OF ok] by (auto simp only: tree_ok.simps un hm.wf_remove [OF wf])
qed

text \<open>The items of the wildcard index, split at the child on a path.\<close>

lemma wildcard_split:
  assumes ok: "tree_ok K pre t"
  shows "set (members_wildcard t) =
    (case hm_get (childs t) k of Some c \<Rightarrow> tree_items c | None \<Rightarrow> {}) \<union>
    (\<Union>(j, d) \<in> {e \<in> set (childs t). fst e \<noteq> k}. tree_items d)"
proof -
  have "set (childs t) =
    (case hm_get (childs t) k of Some c \<Rightarrow> {(k, c)} | None \<Rightarrow> {}) \<union> {e \<in> set (childs t). fst e \<noteq> k}"
  proof (cases "hm_get (childs t) k")
    case None
    then have "k \<notin> fst ` set (childs t)" using hm.get_none_iff [OF tree_okD(1) [OF ok]] by simp
    then show ?thesis using None by force
  next
    case (Some c)
    then show ?thesis
      using hm.entries_get [OF tree_okD(1) [OF ok], of k] by auto
  qed
  then have "(\<Union>(j, d) \<in> set (childs t). tree_items d) =
    (\<Union>(j, d) \<in> (case hm_get (childs t) k of Some c \<Rightarrow> {(k, c)} | None \<Rightarrow> {}) \<union>
       {e \<in> set (childs t). fst e \<noteq> k}. tree_items d)" by simp
  then show ?thesis
    by (auto simp: tree_okD(4) [OF ok] split: option.splits)
qed

lemma other_children_oid:
  assumes ok: "tree_ok K pre t" and ch: "oid_chunks x = pre @ k # suf"
    and "e \<in> (\<Union>(j, d) \<in> {e \<in> set (childs t). fst e \<noteq> k}. tree_items d)"
  shows "fst e \<noteq> x"
proof -
  obtain j d where jd: "(j, d) \<in> set (childs t)" "j \<noteq> k" "e \<in> tree_items d"
    using assms(3) by auto
  obtain y i where e: "e = (y, i)" by (cases e)
  have "\<exists>s. oid_chunks y = pre @ j # s"
    using child_items_oid [OF ok jd(1), of y i] jd(3) e by simp
  then show ?thesis using ch jd(2) e by auto
qed

lemma members_oid:
  assumes ok: "tree_ok K pre t" and ch: "oid_chunks x = pre @ k # suf" and "e \<in> set (members t)"
  shows "fst e \<noteq> x"
  using tree_okD(5) [OF ok, of "fst e" "snd e"] assms by auto

lemma contains_items:
  assumes "tree_ok K pre t"
  shows "oid_chunks x = pre \<Longrightarrow> hm_contains (members t) x \<longleftrightarrow> x \<in> fst ` tree_items t"
    and "oid_chunks x = pre @ k # suf \<Longrightarrow>
      hm_contains (members_wildcard t) x \<longleftrightarrow> x \<in> fst ` tree_items t"
  using items_here [OF assms] items_split(2) [OF assms] tree_okD(2,3) [OF assms]
  by (auto simp: hm_contains_iff image_iff)

text \<open>
  The child on the path of an identifier (an empty tree if there is none) and the items of
  the other children.
\<close>

definition child_at :: "item_tree \<Rightarrow> string \<Rightarrow> item_tree" where
  "child_at t k = unwrap_or tree_default (hm_get (childs t) k)"

definition others_at :: "item_tree \<Rightarrow> string \<Rightarrow> (oid \<times> item) set" where
  "others_at t k = (\<Union>(j, d) \<in> {e \<in> set (childs t). fst e \<noteq> k}. tree_items d)"

lemma path_split:
  assumes ok: "tree_ok K pre t"
  shows "tree_ok K (pre @ [k]) (child_at t k)"
    and "set (members_wildcard t) = tree_items (child_at t k) \<union> others_at t k"
    and "tree_items t = set (members t) \<union> tree_items (child_at t k) \<union> others_at t k"
proof -
  show "tree_ok K (pre @ [k]) (child_at t k)"
    using hm.entries_get [OF tree_okD(1) [OF ok], of k] tree_okD(6) [OF ok]
    by (cases "hm_get (childs t) k") (auto simp: child_at_def)
  show w: "set (members_wildcard t) = tree_items (child_at t k) \<union> others_at t k"
    using wildcard_split [OF ok, of k]
    by (cases "hm_get (childs t) k") (auto simp: child_at_def others_at_def)
  then show "tree_items t = set (members t) \<union> tree_items (child_at t k) \<union> others_at t k"
    using tree_okD(4) [OF ok] by (auto simp: tree_items_simp [of t])
qed

lemma off_path_oid:
  assumes "tree_ok K pre t" and "oid_chunks x = pre @ k # suf"
    and "e \<in> set (members t) \<or> e \<in> others_at t k"
  shows "fst e \<noteq> x"
  using assms(3) members_oid [OF assms(1,2), of e] other_children_oid [OF assms(1,2), of e]
  unfolding others_at_def by blast

lemma children_oid_here:
  assumes ok: "tree_ok K pre t" and ch: "oid_chunks x = pre"
    and "e \<in> (\<Union>(k, c) \<in> set (childs t). tree_items c)"
  shows "fst e \<noteq> x"
proof -
  obtain k c where kc: "(k, c) \<in> set (childs t)" "e \<in> tree_items c" using assms(3) by auto
  have "\<exists>s. oid_chunks (fst e) = pre @ k # s"
    using child_items_oid [OF ok kc(1), of "fst e" "snd e"] kc(2) by simp
  then show ?thesis using ch by auto
qed

text \<open>Appending a registered identifier without \<open>replace\<close> is refused and changes nothing.\<close>

lemma append_item_rec_duplicate:
  assumes "tree_ok K pre t" and "oid_chunks (it_oid i) = pre @ suf"
    and "it_oid i \<in> fst ` tree_items t"
  shows "append_item_rec t suf i False = (Inl EDuplicate, t)"
  using assms contains_items [OF assms(1), of "it_oid i"] by (cases suf) auto

lemma append_item_rec_here:
  assumes ok: "tree_ok K pre t" and x: "oid_kind (it_oid i) = K" "oid_chunks (it_oid i) = pre"
  shows "tree_ok K pre (ItemTree (childs t) (hm_insert (it_oid i) i (members t)) (members_wildcard t))"
    and "tree_items (ItemTree (childs t) (hm_insert (it_oid i) i (members t)) (members_wildcard t)) =
      insert (it_oid i, i) {e \<in> tree_items t. fst e \<noteq> it_oid i}"
    and "\<not> tree_is_empty (ItemTree (childs t) (hm_insert (it_oid i) i (members t)) (members_wildcard t))"
proof -
  note wf = tree_okD(2) [OF ok]
  show "tree_ok K pre (ItemTree (childs t) (hm_insert (it_oid i) i (members t)) (members_wildcard t))"
    using x tree_okD [OF ok] hm.wf_insert [OF wf] by (auto simp: hm.entries_insert [OF wf])
  show "tree_items (ItemTree (childs t) (hm_insert (it_oid i) i (members t)) (members_wildcard t)) =
      insert (it_oid i, i) {e \<in> tree_items t. fst e \<noteq> it_oid i}"
    using children_oid_here [OF ok x(2)] by (auto simp: tree_items_simp [of t] hm.entries_insert [OF wf])
  have "hm_insert (it_oid i) i (members t) \<noteq> []"
    using hm.entries_insert [OF wf, of "it_oid i" i] by auto
  then show "\<not> tree_is_empty (ItemTree (childs t) (hm_insert (it_oid i) i (members t)) (members_wildcard t))"
    by (simp add: tree_is_empty_def)
qed

lemma append_item_rec_ok:
  assumes "tree_ok K pre t" and "oid_kind (it_oid i) = K" and "oid_chunks (it_oid i) = pre @ suf"
    and "replace \<or> it_oid i \<notin> fst ` tree_items t"
  shows "\<exists>t'. append_item_rec t suf i replace = (Inr (), t') \<and> tree_ok K pre t' \<and>
    tree_items t' = insert (it_oid i, i) {e \<in> tree_items t. fst e \<noteq> it_oid i} \<and> \<not> tree_is_empty t'"
  using assms
proof (induction suf arbitrary: pre t)
  case Nil
  then have ch: "oid_chunks (it_oid i) = pre" by simp
  then show ?case
    using append_item_rec_here [OF Nil.prems(1,2) ch] contains_items(1) [OF Nil.prems(1) ch] Nil.prems(4)
    by auto
next
  case (Cons k suf)
  let ?x = "it_oid i"
  note ok = Cons.prems(1)
  note wfw = tree_okD(3) [OF ok]
  note ps = path_split [OF ok, of k]
  note off = off_path_oid [OF ok Cons.prems(3)]
  define ws where "ws = hm_insert ?x i (members_wildcard t)"
  have dup: "hm_contains (members_wildcard t) ?x \<longleftrightarrow> ?x \<in> fst ` tree_items t"
    using contains_items(2) [OF ok Cons.prems(3)] by simp
  have "?x \<in> fst ` tree_items (child_at t k) \<longleftrightarrow> ?x \<in> fst ` tree_items t"
    unfolding ps(3) using off by force
  then obtain c' where c': "append_item_rec (child_at t k) suf i replace = (Inr (), c')"
      "tree_ok K (pre @ [k]) c'" "\<not> tree_is_empty c'"
      "tree_items c' = insert (?x, i) {e \<in> tree_items (child_at t k). fst e \<noteq> ?x}"
    using Cons.IH [OF ps(1)] Cons.prems by auto
  let ?t' = "ItemTree (hm_insert k c' (childs t)) (members t) ws"
  have res: "append_item_rec t (k # suf) i replace = (Inr (), ?t')"
    using Cons.prems(4) dup c'(1)
    by (cases "hm_get (childs t) k") (auto simp: child_at_def ws_def Let_def)
  have wse: "set ws = tree_items c' \<union> others_at t k"
    using off by (auto simp: ws_def hm.entries_insert [OF wfw] ps(2) c'(4))
  have wsw: "hm_wf ws" by (simp add: ws_def hm.wf_insert [OF wfw])
  note cu = child_update [OF ok c'(2,3) wsw wse [unfolded others_at_def]]
  have "tree_items ?t' = insert (?x, i) {e \<in> tree_items t. fst e \<noteq> ?x}"
    unfolding cu(2) wse ps(3) c'(4) using off by auto
  moreover have "\<not> tree_is_empty ?t'"
    using hm.entries_insert [OF tree_okD(1) [OF ok], of k c'] by (auto simp: tree_is_empty_def)
  ultimately show ?case using res cu(1) by blast
qed

text \<open>Removing an identifier.\<close>

lemma remove_item_rec_here:
  assumes ok: "tree_ok K pre t" and x: "oid_kind x = K" "oid_chunks x = pre"
  shows "hm_get (members t) x = get_item_rec t []"
    and "tree_ok K pre (ItemTree (childs t) (hm_remove x (members t)) (members_wildcard t))"
    and "tree_items (ItemTree (childs t) (hm_remove x (members t)) (members_wildcard t)) =
      {e \<in> tree_items t. fst e \<noteq> x}"
proof -
  note wf = tree_okD(2) [OF ok]
  have "get_item_rec t [] = Some i \<longleftrightarrow> hm_get (members t) x = Some i" for i
    using get_item_rec_iff [OF ok x(1), of "[]" i] hm.entries_get [OF wf, of x i]
      items_here [OF ok x(2), of i] x(2) by simp
  then show "hm_get (members t) x = get_item_rec t []"
    by (metis option.exhaust)
  show "tree_ok K pre (ItemTree (childs t) (hm_remove x (members t)) (members_wildcard t))"
    using tree_okD [OF ok] hm.wf_remove [OF wf] by (auto simp: hm.entries_remove [OF wf])
  show "tree_items (ItemTree (childs t) (hm_remove x (members t)) (members_wildcard t)) =
      {e \<in> tree_items t. fst e \<noteq> x}"
    using children_oid_here [OF ok x(2)] by (auto simp: tree_items_simp [of t] hm.entries_remove [OF wf])
qed

lemma get_item_rec_wildcard:
  assumes ok: "tree_ok K pre t" and x: "oid_kind x = K" "oid_chunks x = pre @ k # suf"
  shows "get_item_rec t (k # suf) = hm_get (members_wildcard t) x"
proof -
  have "get_item_rec t (k # suf) = Some i \<longleftrightarrow> hm_get (members_wildcard t) x = Some i" for i
    using get_item_rec_iff [OF ok x] items_split(2) [OF ok x(2)]
      hm.entries_get [OF tree_okD(3) [OF ok]] by simp
  then show ?thesis by (metis option.exhaust)
qed

lemma remove_item_rec_ok:
  assumes "tree_ok K pre t" and "oid_kind x = K" and "oid_chunks x = pre @ suf"
  shows "\<exists>t'. remove_item_rec t suf x = (get_item_rec t suf, t') \<and> tree_ok K pre t' \<and>
    tree_items t' = {e \<in> tree_items t. fst e \<noteq> x}"
  using assms
proof (induction suf arbitrary: pre t)
  case Nil
  then have ch: "oid_chunks x = pre" by simp
  then show ?case using remove_item_rec_here [OF Nil.prems(1,2) ch] by auto
next
  case (Cons k suf)
  note ok = Cons.prems(1)
  note wfw = tree_okD(3) [OF ok]
  note ps = path_split [OF ok, of k]
  note off = off_path_oid [OF ok Cons.prems(3)]
  note get = get_item_rec_wildcard [OF ok Cons.prems(2,3)]
  show ?case
  proof (cases "hm_get (members_wildcard t) x")
    case None
    then have "x \<notin> fst ` tree_items t"
      using contains_items(2) [OF ok Cons.prems(3)] by (simp add: hm_contains_def)
    then have "{e \<in> tree_items t. fst e \<noteq> x} = tree_items t" by force
    then show ?thesis using None get ok by simp
  next
    case (Some i)
    then obtain c where c: "hm_get (childs t) k = Some c" "get_item_rec c suf = Some i"
      using get by (auto split: option.splits)
    then have cat: "child_at t k = c" by (simp add: child_at_def)
    obtain c' where c': "remove_item_rec c suf x = (Some i, c')" "tree_ok K (pre @ [k]) c'"
        "tree_items c' = {e \<in> tree_items c. fst e \<noteq> x}"
      using Cons.IH [OF ps(1)] Cons.prems cat c(2) by auto
    define ws where "ws = hm_remove x (members_wildcard t)"
    have wse: "set ws = tree_items c' \<union> others_at t k"
      using off by (auto simp: ws_def hm.entries_remove [OF wfw] ps(2) cat c'(3))
    have wsw: "hm_wf ws" by (simp add: ws_def hm.wf_remove [OF wfw])
    have items: "{e \<in> tree_items t. fst e \<noteq> x} = set (members t) \<union> set ws"
      unfolding wse ps(3) cat c'(3) using off by auto
    show ?thesis
    proof (cases "tree_is_empty c'")
      case True
      then have "tree_items c' = {}"
        by (simp add: tree_is_empty_def tree_items_simp [of c'])
      then have wse': "set ws = (\<Union>(j, d) \<in> {e \<in> set (childs t). fst e \<noteq> k}. tree_items d)"
        using wse by (simp add: others_at_def)
      show ?thesis
        using child_drop [OF ok wsw wse'] items Some get c c'(1) True
        by (simp add: ws_def [symmetric] del: tree_ok.simps tree_items.simps)
    next
      case False
      show ?thesis
        using child_update [OF ok c'(2) False wsw wse [unfolded others_at_def]] items Some get c c'(1) False
        by (simp add: ws_def [symmetric] del: tree_ok.simps tree_items.simps)
    qed
  qed
qed

subsection \<open>Masks\<close>

text \<open>
  Whatever the form of a chunk other than \<open>#\<close>, the search goes on in the children whose name
  matches it.
\<close>

lemma mask_rec_step:
  assumes "hm_wf (childs t)" and "chunk \<noteq> ''#''"
  shows "get_item_by_mask_rec L flt (chunk # it) t =
    concat (map (\<lambda>(k, c). get_item_by_mask_rec L flt it c)
      (filter (\<lambda>(k, c). chunk_matches L chunk k) (childs t)))"
proof -
  have re: "concat (map (\<lambda>(k, c). if P k then f c else []) cs) =
    concat (map (\<lambda>(k, c). f c) (filter (\<lambda>(k, c). P k) cs))"
    for P :: "string \<Rightarrow> bool" and f :: "item_tree \<Rightarrow> item list" and cs
    by (induction cs) auto
  show ?thesis
    using assms(2) hm_filter_key [OF assms(1), of chunk]
    by (auto simp: chunk_matches_def re split: option.splits)
qed

lemma wildcard_items:
  assumes ok: "tree_ok K pre t"
  shows "i \<in> set (hm_values (members_wildcard t)) \<longleftrightarrow>
    (\<exists>x suf. (x, i) \<in> tree_items t \<and> oid_chunks x = pre @ suf \<and> suf \<noteq> [])"
proof
  assume "i \<in> set (hm_values (members_wildcard t))"
  then obtain x k c where "(k, c) \<in> set (childs t)" "(x, i) \<in> tree_items c"
    using tree_okD(4) [OF ok] by (auto simp: set_hm_values)
  moreover from this obtain suf where "oid_chunks x = pre @ k # suf"
    using child_items_oid [OF ok] by blast
  ultimately show "\<exists>x suf. (x, i) \<in> tree_items t \<and> oid_chunks x = pre @ suf \<and> suf \<noteq> []"
    by (force simp: tree_items_simp [of t])
next
  assume "\<exists>x suf. (x, i) \<in> tree_items t \<and> oid_chunks x = pre @ suf \<and> suf \<noteq> []"
  then obtain x k suf where "(x, i) \<in> tree_items t" "oid_chunks x = pre @ k # suf"
    by (metis list.exhaust)
  then show "i \<in> set (hm_values (members_wildcard t))"
    using items_split(2) [OF ok] by (force simp: set_hm_values)
qed

lemma child_step:
  assumes ok: "tree_ok K pre t"
  shows "(\<exists>k c. (k, c) \<in> set (childs t) \<and> P k \<and> (\<exists>x suf. (x, i) \<in> tree_items c \<and> oid_chunks x = pre @ k # suf \<and> Q suf)) \<longleftrightarrow>
    (\<exists>x k suf. (x, i) \<in> tree_items t \<and> oid_chunks x = pre @ k # suf \<and> P k \<and> Q suf)"
proof (intro iffI; elim exE conjE)
  fix k c x suf
  assume "(k, c) \<in> set (childs t)" "(x, i) \<in> tree_items c" "oid_chunks x = pre @ k # suf" "P k" "Q suf"
  then show "\<exists>x k suf. (x, i) \<in> tree_items t \<and> oid_chunks x = pre @ k # suf \<and> P k \<and> Q suf"
    by (force simp: tree_items_simp [of t])
next
  fix x k suf
  assume a: "(x, i) \<in> tree_items t" "oid_chunks x = pre @ k # suf" "P k" "Q suf"
  then obtain c where "hm_get (childs t) k = Some c" "(x, i) \<in> tree_items c"
    using items_split(1) [OF ok a(2), of i] by (auto split: option.splits)
  then show "\<exists>k c. (k, c) \<in> set (childs t) \<and> P k \<and>
      (\<exists>x suf. (x, i) \<in> tree_items c \<and> oid_chunks x = pre @ k # suf \<and> Q suf)"
    using a hm.entries_get [OF tree_okD(1) [OF ok]] by blast
qed

lemma mask_rec_items:
  assumes "tree_ok K pre t"
  shows "set (get_item_by_mask_rec L flt ms t) =
    {i. flt i \<and> (\<exists>x suf. (x, i) \<in> tree_items t \<and> oid_chunks x = pre @ suf \<and> path_matches L ms suf)}"
  using assms
proof (induction ms arbitrary: pre t)
  case Nil
  have "(x, i) \<in> set (members t) \<longleftrightarrow> (x, i) \<in> tree_items t \<and> oid_chunks x = pre" for x i
    using items_here [OF Nil.prems, of x i] tree_okD(5) [OF Nil.prems, of x i] by blast
  then have "i \<in> set (hm_values (members t)) \<longleftrightarrow> (\<exists>x. (x, i) \<in> tree_items t \<and> oid_chunks x = pre)" for i
    by (simp add: in_hm_values)
  then show ?case by auto
next
  case (Cons m ms)
  note ok = Cons.prems
  show ?case
  proof (cases "m = ''#''")
    case True
    have "i \<in> set (hm_values (members_wildcard t)) \<longleftrightarrow>
      (\<exists>x suf. (x, i) \<in> tree_items t \<and> oid_chunks x = pre @ suf \<and> suf \<noteq> [])" for i
      by (rule wildcard_items [OF ok])
    then show ?thesis using True by auto
  next
    case False
    let ?f = "get_item_by_mask_rec L flt"
    have IH: "i \<in> set (?f ms c) \<longleftrightarrow> flt i \<and>
      (\<exists>x suf. (x, i) \<in> tree_items c \<and> oid_chunks x = pre @ k # suf \<and> path_matches L ms suf)"
      if "(k, c) \<in> set (childs t)" for i k c
      using Cons.IH [OF tree_okD(6) [OF ok that]] by simp
    have "i \<in> set (?f (m # ms) t) \<longleftrightarrow>
      (\<exists>k c. (k, c) \<in> set (childs t) \<and> chunk_matches L m k \<and> i \<in> set (?f ms c))" for i
      unfolding mask_rec_step [OF tree_okD(1) [OF ok] False] by auto
    then have r: "i \<in> set (?f (m # ms) t) \<longleftrightarrow> flt i \<and>
      (\<exists>k c. (k, c) \<in> set (childs t) \<and> chunk_matches L m k \<and>
        (\<exists>x suf. (x, i) \<in> tree_items c \<and> oid_chunks x = pre @ k # suf \<and> path_matches L ms suf))" for i
      using IH by (metis (no_types, lifting))
    have pm: "path_matches L (m # ms) suf \<longleftrightarrow>
      (\<exists>k rest. suf = k # rest \<and> chunk_matches L m k \<and> path_matches L ms rest)" for suf
      using False by (cases suf) auto
    show ?thesis
      unfolding set_eq_iff r child_step [OF ok, of "chunk_matches L m" _ "path_matches L ms"] pm mem_Collect_eq
      by auto
  qed
qed

text \<open>A search returns no item twice.\<close>

lemma mask_rec_sub: "tree_ok K pre t \<Longrightarrow> i \<in> set (get_item_by_mask_rec L flt ms t) \<Longrightarrow> (it_oid i, i) \<in> tree_items t"
  using mask_rec_items [of K pre t L flt ms] tree_items_oid [of K pre t _ i] by auto

lemma distinct_concat_childs:
  assumes "hm_wf cs"
    and "\<And>k c. (k, c) \<in> set cs \<Longrightarrow> distinct (map it_oid (f c))"
    and "\<And>k c j d x. (k, c) \<in> set cs \<Longrightarrow> (j, d) \<in> set cs \<Longrightarrow> x \<in> it_oid ` set (f c) \<Longrightarrow>
      x \<in> it_oid ` set (f d) \<Longrightarrow> j = k"
  shows "distinct (map it_oid (concat (map (\<lambda>(k, c). f c) cs)))"
  using assms
proof (induction cs)
  case (Cons e cs)
  obtain k c where e: "e = (k, c)" by (cases e)
  have "distinct (map it_oid (concat (map (\<lambda>(k, c). f c) cs)))"
  proof (rule Cons.IH)
    show "hm_wf cs" using Cons.prems(1) by (simp add: hm_wf_def)
    show "distinct (map it_oid (f c'))" if "(k', c') \<in> set cs" for k' c'
      using Cons.prems(2) that by auto
    show "j = k'" if "(k', c') \<in> set cs" "(j, d) \<in> set cs" "x \<in> it_oid ` set (f c')" "x \<in> it_oid ` set (f d)"
      for k' c' j d x
      using Cons.prems(3) [of k' c' j d x] that by simp
  qed
  moreover have "x \<notin> it_oid ` set (f d)" if "(j, d) \<in> set cs" "x \<in> it_oid ` set (f c)" for j d x
  proof -
    have "j \<noteq> k" using Cons.prems(1) that(1) e by (auto simp: hm_wf_def image_iff)
    then show ?thesis using Cons.prems(3) [of k c j d x] that e by auto
  qed
  then have "it_oid ` set (f c) \<inter> it_oid ` set (concat (map (\<lambda>(k, c). f c) cs)) = {}"
    by fastforce
  moreover have "distinct (map it_oid (f c))" using Cons.prems(2) [of k c] e by simp
  ultimately show ?case using e by (simp del: set_concat)
qed simp

lemma mask_rec_distinct:
  assumes "tree_ok K pre t"
  shows "distinct (map it_oid (get_item_by_mask_rec L flt ms t))"
proof -
  have vals: "distinct (map it_oid (filter flt (hm_values m)))"
    if "hm_wf m" "\<And>x i. (x, i) \<in> set m \<Longrightarrow> it_oid i = x" for m :: "(oid, item) hmap"
  proof -
    have "map it_oid (hm_values m) = map fst m" using that(2) by (auto simp: hm_values_def)
    then show ?thesis using that(1) by (simp add: hm_wf_def distinct_map_filter)
  qed
  show ?thesis using assms
  proof (induction ms arbitrary: pre t)
    case Nil
    then show ?case using tree_okD(5) [OF Nil.prems] by (simp add: vals tree_okD(2) [OF Nil.prems])
  next
    case (Cons m ms)
    note ok = Cons.prems
    show ?case
    proof (cases "m = ''#''")
      case True
      have "it_oid i = x" if "(x, i) \<in> set (members_wildcard t)" for x i
        using that tree_okD(4) [OF ok] child_items_oid [OF ok] by auto
      then show ?thesis using True by (simp add: vals tree_okD(3) [OF ok])
    next
      case False
      let ?cs = "filter (\<lambda>(k, c). chunk_matches L m k) (childs t)"
      have sep: "j = k" if "(k, c) \<in> set (childs t)" "(j, d) \<in> set (childs t)"
        "(x, a) \<in> tree_items c" "(x, b) \<in> tree_items d" for j k c d x a b
        using child_items_oid [OF ok that(1,3)] child_items_oid [OF ok that(2,4)] by auto
      have "distinct (map it_oid (concat (map (\<lambda>(k, c). get_item_by_mask_rec L flt ms c) ?cs)))"
      proof (rule distinct_concat_childs)
        show "hm_wf ?cs" using tree_okD(1) [OF ok] by (simp add: hm_wf_def distinct_map_filter)
        show "distinct (map it_oid (get_item_by_mask_rec L flt ms c))" if "(k, c) \<in> set ?cs" for k c
          using Cons.IH tree_okD(6) [OF ok] that by auto
        show "j = k" if "(k, c) \<in> set ?cs" "(j, d) \<in> set ?cs"
          "x \<in> it_oid ` set (get_item_by_mask_rec L flt ms c)"
          "x \<in> it_oid ` set (get_item_by_mask_rec L flt ms d)" for k c j d x
        proof -
          have kc: "(k, c) \<in> set (childs t)" and jd: "(j, d) \<in> set (childs t)" using that by auto
          show ?thesis
            using that(3,4) sep [OF kc jd, of x] mask_rec_sub [OF tree_okD(6) [OF ok kc]]
              mask_rec_sub [OF tree_okD(6) [OF ok jd]] by force
        qed
      qed
      then show ?thesis using mask_rec_step [OF tree_okD(1) [OF ok] False] by simp
    qed
  qed
qed

end
