(* ===== verification/Item_Map.thy ===== *)
theory Item_Map
  imports Item_Tree
begin

text \<open>
  The four trees of the inventory (\<open>ItemMap\<close> of \<open>eva/src/items.rs\<close>), one per item kind, and the
  item filter (\<open>Filter\<close>, \<open>NodeFilter\<close>). The map is shown to implement a finite map from
  identifiers to items (the locale \<open>item_store\<close>); selection by mask is shown equivalent to
  matching every registered identifier against the mask.
\<close>

subsection \<open>Filters\<close>

datatype node_filter = NF_Local | NF_Remote string | NF_RemoteAny

text \<open>A mask list is matched by the library; a compiled regular expression is its matcher.\<close>

record item_filter =
  fl_include :: "oid_mask list option"
  fl_exclude :: "oid_mask list option"
  fl_node :: "node_filter option"
  fl_pattern :: "(string \<Rightarrow> bool) option"

definition filter_default :: item_filter where
  "filter_default = \<lparr>fl_include = None, fl_exclude = None, fl_node = None, fl_pattern = None\<rparr>"

definition filter_include :: "oid_mask list \<Rightarrow> item_filter \<Rightarrow> item_filter" where
  "filter_include ml f = f\<lparr>fl_include := Some ml\<rparr>"

definition filter_exclude :: "oid_mask list \<Rightarrow> item_filter \<Rightarrow> item_filter" where
  "filter_exclude ml f = f\<lparr>fl_exclude := Some ml\<rparr>"

definition filter_node :: "node_filter \<Rightarrow> item_filter \<Rightarrow> item_filter" where
  "filter_node sid f = f\<lparr>fl_node := Some sid\<rparr>"

definition filter_set_pattern :: "(string \<Rightarrow> bool) \<Rightarrow> item_filter \<Rightarrow> item_filter" where
  "filter_set_pattern p f = f\<lparr>fl_pattern := Some p\<rparr>"

definition node_filter_passes :: "node_filter \<Rightarrow> item \<Rightarrow> bool" where
  "node_filter_passes nf i =
     (case nf of
        NF_Local \<Rightarrow> it_source i = None
      | NF_RemoteAny \<Rightarrow> it_source i \<noteq> None
      | NF_Remote sid \<Rightarrow>
          (case it_source i of
             Some src \<Rightarrow> \<not> (sid \<noteq> ''#'' \<and> sid \<noteq> ''*'' \<and> src_node src \<noteq> sid)
           | None \<Rightarrow> False))"

definition filter_matches :: "eva_lib \<Rightarrow> item_filter \<Rightarrow> item \<Rightarrow> bool" where
  "filter_matches L f i =
     (if (case fl_node f of Some nf \<Rightarrow> \<not> node_filter_passes nf i | None \<Rightarrow> False) then False
      else if (case fl_pattern f of Some p \<Rightarrow> \<not> p (oid_as_str (it_oid i)) | None \<Rightarrow> False) then False
      else if (case fl_include f of Some ml \<Rightarrow> \<not> lib_masks_match L ml (it_oid i) | None \<Rightarrow> False) then False
      else (case fl_exclude f of Some ml \<Rightarrow> \<not> lib_masks_match L ml (it_oid i) | None \<Rightarrow> True))"

subsection \<open>The map\<close>

record item_map =
  im_unit :: item_tree
  im_sensor :: item_tree
  im_lvar :: item_tree
  im_lmacro :: item_tree

definition im_default :: item_map where
  "im_default = \<lparr>im_unit = tree_default, im_sensor = tree_default, im_lvar = tree_default,
     im_lmacro = tree_default\<rparr>"

definition get_tree :: "item_map \<Rightarrow> item_kind \<Rightarrow> item_tree" where
  "get_tree m tp =
     (case tp of KUnit \<Rightarrow> im_unit m | KSensor \<Rightarrow> im_sensor m | KLvar \<Rightarrow> im_lvar m
      | KLmacro \<Rightarrow> im_lmacro m)"

text \<open>Writing through the reference of \<open>get_tree_mut\<close>.\<close>

definition set_tree :: "item_map \<Rightarrow> item_kind \<Rightarrow> item_tree \<Rightarrow> item_map" where
  "set_tree m tp t =
     (case tp of KUnit \<Rightarrow> m\<lparr>im_unit := t\<rparr> | KSensor \<Rightarrow> m\<lparr>im_sensor := t\<rparr>
      | KLvar \<Rightarrow> m\<lparr>im_lvar := t\<rparr> | KLmacro \<Rightarrow> m\<lparr>im_lmacro := t\<rparr>)"

definition im_append :: "item \<Rightarrow> bool \<Rightarrow> item_map \<Rightarrow> unit result \<times> item_map" where
  "im_append i replace m =
     (let tp = oid_kind (it_oid i);
          (r, t) = append_item_rec (get_tree m tp) (oid_chunks (it_oid i)) i replace
      in (r, set_tree m tp t))"

definition im_get :: "item_map \<Rightarrow> oid \<Rightarrow> item option" where
  "im_get m x = get_item_rec (get_tree m (oid_kind x)) (oid_chunks x)"

definition im_remove :: "oid \<Rightarrow> item_map \<Rightarrow> item option \<times> item_map" where
  "im_remove x m =
     (let (r, t) = remove_item_rec (get_tree m (oid_kind x)) (oid_chunks x) x
      in (r, set_tree m (oid_kind x) t))"

definition im_get_by_mask :: "eva_lib \<Rightarrow> item_map \<Rightarrow> oid_mask \<Rightarrow> item_filter \<Rightarrow> bool \<Rightarrow> item list" where
  "im_get_by_mask L m msk f include_stateless =
     (let flt = filter_matches L f;
          pick = (\<lambda>t. case mask_chunks msk of
                       Some chunks \<Rightarrow> get_item_by_mask_rec L flt chunks t
                     | None \<Rightarrow> filter flt (hm_values (members_wildcard t)))
      in case mask_kind msk of
           Some tp \<Rightarrow>
             if tp = KLmacro \<and> \<not> include_stateless then [] else pick (get_tree m tp)
         | None \<Rightarrow>
             pick (im_unit m) @ pick (im_sensor m) @ pick (im_lvar m) @
             (if include_stateless then pick (im_lmacro m) else []))"

subsection \<open>The contract of an item store\<close>

text \<open>
  What the inventory relies on: a store is a finite map from identifiers to items, an append
  without \<open>replace\<close> refuses a registered identifier and changes nothing, a removal returns
  the item it took out.
\<close>

definition store_entries :: "('m \<Rightarrow> oid \<Rightarrow> item option) \<Rightarrow> 'm \<Rightarrow> (oid \<times> item) set" where
  "store_entries get m = {(x, i). get m x = Some i}"

locale item_store =
  fixes get :: "'m \<Rightarrow> oid \<Rightarrow> item option"
    and append :: "item \<Rightarrow> bool \<Rightarrow> 'm \<Rightarrow> unit result \<times> 'm"
    and remove :: "oid \<Rightarrow> 'm \<Rightarrow> item option \<times> 'm"
    and ok :: "'m \<Rightarrow> bool"
  assumes get_oid: "ok m \<Longrightarrow> get m x = Some i \<Longrightarrow> it_oid i = x"
    and append_result: "ok m \<Longrightarrow>
      fst (append i replace m) = (if \<not> replace \<and> get m (it_oid i) \<noteq> None then Inl EDuplicate else Inr ())"
    and append_refused: "ok m \<Longrightarrow> fst (append i replace m) = Inl e \<Longrightarrow> snd (append i replace m) = m"
    and append_ok: "ok m \<Longrightarrow> ok (snd (append i replace m))"
    and append_get: "ok m \<Longrightarrow> fst (append i replace m) = Inr () \<Longrightarrow>
      get (snd (append i replace m)) x = (if x = it_oid i then Some i else get m x)"
    and remove_result: "ok m \<Longrightarrow> fst (remove x m) = get m x"
    and remove_ok: "ok m \<Longrightarrow> ok (snd (remove x m))"
    and remove_get: "ok m \<Longrightarrow> get (snd (remove x m)) y = (if y = x then None else get m y)"
begin

lemma append_entries:
  assumes "ok m" and "fst (append i replace m) = Inr ()"
  shows "store_entries get (snd (append i replace m)) = insert (it_oid i, i) {e \<in> store_entries get m. fst e \<noteq> it_oid i}"
  using assms by (auto simp: store_entries_def append_get split: if_splits)

lemma remove_entries:
  assumes "ok m"
  shows "store_entries get (snd (remove x m)) = {e \<in> store_entries get m. fst e \<noteq> x}"
  using assms by (auto simp: store_entries_def remove_get split: if_splits)

text \<open>A fresh item that is removed again leaves no trace.\<close>

lemma append_remove:
  assumes "ok m" and "get m (it_oid i) = None"
  shows "fst (append i replace m) = Inr ()"
    and "fst (remove (it_oid i) (snd (append i replace m))) = Some i"
    and "get (snd (remove (it_oid i) (snd (append i replace m)))) x = get m x"
proof -
  show r: "fst (append i replace m) = Inr ()" using assms by (simp add: append_result)
  show "fst (remove (it_oid i) (snd (append i replace m))) = Some i"
    using assms(1) r by (simp add: remove_result append_ok append_get)
  show "get (snd (remove (it_oid i) (snd (append i replace m)))) x = get m x"
    using assms r by (simp add: remove_get append_ok append_get)
qed

lemma append_commute:
  assumes "ok m" and "it_oid i \<noteq> it_oid j"
  shows "get (snd (append j True (snd (append i True m)))) x =
    get (snd (append i True (snd (append j True m)))) x"
  using assms by (auto simp: append_get append_ok append_result)

end

subsection \<open>The map is an item store\<close>

definition im_ok :: "item_map \<Rightarrow> bool" where
  "im_ok m \<longleftrightarrow> (\<forall>tp \<in> {KUnit, KSensor, KLvar, KLmacro}. tree_ok tp [] (get_tree m tp))"

lemma im_ok_iff: "im_ok m \<longleftrightarrow> (\<forall>tp. tree_ok tp [] (get_tree m tp))"
proof (intro iffI allI)
  fix tp
  assume "im_ok m"
  then show "tree_ok tp [] (get_tree m tp)" by (cases tp) (simp_all add: im_ok_def)
qed (simp add: im_ok_def)

lemma get_set_tree [simp]: "get_tree (set_tree m tp t) tp' = (if tp' = tp then t else get_tree m tp')"
  by (cases tp; cases tp') (simp_all add: get_tree_def set_tree_def)

lemma set_get_tree [simp]: "set_tree m tp (get_tree m tp) = m"
  by (cases tp) (simp_all add: get_tree_def set_tree_def)

lemma im_default_ok [simp]: "im_ok im_default"
  by (simp add: im_ok_def im_default_def get_tree_def)

lemma im_get_default [simp]: "im_get im_default x = None"
  by (cases "oid_chunks x"; cases "oid_kind x")
    (simp_all add: im_get_def im_default_def get_tree_def tree_default_def)

lemma im_get_iff:
  assumes "im_ok m"
  shows "im_get m x = Some i \<longleftrightarrow> (x, i) \<in> tree_items (get_tree m (oid_kind x))"
  using assms get_item_rec_iff [of "oid_kind x" "[]" "get_tree m (oid_kind x)" x "oid_chunks x" i]
  by (simp add: im_ok_iff im_get_def)

lemma im_get_none_iff:
  assumes "im_ok m"
  shows "im_get m x = None \<longleftrightarrow> x \<notin> fst ` tree_items (get_tree m (oid_kind x))"
  using im_get_iff [OF assms, of x] by (cases "im_get m x") force+

lemma im_append_cases:
  assumes ok: "im_ok m"
  obtains (refused) "\<not> replace" "im_get m (it_oid i) \<noteq> None" "im_append i replace m = (Inl EDuplicate, m)"
  | (appended) t where "replace \<or> im_get m (it_oid i) = None"
      "im_append i replace m = (Inr (), set_tree m (oid_kind (it_oid i)) t)"
      "tree_ok (oid_kind (it_oid i)) [] t"
      "tree_items t = insert (it_oid i, i)
        {e \<in> tree_items (get_tree m (oid_kind (it_oid i))). fst e \<noteq> it_oid i}"
proof -
  let ?K = "oid_kind (it_oid i)" and ?t = "get_tree m (oid_kind (it_oid i))"
  have tok: "tree_ok ?K [] ?t" using ok by (simp add: im_ok_iff)
  show thesis
  proof (cases "replace \<or> it_oid i \<notin> fst ` tree_items ?t")
    case True
    then show thesis
      using append_item_rec_ok [OF tok, of i "oid_chunks (it_oid i)" replace] appended
        im_get_none_iff [OF ok] by (auto simp: im_append_def)
  next
    case False
    then show thesis
      using append_item_rec_duplicate [OF tok, of i "oid_chunks (it_oid i)"] refused
        im_get_none_iff [OF ok] by (auto simp: im_append_def)
  qed
qed

lemma im_remove_tree:
  assumes "im_ok m"
  shows "\<exists>t. im_remove x m = (im_get m x, set_tree m (oid_kind x) t) \<and> tree_ok (oid_kind x) [] t \<and>
    tree_items t = {e \<in> tree_items (get_tree m (oid_kind x)). fst e \<noteq> x}"
  using remove_item_rec_ok [of "oid_kind x" "[]" "get_tree m (oid_kind x)" x "oid_chunks x"] assms
  by (auto simp: im_ok_iff im_remove_def im_get_def)

lemma im_ok_set_tree: "im_ok m \<Longrightarrow> tree_ok tp [] t \<Longrightarrow> im_ok (set_tree m tp t)"
  by (simp add: im_ok_iff)

lemma option_eqI: "(\<And>v. a = Some v \<longleftrightarrow> b = Some v) \<Longrightarrow> a = b"
  by (metis option.exhaust)

interpretation ims: item_store im_get im_append im_remove im_ok
proof unfold_locales
  fix m :: item_map and x y :: oid and i :: item and replace :: bool and e :: error
  assume ok: "im_ok m"
  show "it_oid i = x" if "im_get m x = Some i"
    using that ok im_get_iff [OF ok] tree_items_oid im_ok_iff by blast
  show "fst (im_append i replace m) =
      (if \<not> replace \<and> im_get m (it_oid i) \<noteq> None then Inl EDuplicate else Inr ())"
    by (rule im_append_cases [OF ok, of replace i]) auto
  show "snd (im_append i replace m) = m" if "fst (im_append i replace m) = Inl e"
    using that by (auto intro: im_append_cases [OF ok, of replace i])
  show ok': "im_ok (snd (im_append i replace m))"
    by (rule im_append_cases [OF ok, of replace i]) (simp_all add: ok im_ok_set_tree)
  show "im_get (snd (im_append i replace m)) x = (if x = it_oid i then Some i else im_get m x)"
    if r: "fst (im_append i replace m) = Inr ()"
  proof (rule option_eqI)
    fix v
    show "im_get (snd (im_append i replace m)) x = Some v \<longleftrightarrow>
        (if x = it_oid i then Some i else im_get m x) = Some v"
      using r by (rule_tac im_append_cases [OF ok, of replace i])
        (auto simp: im_get_iff [OF ok] im_get_iff im_ok_set_tree [OF ok])
  qed
  obtain t where t: "im_remove x m = (im_get m x, set_tree m (oid_kind x) t)" "tree_ok (oid_kind x) [] t"
      "tree_items t = {e \<in> tree_items (get_tree m (oid_kind x)). fst e \<noteq> x}"
    using im_remove_tree [OF ok] by blast
  show "fst (im_remove x m) = im_get m x" using t(1) by simp
  show "im_ok (snd (im_remove x m))" using t ok by (simp add: im_ok_set_tree)
  show "im_get (snd (im_remove x m)) y = (if y = x then None else im_get m y)"
  proof (rule option_eqI)
    fix v
    show "im_get (snd (im_remove x m)) y = Some v \<longleftrightarrow> (if y = x then None else im_get m y) = Some v"
      using t by (auto simp: im_get_iff [OF ok] im_get_iff im_ok_set_tree [OF ok])
  qed
qed

subsection \<open>Selection by mask\<close>

text \<open>The meaning of a mask, without the trees.\<close>

definition mask_matches :: "eva_lib \<Rightarrow> oid_mask \<Rightarrow> oid \<Rightarrow> bool" where
  "mask_matches L msk x \<longleftrightarrow>
     (case mask_kind msk of Some tp \<Rightarrow> oid_kind x = tp | None \<Rightarrow> True) \<and>
     (case mask_chunks msk of Some chunks \<Rightarrow> path_matches L chunks (oid_chunks x) | None \<Rightarrow> True)"

definition mask_pick :: "eva_lib \<Rightarrow> oid_mask \<Rightarrow> item_filter \<Rightarrow> item_tree \<Rightarrow> item list" where
  "mask_pick L msk f t =
     (case mask_chunks msk of
        Some chunks \<Rightarrow> get_item_by_mask_rec L (filter_matches L f) chunks t
      | None \<Rightarrow> filter (filter_matches L f) (hm_values (members_wildcard t)))"

text \<open>A mask without chunks selects like the mask \<open>#\<close>.\<close>

lemma mask_pick_rec:
  "mask_pick L msk f t = get_item_by_mask_rec L (filter_matches L f) (unwrap_or [''#''] (mask_chunks msk)) t"
  by (cases "mask_chunks msk") (simp_all add: mask_pick_def)

lemma mask_path:
  "path_matches L (unwrap_or [''#''] (mask_chunks msk)) (oid_chunks x) \<longleftrightarrow>
    (case mask_chunks msk of Some chunks \<Rightarrow> path_matches L chunks (oid_chunks x) | None \<Rightarrow> True)"
  by (cases "mask_chunks msk") simp_all

lemma mask_pick_items:
  assumes "im_ok m"
  shows "i \<in> set (mask_pick L msk f (get_tree m tp)) \<longleftrightarrow>
    filter_matches L f i \<and> im_get m (it_oid i) = Some i \<and> oid_kind (it_oid i) = tp \<and>
    (case mask_chunks msk of Some chunks \<Rightarrow> path_matches L chunks (oid_chunks (it_oid i)) | None \<Rightarrow> True)"
proof -
  have ok: "tree_ok tp [] (get_tree m tp)" using assms by (simp add: im_ok_iff)
  have "(x, i) \<in> tree_items (get_tree m tp) \<longleftrightarrow> x = it_oid i \<and> oid_kind x = tp \<and> im_get m x = Some i" for x
    using tree_items_oid [OF ok, of x i] im_get_iff [OF assms, of x i] by blast
  then show ?thesis
    unfolding mask_pick_rec mask_rec_items [OF ok] mask_path [symmetric] by auto
qed

lemma mask_pick_distinct: "im_ok m \<Longrightarrow> distinct (map it_oid (mask_pick L msk f (get_tree m tp)))"
  using mask_rec_distinct [of tp "[]" "get_tree m tp"] by (simp add: mask_pick_rec im_ok_iff)

lemma im_get_by_mask_pick:
  "im_get_by_mask L m msk f include_stateless =
    (case mask_kind msk of
       Some tp \<Rightarrow> if tp = KLmacro \<and> \<not> include_stateless then [] else mask_pick L msk f (get_tree m tp)
     | None \<Rightarrow>
         concat (map (\<lambda>tp. mask_pick L msk f (get_tree m tp))
           ([KUnit, KSensor, KLvar] @ (if include_stateless then [KLmacro] else []))))"
  by (auto simp: im_get_by_mask_def mask_pick_def [abs_def] get_tree_def Let_def split: option.split)

lemma pick_kinds_distinct:
  assumes "im_ok m" and "distinct tps"
  shows "distinct (map it_oid (concat (map (\<lambda>tp. mask_pick L msk f (get_tree m tp)) tps)))"
  using assms(2)
proof (induction tps)
  case (Cons tp tps)
  have "it_oid ` set (mask_pick L msk f (get_tree m tp)) \<inter>
      it_oid ` set (concat (map (\<lambda>tp. mask_pick L msk f (get_tree m tp)) tps)) = {}"
    using Cons.prems by (fastforce simp: mask_pick_items [OF assms(1)])
  then show ?case
    using Cons mask_pick_distinct [OF assms(1)] by (simp del: set_concat)
qed simp

lemma im_get_by_mask_set:
  assumes "im_ok m"
  shows "set (im_get_by_mask L m msk f include_stateless) =
      {i. im_get m (it_oid i) = Some i \<and> mask_matches L msk (it_oid i) \<and> filter_matches L f i \<and>
        (oid_kind (it_oid i) = KLmacro \<longrightarrow> include_stateless)} \<and>
    distinct (map it_oid (im_get_by_mask L m msk f include_stateless))"
proof (cases "mask_kind msk")
  case None
  define tps where "tps = [KUnit, KSensor, KLvar] @ (if include_stateless then [KLmacro] else [])"
  have "tp \<in> set tps \<longleftrightarrow> (tp = KLmacro \<longrightarrow> include_stateless)" for tp
    by (cases tp) (simp_all add: tps_def)
  moreover have "distinct tps" by (simp add: tps_def)
  moreover have "im_get_by_mask L m msk f include_stateless =
      concat (map (\<lambda>tp. mask_pick L msk f (get_tree m tp)) tps)"
    using None by (simp add: im_get_by_mask_pick tps_def)
  ultimately show ?thesis
    using None pick_kinds_distinct [OF assms, of tps]
    by (auto simp: mask_pick_items [OF assms] mask_matches_def simp del: distinct_concat)
next
  case (Some tp)
  then show ?thesis
    using mask_pick_distinct [OF assms]
    by (auto simp: im_get_by_mask_pick mask_pick_items [OF assms] mask_matches_def)
qed

lemma mask_selects:
  assumes "im_ok m"
  shows "i \<in> set (im_get_by_mask L m msk f include_stateless) \<longleftrightarrow>
    im_get m (it_oid i) = Some i \<and> mask_matches L msk (it_oid i) \<and> filter_matches L f i \<and>
    (oid_kind (it_oid i) = KLmacro \<longrightarrow> include_stateless)"
  using im_get_by_mask_set [OF assms, of L msk f include_stateless] by simp

text \<open>
  C15: selection by a mask returns exactly the registered items whose identifier matches the
  mask and that pass the filter (logic macros only on request), none of them twice, although
  the code walks the trees instead of matching every identifier.
\<close>

theorem im_get_by_mask_correct:
  assumes "im_ok m"
  shows "set (im_get_by_mask L m msk f include_stateless) =
      {i. im_get m (it_oid i) = Some i \<and> mask_matches L msk (it_oid i) \<and> filter_matches L f i \<and>
        (oid_kind (it_oid i) = KLmacro \<longrightarrow> include_stateless)} \<and>
    distinct (map it_oid (im_get_by_mask L m msk f include_stateless))"
  by (rule im_get_by_mask_set [OF assms])

definition wit_item :: "item_kind \<Rightarrow> string \<Rightarrow> nat \<Rightarrow> item" where
  "wit_item tp p n =
     \<lparr>it_oid = OID tp p, it_meta = None, it_source = None, it_logic = None, it_action = None, it_cell = n\<rparr>"

definition wit_map :: item_map where
  "wit_map = snd (im_append (wit_item KUnit ''a/b'' 1) False
     (snd (im_append (wit_item KSensor ''a/c'' 0) False im_default)))"

lemma wit_map_ok: "im_ok wit_map"
  by (simp add: wit_map_def ims.append_ok)

theorem im_get_by_mask_witness:
  "{i. im_get wit_map (it_oid i) = Some i \<and>
       mask_matches std_lib \<lparr>mask_kind = None, mask_chunks = Some [''a'', ''+'']\<rparr> (it_oid i) \<and>
       filter_matches std_lib (filter_node NF_Local filter_default) i \<and>
       (oid_kind (it_oid i) = KLmacro \<longrightarrow> True)} =
   {wit_item KUnit ''a/b'' 1, wit_item KSensor ''a/c'' 0}"
proof -
  have "set (im_get_by_mask std_lib wit_map \<lparr>mask_kind = None, mask_chunks = Some [''a'', ''+'']\<rparr>
      (filter_node NF_Local filter_default) True) = {wit_item KUnit ''a/b'' 1, wit_item KSensor ''a/c'' 0}"
    by code_simp
  then show ?thesis
    using im_get_by_mask_correct [OF wit_map_ok, of std_lib "\<lparr>mask_kind = None, mask_chunks = Some [''a'', ''+'']\<rparr>"
      "filter_node NF_Local filter_default" True] by simp
qed

text \<open>
  C7: the trees implement a finite map from identifiers to items: an append registers exactly
  its item or, without \<open>replace\<close>, refuses a registered identifier and leaves the map as it
  was; a removal returns the registered item and unregisters only it; both keep the trees
  well formed.
\<close>

theorem item_map_refines_map:
  assumes "im_ok m"
  shows "(case im_append i replace m of
      (Inl e, m') \<Rightarrow> e = EDuplicate \<and> \<not> replace \<and> im_get m (it_oid i) \<noteq> None \<and> m' = m
    | (Inr _, m') \<Rightarrow> im_ok m' \<and> im_get m' = (im_get m)(it_oid i \<mapsto> i) \<and>
        (replace \<or> im_get m (it_oid i) = None)) \<and>
    (case im_remove x m of (r, m') \<Rightarrow> r = im_get m x \<and> im_ok m' \<and> im_get m' = (im_get m)(x := None))"
proof (intro conjI)
  show "case im_append i replace m of
      (Inl e, m') \<Rightarrow> e = EDuplicate \<and> \<not> replace \<and> im_get m (it_oid i) \<noteq> None \<and> m' = m
    | (Inr _, m') \<Rightarrow> im_ok m' \<and> im_get m' = (im_get m)(it_oid i \<mapsto> i) \<and>
        (replace \<or> im_get m (it_oid i) = None)"
    using ims.append_result [OF assms, of i replace] ims.append_refused [OF assms, of i replace]
      ims.append_ok [OF assms, of i replace] ims.append_get [OF assms, of i replace]
    by (auto split: prod.split sum.split if_splits)
  show "case im_remove x m of (r, m') \<Rightarrow> r = im_get m x \<and> im_ok m' \<and> im_get m' = (im_get m)(x := None)"
    using ims.remove_result [OF assms, of x] ims.remove_ok [OF assms, of x] ims.remove_get [OF assms, of x]
    by (auto split: prod.split)
qed

theorem item_map_refines_map_witness:
  "im_append (wit_item KSensor ''a/c'' 7) False wit_map = (Inl EDuplicate, wit_map) \<and>
   fst (im_remove (OID KSensor ''a/c'') wit_map) = Some (wit_item KSensor ''a/c'' 0) \<and>
   im_get (snd (im_remove (OID KSensor ''a/c'') wit_map)) (OID KSensor ''a/c'') = None"
proof -
  have g: "im_get wit_map (OID KSensor ''a/c'') = Some (wit_item KSensor ''a/c'' 0)" by code_simp
  note r = item_map_refines_map [OF wit_map_ok, where i = "wit_item KSensor ''a/c'' 7"
    and replace = False and x = "OID KSensor ''a/c''"]
  have o: "it_oid (wit_item KSensor ''a/c'' 7) = OID KSensor ''a/c''" by (simp add: wit_item_def)
  from r show ?thesis
    unfolding o g by (auto split: prod.splits sum.splits)
qed

end
