(* ===== verification/Inventory.thy ===== *)
theory Inventory
  imports Item_Map
begin

text \<open>
  The inventory of the core (\<open>Inventory\<close> of \<open>eva/src/items.rs\<close>): the item map together with two
  indexes, the items by source and the sources. Operations that create items allocate them
  in the store. The invariant says that the indexes agree with the map; it is kept by every
  operation except one: replacing an item by one of another source leaves the old index
  entry behind.
\<close>

definition LOCAL_NODE_ALIAS :: string where
  "LOCAL_NODE_ALIAS = ''.local''"

record inventory =
  inv_items :: item_map
  inv_by_source :: "(string option, (oid, item) hmap) hmap"
  inv_sources :: "(string, source) hmap"

record inventory_stats =
  ist_sources :: "(string, nat) hmap"
  ist_items :: nat

definition inv_new :: inventory where
  "inv_new = \<lparr>inv_items = im_default, inv_by_source = [], inv_sources = []\<rparr>"

definition inv_stats :: "inventory \<Rightarrow> inventory_stats" where
  "inv_stats iv =
     fold (\<lambda>(src, items) st.
        \<lparr>ist_sources = hm_insert (unwrap_or LOCAL_NODE_ALIAS src) (length items) (ist_sources st),
         ist_items = ist_items st + length items\<rparr>)
       (inv_by_source iv) \<lparr>ist_sources = [], ist_items = 0\<rparr>"

definition get_or_create_source :: "string \<Rightarrow> string \<Rightarrow> inventory \<Rightarrow> heap \<Rightarrow> source \<times> heap" where
  "get_or_create_source source_id svc iv h =
     (case hm_get (inv_sources iv) source_id of
        None \<Rightarrow> create_source source_id svc h
      | Some src \<Rightarrow> (src, h))"

definition get_items_by_source :: "string \<Rightarrow> inventory \<Rightarrow> (oid, item) hmap option" where
  "get_items_by_source source_id iv = hm_get (inv_by_source iv) (Some source_id)"

definition list_local_items :: "inventory \<Rightarrow> item list" where
  "list_local_items iv =
     (case hm_get (inv_by_source iv) None of Some items \<Rightarrow> hm_values items | None \<Rightarrow> [])"

definition inv_mark_source_online :: "string \<Rightarrow> bool \<Rightarrow> inventory \<Rightarrow> heap \<Rightarrow> heap" where
  "inv_mark_source_online source_id online iv h =
     (case hm_get (inv_sources iv) source_id of
        Some source \<Rightarrow> src_mark_online source online h
      | None \<Rightarrow> h)"

definition inv_get_items_by_mask ::
    "eva_lib \<Rightarrow> inventory \<Rightarrow> oid_mask \<Rightarrow> item_filter \<Rightarrow> bool \<Rightarrow> item list" where
  "inv_get_items_by_mask L iv msk f include_stateless =
     im_get_by_mask L (inv_items iv) msk f include_stateless"

definition inv_get_item :: "inventory \<Rightarrow> oid \<Rightarrow> item option" where
  "inv_get_item iv x = im_get (inv_items iv) x"

definition item_node :: "item \<Rightarrow> string option" where
  "item_node i = map_option src_node (it_source i)"

definition inv_append_item :: "item \<Rightarrow> bool \<Rightarrow> inventory \<Rightarrow> item result \<times> inventory" where
  "inv_append_item i replace iv =
     (case im_append i replace (inv_items iv) of
        (Inl e, im) \<Rightarrow> (Inl e, iv\<lparr>inv_items := im\<rparr>)
      | (Inr _, im) \<Rightarrow>
          (let iv1 = iv\<lparr>inv_items := im\<rparr>; node = item_node i
           in case hm_get (inv_by_source iv1) node of
                Some items \<Rightarrow>
                  (Inr i, iv1\<lparr>inv_by_source :=
                     hm_insert node (hm_insert (it_oid i) i items) (inv_by_source iv1)\<rparr>)
              | None \<Rightarrow>
                  (let iv2 = iv1\<lparr>inv_by_source :=
                         hm_insert node (hm_insert (it_oid i) i []) (inv_by_source iv1)\<rparr>
                   in case it_source i of
                        Some s \<Rightarrow> (Inr i, iv2\<lparr>inv_sources := hm_insert (src_node s) s (inv_sources iv2)\<rparr>)
                      | None \<Rightarrow> (Inr i, iv2))))"

definition inv_remove_item :: "oid \<Rightarrow> inventory \<Rightarrow> item option \<times> inventory" where
  "inv_remove_item x iv =
     (case im_remove x (inv_items iv) of
        (None, im) \<Rightarrow> (None, iv\<lparr>inv_items := im\<rparr>)
      | (Some i, im) \<Rightarrow>
          (let iv1 = iv\<lparr>inv_items := im\<rparr>; node = item_node i
           in case hm_get (inv_by_source iv1) node of
                None \<Rightarrow> (Some i, iv1)
              | Some items \<Rightarrow>
                  (let items' = hm_remove (it_oid i) items
                   in if items' = [] then
                        (Some i,
                         iv1\<lparr>inv_by_source := hm_remove node (inv_by_source iv1),
                              inv_sources := (case node of Some n \<Rightarrow> hm_remove n (inv_sources iv1)
                                              | None \<Rightarrow> inv_sources iv1)\<rparr>)
                      else
                        (Some i, iv1\<lparr>inv_by_source := hm_insert node items' (inv_by_source iv1)\<rparr>))))"

text \<open>
  The configuration comes from the registry; \<open>data\<close> is the result of deserializing it. The
  clock readings are used only where a new state is generated.
\<close>

definition append_item_from_value ::
    "oid \<Rightarrow> item_data result \<Rightarrow> item_state option \<Rightarrow> 64 word \<Rightarrow> 64 word \<Rightarrow> f64 \<Rightarrow> inventory \<Rightarrow> heap \<Rightarrow>
     item result \<times> inventory \<times> heap" where
  "append_item_from_value x data state boot_id ns now iv h =
     (case data of
        Inl e \<Rightarrow> (Inl e, iv, h)
      | Inr d \<Rightarrow>
          if id_oid d \<noteq> x then (Inl EInvalidData, iv, h)
          else
            (case check_item_data d of
               Inl e \<Rightarrow> (Inl e, iv, h)
             | Inr _ \<Rightarrow>
                 (let tp = oid_kind (id_oid d);
                      d' = (case state of
                              Some st \<Rightarrow>
                                d\<lparr>id_state := Some (if tp = KUnit then st\<lparr>st_act := Some 0\<rparr> else st)\<rparr>
                            | None \<Rightarrow>
                                if id_state d = None \<and> tp \<noteq> KLmacro
                                then d\<lparr>id_state := Some (state_new0 (ieid_generate boot_id ns) tp now)\<rparr>
                                else d);
                      (i, h') = arc_item d' h;
                      (r, iv') = inv_append_item i True iv
                  in (r, iv', h'))))"

definition get_or_generate_state ::
    "oid \<Rightarrow> 64 word \<Rightarrow> 64 word \<Rightarrow> f64 \<Rightarrow> inventory \<Rightarrow> heap \<Rightarrow> item_state" where
  "get_or_generate_state x boot_id ns now iv h =
     (case Option.bind (inv_get_item iv x) (item_state_of h) of
        Some st \<Rightarrow> st
      | None \<Rightarrow> state_new0 (ieid_generate boot_id ns) (oid_kind x) now)"

definition append_item_from_config_data ::
    "item_config_data \<Rightarrow> 64 word \<Rightarrow> 64 word \<Rightarrow> f64 \<Rightarrow> inventory \<Rightarrow> heap \<Rightarrow>
     item result \<times> inventory \<times> heap" where
  "append_item_from_config_data cd boot_id ns now iv h =
     (let (d, sd) = config_split cd
      in case check_item_data d of
           Inl e \<Rightarrow> (Inl e, iv, h)
         | Inr _ \<Rightarrow>
             (let tp = oid_kind (id_oid d);
                  d' = (if tp \<noteq> KLmacro then
                          (let st0 = get_or_generate_state (id_oid d) boot_id ns now iv h;
                               st1 = (if tp = KUnit then st0\<lparr>st_act := Some 0\<rparr> else st0);
                               st2 = (case sd_status sd of Some s \<Rightarrow> st1\<lparr>st_status := s\<rparr> | None \<Rightarrow> st1);
                               st3 = (case sd_value sd of Some v \<Rightarrow> st2\<lparr>st_value := v\<rparr> | None \<Rightarrow> st2);
                               st4 = (case sd_t sd of Some t \<Rightarrow> st3\<lparr>st_t := t\<rparr> | None \<Rightarrow> st3)
                           in d\<lparr>id_state := Some st4\<rparr>)
                        else d);
                  (i, h') = arc_item d' h;
                  (r, iv') = inv_append_item i True iv
              in (r, iv', h')))"

definition source_from :: "(string \<times> string) option \<Rightarrow> inventory \<Rightarrow> heap \<Rightarrow> source option \<times> heap" where
  "source_from from iv h =
     (case from of
        None \<Rightarrow> (None, h)
      | Some (source_id, svc) \<Rightarrow>
          (case hm_get (inv_sources iv) source_id of
             Some src \<Rightarrow> (Some src, h)
           | None \<Rightarrow> (let (s, h') = create_source source_id svc h in (Some s, h'))))"

definition create_item ::
    "oid \<Rightarrow> ieid option \<Rightarrow> (string \<times> string) option \<Rightarrow> f64 \<Rightarrow> inventory \<Rightarrow> heap \<Rightarrow>
     item result \<times> inventory \<times> heap" where
  "create_item x ieid from now iv h =
     (let tp = oid_kind x;
          (source, h1) = source_from from iv h;
          st = (if tp = KLmacro then Inr None
                else (case ieid of
                        Some ie \<Rightarrow> Inr (Some (state_new0 ie tp now))
                      | None \<Rightarrow> Inl EInvalidData))
      in case st of
           Inl e \<Rightarrow> (Inl e, iv, h1)
         | Inr st' \<Rightarrow>
             (let (i, h2) = arc_item \<lparr>id_oid = x, id_state = st', id_meta = None, id_source = source,
                               id_enabled = True, id_logic = None, id_action = None\<rparr> h1;
                  (r, iv') = inv_append_item i False iv
              in (r, iv', h2)))"

definition append_remote_item ::
    "repl_inventory_item \<Rightarrow> source \<Rightarrow> inventory \<Rightarrow> heap \<Rightarrow> item result \<times> inventory \<times> heap" where
  "append_remote_item ri source iv h =
     (case from_repl_item ri source of
        Inl e \<Rightarrow> (Inl e, iv, h)
      | Inr d \<Rightarrow>
          (let (i, h') = arc_item d h; (r, iv') = inv_append_item i True iv in (r, iv', h')))"

text \<open>The hash set of the result is keyed by the identifier: an item already in it stays.\<close>

definition list_items_with_states ::
    "eva_lib \<Rightarrow> oid_mask list \<Rightarrow> node_filter option \<Rightarrow> inventory \<Rightarrow> item list" where
  "list_items_with_states L mask_list source_id iv =
     (let f = (case source_id of Some v \<Rightarrow> filter_node v filter_default | None \<Rightarrow> filter_default)
      in hm_values
           (fold (\<lambda>msk h.
              fold (\<lambda>i h. if hm_contains h (it_oid i) then h else hm_insert (it_oid i) i h)
                (inv_get_items_by_mask L iv msk f False) h)
             mask_list []))"

subsection \<open>Lookup through the inventory\<close>

text \<open>
  As a store of items the inventory behaves like its map, whatever the indexes hold: the
  laws of \<open>item_store\<close> are what the core uses of it.
\<close>

definition inv_append_unit :: "item \<Rightarrow> bool \<Rightarrow> inventory \<Rightarrow> unit result \<times> inventory" where
  "inv_append_unit i replace iv =
     (map_sum id (\<lambda>_. ()) (fst (inv_append_item i replace iv)), snd (inv_append_item i replace iv))"

definition inv_lookup_ok :: "inventory \<Rightarrow> bool" where
  "inv_lookup_ok iv \<longleftrightarrow> im_ok (inv_items iv)"

lemma inv_append_items:
  "inv_items (snd (inv_append_item i replace iv)) = snd (im_append i replace (inv_items iv))"
  "fst (inv_append_item i replace iv) = map_sum id (\<lambda>_. i) (fst (im_append i replace (inv_items iv)))"
  by (auto simp: inv_append_item_def Let_def split: prod.splits sum.splits option.splits)

lemma inv_remove_items:
  "inv_items (snd (inv_remove_item x iv)) = snd (im_remove x (inv_items iv))"
  "fst (inv_remove_item x iv) = fst (im_remove x (inv_items iv))"
  by (auto simp: inv_remove_item_def Let_def split: prod.splits option.splits)

lemma inv_append_refused:
  assumes "inv_lookup_ok iv" and "fst (inv_append_item i replace iv) = Inl e"
  shows "snd (inv_append_item i replace iv) = iv"
proof -
  have r: "fst (im_append i replace (inv_items iv)) = Inl e"
    using assms(2) by (cases "fst (im_append i replace (inv_items iv))") (simp_all add: inv_append_items)
  moreover have "snd (im_append i replace (inv_items iv)) = inv_items iv"
    using ims.append_refused [OF _ r] assms(1) by (simp add: inv_lookup_ok_def)
  ultimately show ?thesis by (auto simp: inv_append_item_def split: prod.splits)
qed

interpretation ivs: item_store inv_get_item inv_append_unit inv_remove_item inv_lookup_ok
proof unfold_locales
  fix m :: inventory and x y :: oid and i :: item and replace :: bool and e :: error
  assume ok: "inv_lookup_ok m"
  then have iok: "im_ok (inv_items m)" by (simp add: inv_lookup_ok_def)
  show "it_oid i = x" if "inv_get_item m x = Some i"
    using that ims.get_oid [OF iok] by (simp add: inv_get_item_def)
  show "fst (inv_append_unit i replace m) =
      (if \<not> replace \<and> inv_get_item m (it_oid i) \<noteq> None then Inl EDuplicate else Inr ())"
    by (simp add: inv_append_unit_def inv_append_items ims.append_result [OF iok] inv_get_item_def)
  show "snd (inv_append_unit i replace m) = m" if "fst (inv_append_unit i replace m) = Inl e"
    using that inv_append_refused [OF ok]
    by (cases "fst (inv_append_item i replace m)") (auto simp: inv_append_unit_def)
  show "inv_lookup_ok (snd (inv_append_unit i replace m))"
    by (simp add: inv_append_unit_def inv_append_items inv_lookup_ok_def ims.append_ok [OF iok])
  show "inv_get_item (snd (inv_append_unit i replace m)) x =
      (if x = it_oid i then Some i else inv_get_item m x)"
    if "fst (inv_append_unit i replace m) = Inr ()"
    using that by (cases "fst (im_append i replace (inv_items m))")
      (simp_all add: inv_append_unit_def inv_append_items inv_get_item_def ims.append_get [OF iok])
  show "fst (inv_remove_item x m) = inv_get_item m x"
    by (simp add: inv_remove_items ims.remove_result [OF iok] inv_get_item_def)
  show "inv_lookup_ok (snd (inv_remove_item x m))"
    by (simp add: inv_remove_items inv_lookup_ok_def ims.remove_ok [OF iok])
  show "inv_get_item (snd (inv_remove_item x m)) y = (if y = x then None else inv_get_item m y)"
    by (simp add: inv_remove_items inv_get_item_def ims.remove_get [OF iok])
qed

subsection \<open>The invariant of the indexes\<close>

text \<open>The item the index by source holds for a node and an identifier.\<close>

definition indexed :: "inventory \<Rightarrow> string option \<Rightarrow> oid \<Rightarrow> item option" where
  "indexed iv n x = Option.bind (hm_get (inv_by_source iv) n) (\<lambda>items. hm_get items x)"

definition inv_ok :: "inventory \<Rightarrow> bool" where
  "inv_ok iv \<longleftrightarrow>
     inv_lookup_ok iv \<and> hm_wf (inv_by_source iv) \<and> hm_wf (inv_sources iv) \<and>
     (\<forall>(n, items) \<in> set (inv_by_source iv). hm_wf items \<and> items \<noteq> []) \<and>
     (\<forall>n x i. indexed iv n x = Some i \<longleftrightarrow> inv_get_item iv x = Some i \<and> item_node i = n) \<and>
     (\<forall>n. hm_get (inv_sources iv) n = None \<longleftrightarrow> hm_get (inv_by_source iv) (Some n) = None) \<and>
     (\<forall>(n, s) \<in> set (inv_sources iv). src_node s = n)"

lemma inv_okD:
  assumes "inv_ok iv"
  shows "inv_lookup_ok iv" "hm_wf (inv_by_source iv)" "hm_wf (inv_sources iv)"
    and "hm_get (inv_by_source iv) n = Some items \<Longrightarrow> hm_wf items"
    and "hm_get (inv_by_source iv) n = Some items \<Longrightarrow> items \<noteq> []"
    and "indexed iv n x = Some i \<longleftrightarrow> inv_get_item iv x = Some i \<and> item_node i = n"
    and "hm_get (inv_sources iv) k = None \<longleftrightarrow> hm_get (inv_by_source iv) (Some k) = None"
    and "hm_get (inv_sources iv) k = Some s \<Longrightarrow> src_node s = k"
  using assms unfolding inv_ok_def by (auto simp: hm.entries_get [symmetric])

lemma inv_new_ok: "inv_ok inv_new"
  by (simp add: inv_ok_def inv_new_def inv_lookup_ok_def indexed_def inv_get_item_def)

lemma inv_get_new [simp]: "inv_get_item inv_new x = None"
  by (simp add: inv_new_def inv_get_item_def)

text \<open>What a successful append does to the lookups and the indexes.\<close>

lemma inv_append_get:
  assumes "inv_lookup_ok iv" and "fst (inv_append_item i replace iv) = Inr j"
  shows "j = i" and "inv_get_item (snd (inv_append_item i replace iv)) x =
    (if x = it_oid i then Some i else inv_get_item iv x)"
proof -
  have r: "fst (inv_append_unit i replace iv) = Inr ()"
    using assms(2) by (simp add: inv_append_unit_def)
  show "inv_get_item (snd (inv_append_item i replace iv)) x =
    (if x = it_oid i then Some i else inv_get_item iv x)"
    using ivs.append_get [OF assms(1) r, of x] by (simp add: inv_append_unit_def)
  show "j = i"
    using assms(2) by (cases "fst (im_append i replace (inv_items iv))") (simp_all add: inv_append_items)
qed

lemma inv_append_result:
  assumes "inv_lookup_ok iv"
  shows "fst (inv_append_item i replace iv) =
    (if \<not> replace \<and> inv_get_item iv (it_oid i) \<noteq> None then Inl EDuplicate else Inr i)"
  using ims.append_result [of "inv_items iv" i replace] assms
  by (simp add: inv_append_items inv_lookup_ok_def inv_get_item_def)

lemma inv_append_lookup_ok: "inv_lookup_ok iv \<Longrightarrow> inv_lookup_ok (snd (inv_append_item i replace iv))"
  using ivs.append_ok [of iv i replace] by (simp add: inv_append_unit_def)

lemma inv_append_indexes:
  assumes ok: "inv_ok iv" and r: "fst (inv_append_item i replace iv) = Inr j"
  defines "iv' \<equiv> snd (inv_append_item i replace iv)"
  shows "indexed iv' n x = (if n = item_node i \<and> x = it_oid i then Some i else indexed iv n x)"
    and "hm_wf (inv_by_source iv')" and "hm_wf (inv_sources iv')"
    and "\<forall>(n, items) \<in> set (inv_by_source iv'). hm_wf items \<and> items \<noteq> []"
    and "hm_get (inv_sources iv') k = None \<longleftrightarrow> hm_get (inv_by_source iv') (Some k) = None"
    and "\<forall>(n, s) \<in> set (inv_sources iv'). src_node s = n"
proof -
  note wf = inv_okD(2,3) [OF ok]
  define items where "items = unwrap_or [] (hm_get (inv_by_source iv) (item_node i))"
  have iwf: "hm_wf items"
    using inv_okD(4) [OF ok] by (cases "hm_get (inv_by_source iv) (item_node i)") (auto simp: items_def)
  have bs: "inv_by_source iv' = hm_insert (item_node i) (hm_insert (it_oid i) i items) (inv_by_source iv)"
    and src: "inv_sources iv' = (case it_source i of
      Some s \<Rightarrow> if hm_get (inv_by_source iv) (Some (src_node s)) = None
        then hm_insert (src_node s) s (inv_sources iv) else inv_sources iv | None \<Rightarrow> inv_sources iv)"
    using r by (auto simp: iv'_def inv_append_item_def items_def item_node_def Let_def
        split: prod.splits sum.splits option.splits)
  show "indexed iv' n x = (if n = item_node i \<and> x = it_oid i then Some i else indexed iv n x)"
    using hm.get_insert [OF iwf, of "it_oid i" i x]
    by (cases "hm_get (inv_by_source iv) (item_node i)")
      (auto simp: indexed_def bs hm.get_insert [OF wf(1)] items_def)
  show "hm_wf (inv_by_source iv')" by (simp add: bs hm.wf_insert wf)
  show "hm_wf (inv_sources iv')" by (simp add: src hm.wf_insert wf split: option.split)
  have "hm_insert (it_oid i) i items \<noteq> []" using hm.entries_insert [OF iwf, of "it_oid i" i] by auto
  then show "\<forall>(n, items) \<in> set (inv_by_source iv'). hm_wf items \<and> items \<noteq> []"
    using ok by (auto simp: bs hm.entries_insert [OF wf(1)] hm.wf_insert [OF iwf] inv_ok_def)
  show "hm_get (inv_sources iv') k = None \<longleftrightarrow> hm_get (inv_by_source iv') (Some k) = None"
    using inv_okD(7) [OF ok, of k]
    by (auto simp: bs src hm.get_insert [OF wf(1)] hm.get_insert [OF wf(2)] item_node_def split: option.splits)
  show "\<forall>(n, s) \<in> set (inv_sources iv'). src_node s = n"
    using ok by (auto simp: src hm.entries_insert [OF wf(2)] inv_ok_def split: option.splits)
qed

lemma inv_append_ok:
  assumes ok: "inv_ok iv"
    and same: "\<And>j. inv_get_item iv (it_oid i) = Some j \<Longrightarrow> item_node j = item_node i"
  shows "inv_ok (snd (inv_append_item i replace iv))"
proof (cases "fst (inv_append_item i replace iv)")
  case (Inl e)
  then show ?thesis using ok inv_append_refused [OF inv_okD(1) [OF ok]] by simp
next
  case (Inr j)
  note ix = inv_append_indexes [OF ok Inr]
  show ?thesis
    unfolding inv_ok_def
    using ix inv_append_get(2) [OF inv_okD(1) [OF ok] Inr] inv_append_lookup_ok [OF inv_okD(1) [OF ok]]
      inv_okD(6) [OF ok] same
    by auto
qed

text \<open>Removal.\<close>

lemma inv_remove_indexes:
  assumes ok: "inv_ok iv" and r: "inv_get_item iv x = Some i"
  defines "iv' \<equiv> snd (inv_remove_item x iv)"
  shows "indexed iv' n y = (if n = item_node i \<and> y = x then None else indexed iv n y)"
    and "hm_wf (inv_by_source iv')" and "hm_wf (inv_sources iv')"
    and "\<forall>(n, items) \<in> set (inv_by_source iv'). hm_wf items \<and> items \<noteq> []"
    and "hm_get (inv_sources iv') k = None \<longleftrightarrow> hm_get (inv_by_source iv') (Some k) = None"
    and "\<forall>(n, s) \<in> set (inv_sources iv'). src_node s = n"
proof -
  note wf = inv_okD(2,3) [OF ok]
  have oid: "it_oid i = x" by (rule ivs.get_oid [OF inv_okD(1) [OF ok] r])
  obtain items where items: "hm_get (inv_by_source iv) (item_node i) = Some items" "hm_get items x = Some i"
    using inv_okD(6) [OF ok, of "item_node i" x i] r by (auto simp: indexed_def bind_eq_Some_conv)
  note iwf = inv_okD(4) [OF ok items(1)]
  define items' where "items' = hm_remove x items"
  have im: "fst (im_remove x (inv_items iv)) = Some i"
    using ivs.remove_result [OF inv_okD(1) [OF ok], of x] r by (simp add: inv_remove_items)
  have bs: "inv_by_source iv' = (if items' = [] then hm_remove (item_node i) (inv_by_source iv)
      else hm_insert (item_node i) items' (inv_by_source iv))"
    and src: "inv_sources iv' = (case it_source i of
      Some s \<Rightarrow> if items' = [] then hm_remove (src_node s) (inv_sources iv) else inv_sources iv
      | None \<Rightarrow> inv_sources iv)"
    using im items(1) by (auto simp: iv'_def inv_remove_item_def item_node_def Let_def oid items'_def
        split: prod.splits option.splits)
  have gi: "hm_get items' y = (if y = x then None else hm_get items y)" for y
    by (simp add: items'_def hm.get_remove [OF iwf])
  show "indexed iv' n y = (if n = item_node i \<and> y = x then None else indexed iv n y)"
    using gi [of y] items(1)
    by (auto simp: indexed_def bs hm.get_insert [OF wf(1)] hm.get_remove [OF wf(1)] split: if_splits)
  show "hm_wf (inv_by_source iv')" by (simp add: bs hm.wf_insert hm.wf_remove wf)
  show "hm_wf (inv_sources iv')" by (simp add: src hm.wf_remove wf split: option.split)
  show "\<forall>(n, items) \<in> set (inv_by_source iv'). hm_wf items \<and> items \<noteq> []"
    using ok hm.wf_remove [OF iwf, of x]
    by (auto simp: bs items'_def hm.entries_insert [OF wf(1)] hm.entries_remove [OF wf(1)] inv_ok_def)
  show "hm_get (inv_sources iv') k = None \<longleftrightarrow> hm_get (inv_by_source iv') (Some k) = None"
    using inv_okD(7) [OF ok, of k] items(1)
    by (auto simp: bs src hm.get_insert [OF wf(1)] hm.get_remove [OF wf(1)] hm.get_remove [OF wf(2)]
        item_node_def split: option.splits)
  show "\<forall>(n, s) \<in> set (inv_sources iv'). src_node s = n"
    using ok by (auto simp: src hm.entries_remove [OF wf(2)] inv_ok_def split: option.splits)
qed

lemma inv_remove_absent:
  assumes "inv_ok iv" and "inv_get_item iv x = None"
  shows "inv_by_source (snd (inv_remove_item x iv)) = inv_by_source iv"
    and "inv_sources (snd (inv_remove_item x iv)) = inv_sources iv"
  using assms ims.remove_result [of "inv_items iv" x]
  by (auto simp: inv_remove_item_def inv_get_item_def inv_ok_def inv_lookup_ok_def split: prod.splits)

lemma inv_remove_ok:
  assumes ok: "inv_ok iv"
  shows "inv_ok (snd (inv_remove_item x iv))"
proof -
  note lk = ivs.remove_ok [OF inv_okD(1) [OF ok], of x] ivs.remove_get [OF inv_okD(1) [OF ok], of x]
  show ?thesis
  proof (cases "inv_get_item iv x")
    case None
    show ?thesis
      using ok lk inv_remove_absent [OF ok None] None by (auto simp: inv_ok_def indexed_def)
  next
    case (Some i)
    show ?thesis
      unfolding inv_ok_def
      using inv_remove_indexes [OF ok Some] lk inv_okD(6) [OF ok] Some by auto
  qed
qed

subsection \<open>Statistics\<close>

lemma stats_items:
  "ist_items (fold (\<lambda>(src, items) st.
        \<lparr>ist_sources = hm_insert (unwrap_or LOCAL_NODE_ALIAS src) (length items) (ist_sources st),
         ist_items = ist_items st + length items\<rparr>) bs st) =
    ist_items st + sum_list (map (\<lambda>(src, items). length items) bs)"
  by (induction bs arbitrary: st) (auto simp: split_beta)

lemma card_keys:
  assumes "\<And>n items. (n, items) \<in> set bs \<Longrightarrow> hm_wf items" and "hm_wf bs"
    and "\<And>n m a b x. (n, a) \<in> set bs \<Longrightarrow> (m, b) \<in> set bs \<Longrightarrow> x \<in> fst ` set a \<Longrightarrow> x \<in> fst ` set b \<Longrightarrow> n = m"
  shows "sum_list (map (\<lambda>(src, items). length items) bs) = card (\<Union>(n, items) \<in> set bs. fst ` set items)"
  using assms
proof (induction bs)
  case (Cons e bs)
  obtain n a where e: "e = (n, a)" by (cases e)
  have IH: "sum_list (map (\<lambda>(src, items). length items) bs) = card (\<Union>(n, items) \<in> set bs. fst ` set items)"
  proof (rule Cons.IH)
    show "hm_wf items" if "(n, items) \<in> set bs" for n items using Cons.prems(1) that by auto
    show "hm_wf bs" using Cons.prems(2) by (simp add: hm_wf_def)
    show "n = m" if "(n, a) \<in> set bs" "(m, b) \<in> set bs" "x \<in> fst ` set a" "x \<in> fst ` set b" for n m a b x
      using Cons.prems(3) [of n a m b x] that by simp
  qed
  have "card (fst ` set a) = length a"
    using Cons.prems(1) [of n a] e distinct_card [of "map fst a"] by (simp add: hm_wf_def)
  moreover have "fst ` set a \<inter> (\<Union>(n, items) \<in> set bs. fst ` set items) = {}"
  proof -
    have "False" if "x \<in> fst ` set a" "(m, b) \<in> set bs" "x \<in> fst ` set b" for x m b
    proof -
      have "n = m" using Cons.prems(3) [of n a m b x] that e by simp
      then show False using Cons.prems(2) that(2) e by (force simp: hm_wf_def)
    qed
    then show ?thesis by fast
  qed
  moreover have "finite (\<Union>(n, items) \<in> set bs. fst ` set items)" by auto
  ultimately have "card (fst ` set a \<union> (\<Union>(n, items) \<in> set bs. fst ` set items)) =
      length a + card (\<Union>(n, items) \<in> set bs. fst ` set items)"
    using card_Un_disjoint [of "fst ` set a" "\<Union>(n, items) \<in> set bs. fst ` set items"] by simp
  then show ?case using IH e by simp
qed simp

lemma source_entry_indexed:
  assumes "inv_ok iv" and "(n, items) \<in> set (inv_by_source iv)" and "x \<in> fst ` set items"
  shows "\<exists>i. inv_get_item iv x = Some i \<and> item_node i = n"
proof -
  have g: "hm_get (inv_by_source iv) n = Some items"
    using assms(2) hm.entries_get [OF inv_okD(2) [OF assms(1)]] by simp
  then have "hm_get items x \<noteq> None"
    using assms(3) hm.get_none_iff [OF inv_okD(4) [OF assms(1) g]] by simp
  then obtain i where "indexed iv n x = Some i" using g by (auto simp: indexed_def)
  then show ?thesis using inv_okD(6) [OF assms(1)] by blast
qed

lemma registered_keys:
  assumes "inv_ok iv"
  shows "{x. inv_get_item iv x \<noteq> None} = (\<Union>(n, items) \<in> set (inv_by_source iv). fst ` set items)"
    (is "?A = ?B")
proof
  show "?B \<subseteq> ?A" using source_entry_indexed [OF assms] by fastforce
  show "?A \<subseteq> ?B"
  proof
    fix x
    assume "x \<in> ?A"
    then obtain i where "inv_get_item iv x = Some i" by auto
    then have "indexed iv (item_node i) x = Some i" using inv_okD(6) [OF assms] by simp
    then obtain items where "hm_get (inv_by_source iv) (item_node i) = Some items" "hm_get items x = Some i"
      by (auto simp: indexed_def bind_eq_Some_conv)
    then have "(item_node i, items) \<in> set (inv_by_source iv)" "(x, i) \<in> set items"
      using hm.entries_get [OF inv_okD(2) [OF assms]] hm.entries_get [OF inv_okD(4) [OF assms]] by auto
    then show "x \<in> ?B" by force
  qed
qed

text \<open>
  The item count of the statistics, which adds up the index by source, is the number of
  registered items.
\<close>

theorem inv_stats_count:
  assumes "inv_ok iv"
  shows "ist_items (inv_stats iv) = card {x. inv_get_item iv x \<noteq> None}"
proof -
  have "sum_list (map (\<lambda>(src, items). length items) (inv_by_source iv)) =
      card (\<Union>(n, items) \<in> set (inv_by_source iv). fst ` set items)"
  proof (rule card_keys)
    show "hm_wf items" if "(n, items) \<in> set (inv_by_source iv)" for n items
      using that assms by (auto simp: inv_ok_def)
    show "hm_wf (inv_by_source iv)" by (rule inv_okD(2) [OF assms])
    show "n = m" if "(n, a) \<in> set (inv_by_source iv)" "(m, b) \<in> set (inv_by_source iv)"
      "x \<in> fst ` set a" "x \<in> fst ` set b" for n m a b x
      using source_entry_indexed [OF assms that(1,3)] source_entry_indexed [OF assms that(2,4)] by auto
  qed
  then show ?thesis unfolding inv_stats_def stats_items registered_keys [OF assms] by simp
qed

text \<open>An inventory with one local item, for evaluation.\<close>

definition wit_source :: "string \<Rightarrow> nat \<Rightarrow> source" where
  "wit_source n a = \<lparr>src_node = n, src_svc = ''eva.repl.1'', src_cell = a\<rparr>"

definition wit_inv :: inventory where
  "wit_inv = snd (inv_append_item (wit_item KSensor ''a/c'' 0) False inv_new)"

lemma wit_inv_ok: "inv_ok wit_inv"
  unfolding wit_inv_def by (rule inv_append_ok [OF inv_new_ok]) simp

theorem inv_stats_count_witness:
  "card {x. inv_get_item wit_inv x \<noteq> None} = 1"
proof -
  have "ist_items (inv_stats wit_inv) = 1" by code_simp
  then show ?thesis using inv_stats_count [OF wit_inv_ok] by simp
qed

subsection \<open>Consistency of the inventory\<close>

text \<open>
  C18: the indexes stay consistent with the map: under the invariant an append either
  registers the item under its identifier and its source or refuses a duplicate and changes
  nothing, and it keeps the invariant unless it replaces an item of another source; a
  removal takes the item out of the map and of every index and always keeps the invariant.
\<close>

theorem inventory_invariant:
  assumes "inv_ok iv"
  shows "((\<forall>j. inv_get_item iv (it_oid i) = Some j \<longrightarrow> item_node j = item_node i) \<longrightarrow>
      inv_ok (snd (inv_append_item i replace iv))) \<and>
    (fst (inv_append_item i replace iv) = Inr i \<longrightarrow>
      indexed (snd (inv_append_item i replace iv)) (item_node i) (it_oid i) = Some i) \<and>
    (fst (inv_append_item i replace iv) = Inl e \<longrightarrow> e = EDuplicate \<and> snd (inv_append_item i replace iv) = iv) \<and>
    inv_ok (snd (inv_remove_item x iv)) \<and>
    fst (inv_remove_item x iv) = inv_get_item iv x \<and>
    indexed (snd (inv_remove_item x iv)) n x = None"
proof (intro conjI impI)
  show ok': "inv_ok (snd (inv_remove_item x iv))" by (rule inv_remove_ok [OF assms])
  show "fst (inv_remove_item x iv) = inv_get_item iv x"
    by (rule ivs.remove_result [OF inv_okD(1) [OF assms]])
  show "indexed (snd (inv_remove_item x iv)) n x = None"
    using inv_okD(6) [OF ok', of n x] ivs.remove_get [OF inv_okD(1) [OF assms], of x x]
    by (cases "indexed (snd (inv_remove_item x iv)) n x") auto
qed (use assms inv_append_ok [OF assms] inv_append_indexes(1) [OF assms]
      inv_append_refused [OF inv_okD(1) [OF assms]] inv_append_result [OF inv_okD(1) [OF assms]]
    in \<open>auto split: if_splits\<close>)

theorem inventory_invariant_witness:
  "inv_ok (snd (inv_append_item (wit_item KUnit ''a/b'' 1) False wit_inv)) \<and>
   snd (inv_append_item (wit_item KSensor ''a/c'' 2) False wit_inv) = wit_inv \<and>
   fst (inv_remove_item (OID KSensor ''a/c'') wit_inv) = Some (wit_item KSensor ''a/c'' 0) \<and>
   inv_ok (snd (inv_remove_item (OID KSensor ''a/c'') wit_inv))"
proof -
  have "inv_get_item wit_inv (it_oid (wit_item KUnit ''a/b'' 1)) = None"
    and "fst (inv_append_item (wit_item KSensor ''a/c'' 2) False wit_inv) = Inl EDuplicate"
    and "inv_get_item wit_inv (OID KSensor ''a/c'') = Some (wit_item KSensor ''a/c'' 0)"
    by code_simp+
  then show ?thesis
    using inventory_invariant [OF wit_inv_ok, where i = "wit_item KUnit ''a/b'' 1" and replace = False]
      inventory_invariant [OF wit_inv_ok, where i = "wit_item KSensor ''a/c'' 2" and replace = False
        and x = "OID KSensor ''a/c''"] by auto
qed

text \<open>
  Replacing an item by one of another source leaves the replaced item in the index of its
  old source, where listings of that source and its removal still find it, so the
  invariant is lost.
\<close>

theorem replace_other_source_stale:
  assumes "inv_ok iv" and "inv_get_item iv (it_oid i) = Some j" and "item_node j \<noteq> item_node i"
  defines "iv' \<equiv> snd (inv_append_item i True iv)"
  shows "inv_get_item iv' (it_oid i) = Some i \<and> indexed iv' (item_node j) (it_oid i) = Some j \<and>
    indexed iv' (item_node i) (it_oid i) = Some i \<and> \<not> inv_ok iv'"
proof -
  have r: "fst (inv_append_item i True iv) = Inr i"
    by (simp add: inv_append_result [OF inv_okD(1) [OF assms(1)]])
  note ix = inv_append_indexes(1) [OF assms(1) r, folded iv'_def]
  note get = inv_append_get(2) [OF inv_okD(1) [OF assms(1)] r, folded iv'_def]
  have old: "indexed iv' (item_node j) (it_oid i) = Some j"
    using ix assms(2,3) inv_okD(6) [OF assms(1)] by simp
  have "\<not> inv_ok iv'"
    using inv_okD(6) [of iv' "item_node j" "it_oid i" j] old get [of "it_oid i"] assms(3) by auto
  then show ?thesis using old ix get by simp
qed

theorem replace_other_source_stale_witness:
  "let i = (wit_item KSensor ''a/c'' 9)\<lparr>it_source := Some (wit_source ''n1'' 5)\<rparr>;
       iv' = snd (inv_append_item i True wit_inv)
   in list_local_items iv' = [wit_item KSensor ''a/c'' 0] \<and>
      inv_get_item iv' (OID KSensor ''a/c'') = Some i \<and> \<not> inv_ok iv'"
proof -
  define i where "i = (wit_item KSensor ''a/c'' 9)\<lparr>it_source := Some (wit_source ''n1'' 5)\<rparr>"
  have o: "it_oid i = OID KSensor ''a/c''" by (simp add: i_def wit_item_def)
  have g: "inv_get_item wit_inv (OID KSensor ''a/c'') = Some (wit_item KSensor ''a/c'' 0)" by code_simp
  have n: "item_node (wit_item KSensor ''a/c'' 0) \<noteq> item_node i"
    by (simp add: i_def item_node_def wit_item_def)
  have "list_local_items (snd (inv_append_item i True wit_inv)) = [wit_item KSensor ''a/c'' 0]"
    unfolding i_def by code_simp
  then show ?thesis
    using replace_other_source_stale [OF wit_inv_ok, of i, unfolded o, OF g n]
    unfolding i_def by (simp add: Let_def)
qed

subsection \<open>Cells of registered items\<close>

text \<open>
  Registered items have allocated cells of their own, so that a state written through one
  item is not seen through another.
\<close>

definition cells_ok :: "inventory \<Rightarrow> heap \<Rightarrow> bool" where
  "cells_ok iv h \<longleftrightarrow>
     (\<forall>x i. inv_get_item iv x = Some i \<longrightarrow> it_cell i < hp_next h) \<and>
     (\<forall>x y i j. inv_get_item iv x = Some i \<longrightarrow> inv_get_item iv y = Some j \<longrightarrow>
        it_cell i = it_cell j \<longrightarrow> x = y)"

lemma cells_ok_new [simp]: "cells_ok inv_new h"
  by (simp add: cells_ok_def)

lemma cells_okD:
  assumes "cells_ok iv h"
  shows "inv_get_item iv x = Some i \<Longrightarrow> it_cell i < hp_next h"
    and "inv_get_item iv x = Some i \<Longrightarrow> inv_get_item iv y = Some j \<Longrightarrow> it_cell i = it_cell j \<Longrightarrow> x = y"
  using assms by (auto simp: cells_ok_def)

lemma cells_ok_grow: "cells_ok iv h \<Longrightarrow> hp_next h \<le> hp_next h' \<Longrightarrow> cells_ok iv h'"
  by (force simp: cells_ok_def)

lemma cells_ok_append:
  assumes "inv_lookup_ok iv" and "cells_ok iv h" and "it_cell i = hp_next h" and "hp_next h' = Suc (hp_next h)"
  shows "cells_ok (snd (inv_append_item i replace iv)) h'"
proof (cases "fst (inv_append_item i replace iv)")
  case (Inl e)
  then have "snd (inv_append_item i replace iv) = iv" by (rule inv_append_refused [OF assms(1)])
  then show ?thesis using cells_ok_grow [OF assms(2), of h'] assms(4) by simp
next
  case (Inr j)
  have "inv_get_item (snd (inv_append_item i replace iv)) x = (if x = it_oid i then Some i else inv_get_item iv x)" for x
    by (rule inv_append_get(2) [OF assms(1) Inr])
  moreover have "it_cell j \<noteq> hp_next h" if "inv_get_item iv x = Some j" for x j
    using cells_okD(1) [OF assms(2) that] by simp
  ultimately show ?thesis
    using assms(2-4) unfolding cells_ok_def by (auto split: if_splits intro: less_SucI dest: sym)
qed

lemma cells_ok_remove:
  assumes "inv_lookup_ok iv" and "cells_ok iv h"
  shows "cells_ok (snd (inv_remove_item x iv)) h"
  using assms(2) unfolding cells_ok_def ivs.remove_get [OF assms(1)] by (auto split: if_splits)

subsection \<open>Deploying configuration\<close>

text \<open>The state of an item after its configuration was deployed, from the one it had.\<close>

definition deployed_state :: "item_config_data \<Rightarrow> item_state \<Rightarrow> item_state" where
  "deployed_state cd old =
     \<lparr>st_status = unwrap_or (st_status old) (cd_status cd),
      st_value = unwrap_or (st_value old) (cd_value cd),
      st_act = (if oid_kind (cd_oid cd) = KUnit then Some 0 else st_act old),
      st_ieid = st_ieid old, st_t = unwrap_or (st_t old) (cd_t cd)\<rparr>"

lemma config_data_parts:
  assumes "check_item_data (fst (config_split cd)) = Inr ()"
  obtains d where "append_item_from_config_data cd b ns now iv h =
      (fst (inv_append_item (fst (arc_item d h)) True iv), snd (inv_append_item (fst (arc_item d h)) True iv),
       snd (arc_item d h))"
    and "id_oid d = cd_oid cd" "id_source d = None" "id_logic d = cd_logic cd" "id_action d = cd_action cd"
    and "id_state d = (if oid_kind (cd_oid cd) = KLmacro then None
      else Some (deployed_state cd (get_or_generate_state (cd_oid cd) b ns now iv h)))"
  using assms that
  by (cases "cd_status cd"; cases "cd_value cd"; cases "cd_t cd")
    (auto simp: append_item_from_config_data_def config_split_def deployed_state_def Let_def split_beta)

lemma config_data_result:
  assumes "inv_lookup_ok iv" and "append_item_from_config_data cd b ns now iv h = (r, iv', h')" and "r = Inr i"
  shows "inv_get_item iv' (cd_oid cd) = Some i \<and> it_source i = None \<and> it_logic i = cd_logic cd \<and>
    it_action i = cd_action cd \<and> it_oid i = cd_oid cd"
proof -
  have "check_item_data (fst (config_split cd)) = Inr ()"
    using assms(2,3) by (cases "check_item_data (fst (config_split cd))")
      (auto simp: append_item_from_config_data_def split: prod.splits)
  then obtain d where d: "append_item_from_config_data cd b ns now iv h =
      (fst (inv_append_item (fst (arc_item d h)) True iv), snd (inv_append_item (fst (arc_item d h)) True iv),
       snd (arc_item d h))"
    and f: "id_oid d = cd_oid cd" "id_source d = None" "id_logic d = cd_logic cd" "id_action d = cd_action cd"
    by (rule config_data_parts)
  have r: "fst (inv_append_item (fst (arc_item d h)) True iv) = Inr i" using d assms(2,3) by simp
  show ?thesis
    using inv_append_get [OF assms(1) r] d assms(2) f by auto
qed

lemma config_data_refused:
  assumes "inv_lookup_ok iv" and "append_item_from_config_data cd b ns now iv h = (r, iv', h')" and "r = Inl e"
  shows "iv' = iv \<and> h' = h"
proof (cases "check_item_data (fst (config_split cd))")
  case (Inl e)
  then show ?thesis using assms(2) by (auto simp: append_item_from_config_data_def split: prod.splits)
next
  case (Inr u)
  then have "check_item_data (fst (config_split cd)) = Inr ()" by simp
  then obtain d where "append_item_from_config_data cd b ns now iv h =
      (fst (inv_append_item (fst (arc_item d h)) True iv), snd (inv_append_item (fst (arc_item d h)) True iv),
       snd (arc_item d h))"
    by (rule config_data_parts)
  then show ?thesis using assms(2,3) by (simp add: inv_append_result [OF assms(1)])
qed

lemma config_data_frame:
  assumes "inv_lookup_ok iv" and "cells_ok iv h"
    and "append_item_from_config_data cd b ns now iv h = (r, iv', h')" and "y \<noteq> cd_oid cd"
  shows "inv_get_item iv' y = inv_get_item iv y \<and>
    Option.bind (inv_get_item iv y) (item_state_of h') = Option.bind (inv_get_item iv y) (item_state_of h)"
proof (cases "check_item_data (fst (config_split cd))")
  case (Inl e)
  then show ?thesis
    using assms(3) by (auto simp: append_item_from_config_data_def split: prod.splits)
next
  case (Inr u)
  then have "check_item_data (fst (config_split cd)) = Inr ()" by simp
  then obtain d where d: "append_item_from_config_data cd b ns now iv h =
      (fst (inv_append_item (fst (arc_item d h)) True iv), snd (inv_append_item (fst (arc_item d h)) True iv),
       snd (arc_item d h))" and f: "id_oid d = cd_oid cd"
    by (rule config_data_parts)
  have r: "fst (inv_append_item (fst (arc_item d h)) True iv) = Inr (fst (arc_item d h))"
    by (simp add: inv_append_result [OF assms(1)])
  have "item_state_of (snd (arc_item d h)) j = item_state_of h j" if "inv_get_item iv y = Some j" for j
    using cells_okD(1) [OF assms(2) that] by (simp add: item_state_of_arc)
  then show ?thesis
    using inv_append_get(2) [OF assms(1) r, of y] d assms(3,4) f by (cases "inv_get_item iv y") auto
qed

text \<open>
  Deploying the configuration of a valid item registers it as a local item under its
  identifier. Its state is the one the item already had, or a new one (status 1, no value)
  if there was none, overridden only by the fields the configuration gives; the action
  counter of a unit starts at 0. The other items keep their registration and their state.
\<close>

theorem append_item_from_config_data_state:
  assumes ok: "inv_lookup_ok iv" "cells_ok iv h"
    and valid: "check_item_data (fst (config_split cd)) = Inr ()"
  shows "case append_item_from_config_data cd b ns now iv h of (r, iv', h') \<Rightarrow>
    (\<exists>i. r = Inr i \<and> inv_get_item iv' (cd_oid cd) = Some i \<and> it_source i = None \<and>
      it_logic i = cd_logic cd \<and> it_action i = cd_action cd \<and>
      item_state_of h' i =
        (if oid_kind (cd_oid cd) = KLmacro then None
         else Some (deployed_state cd (get_or_generate_state (cd_oid cd) b ns now iv h)))) \<and>
    (\<forall>y j. y \<noteq> cd_oid cd \<longrightarrow> inv_get_item iv y = Some j \<longrightarrow>
      inv_get_item iv' y = Some j \<and> item_state_of h' j = item_state_of h j)"
proof -
  obtain d where d: "append_item_from_config_data cd b ns now iv h =
      (fst (inv_append_item (fst (arc_item d h)) True iv), snd (inv_append_item (fst (arc_item d h)) True iv),
       snd (arc_item d h))"
    and f: "id_oid d = cd_oid cd" "id_source d = None" "id_logic d = cd_logic cd" "id_action d = cd_action cd"
    and st: "id_state d = (if oid_kind (cd_oid cd) = KLmacro then None
      else Some (deployed_state cd (get_or_generate_state (cd_oid cd) b ns now iv h)))"
    by (rule config_data_parts [OF valid])
  have r: "fst (inv_append_item (fst (arc_item d h)) True iv) = Inr (fst (arc_item d h))"
    by (simp add: inv_append_result [OF ok(1)])
  have "item_state_of (snd (arc_item d h)) j = item_state_of h j" if "inv_get_item iv y = Some j" for y j
    using cells_okD(1) [OF ok(2) that] by (simp add: item_state_of_arc)
  then show ?thesis
    using inv_append_get(2) [OF ok(1) r] by (auto simp: d r f st item_state_of_arc)
qed

definition wit_heap :: heap where
  "wit_heap = \<lparr>hp_items = (\<lambda>_. \<lparr>ic_state = Some (state_new 1 (VU8 7) None (IEID 1 5) (Fin 2)), ic_enabled = True\<rparr>),
     hp_sources = (\<lambda>_. \<lparr>sc_online = True, sc_destroyed = False\<rparr>), hp_next = 10\<rparr>"

lemma wit_inv_get:
  "inv_get_item wit_inv x = (if x = OID KSensor ''a/c'' then Some (wit_item KSensor ''a/c'' 0) else None)"
proof -
  have o: "it_oid (wit_item KSensor ''a/c'' 0) = OID KSensor ''a/c''" by (simp add: wit_item_def)
  have "fst (inv_append_item (wit_item KSensor ''a/c'' 0) False inv_new) = Inr (wit_item KSensor ''a/c'' 0)"
    by (simp add: inv_append_result [OF inv_okD(1) [OF inv_new_ok]])
  from inv_append_get(2) [OF inv_okD(1) [OF inv_new_ok] this, of x] show ?thesis
    by (simp add: wit_inv_def o)
qed

lemma wit_cells_ok: "cells_ok wit_inv wit_heap"
  by (auto simp: cells_ok_def wit_inv_get wit_heap_def wit_item_def split: if_splits)

theorem append_item_from_config_data_state_witness:
  "case append_item_from_config_data
       ((config_blank (OID KSensor ''a/c'') ''svc'')\<lparr>cd_status := Some 5\<rparr>) 1 99 (Fin 3) wit_inv wit_heap of
     (r, iv', h') \<Rightarrow> (\<exists>i. r = Inr i \<and> inv_get_item iv' (OID KSensor ''a/c'') = Some i \<and>
       item_state_of h' i = Some (state_new 5 (VU8 7) None (IEID 1 5) (Fin 2)))"
proof -
  define cd where "cd = (config_blank (OID KSensor ''a/c'') ''svc'')\<lparr>cd_status := Some 5\<rparr>"
  have v: "check_item_data (fst (config_split cd)) = Inr ()" by (simp add: cd_def) code_simp
  have st: "deployed_state cd (get_or_generate_state (cd_oid cd) 1 99 (Fin 3) wit_inv wit_heap) =
      state_new 5 (VU8 7) None (IEID 1 5) (Fin 2)"
    by (simp add: cd_def config_blank_def deployed_state_def get_or_generate_state_def wit_inv_get
        item_state_of_def wit_heap_def state_new_def)
  have o: "cd_oid cd = OID KSensor ''a/c''" by (simp add: cd_def config_blank_def)
  from append_item_from_config_data_state [OF inv_okD(1) [OF wit_inv_ok] wit_cells_ok v, of 1 99 "Fin 3"]
  show ?thesis unfolding st by (auto simp: o cd_def [symmetric] split: prod.splits)
qed

end
