(* ===== verification/Act_Mgr.thy ===== *)
theory Act_Mgr
  imports Eva_Types "HOL-Library.Multiset"
begin

text \<open>
  The action manager (\<open>eva/src/actmgr.rs\<close>): the history of local actions, the routes of remote
  actions, the events services send about them, and the cleanup of the history. A mutex
  guards the history only while one operation runs; while a launch waits for its service
  other tasks may change the history, so a launch is two steps (\<open>launch_register\<close> and
  \<open>launch_finish\<close>) of the step relation below. A completion trigger is a flag that is set
  when the trigger is fired. Outcomes of calls to services are arguments.
\<close>

type_synonym uuid = "128 word"

definition DEFAULT_FILTER_LIMIT :: nat where
  "DEFAULT_FILTER_LIMIT = 50"

definition ACTION_COMPLETED :: "8 word" where
  "ACTION_COMPLETED = 15"

text \<open>Ten minutes, in nanoseconds.\<close>

definition DEFAULT_KEEP :: nat where
  "DEFAULT_KEEP = 600000000000"

datatype status_query = SQ_Waiting | SQ_Running | SQ_Completed | SQ_Failed | SQ_Finished

fun sq_matches :: "status_query \<Rightarrow> action_status \<Rightarrow> bool" where
  "sq_matches SQ_Waiting s \<longleftrightarrow> s < AS_Running"
| "sq_matches SQ_Running s \<longleftrightarrow> s = AS_Running"
| "sq_matches SQ_Completed s \<longleftrightarrow> s = AS_Completed"
| "sq_matches SQ_Failed s \<longleftrightarrow> AS_Failed \<le> s"
| "sq_matches SQ_Finished s \<longleftrightarrow> AS_Completed \<le> s"

record remote_action_data =
  ra_node :: string
  ra_svc :: string
  ra_oid :: oid
  ra_started :: nat

datatype action_params = ParamsUnit eva_value | ParamsLmacro eva_value

record action =
  a_uuid :: "uuid option"
  a_i :: oid
  a_status :: action_status
  a_started :: nat
  a_time :: "(action_status, f64) hmap"
  a_timeout :: "nat option"
  a_priority :: "8 word"
  a_params :: action_params
  a_config :: "eva_value option"
  a_node :: "string option"
  a_out :: "eva_value option"
  a_err :: "eva_value option"
  a_exitcode :: "16 word option"
  a_completed :: bool
  a_core_completed :: bool
  a_target :: string
  a_wait :: "f64 option"

record act_filter =
  af_i :: "oid_mask option"
  af_sq :: "status_query option"
  af_svc :: "string option"
  af_time :: "32 word option"
  af_limit :: "nat option"

definition act_filter_default :: act_filter where
  "act_filter_default =
     \<lparr>af_i = None, af_sq = None, af_svc = None, af_time = None, af_limit = Some DEFAULT_FILTER_LIMIT\<rparr>"

definition act_filter_matches :: "eva_lib \<Rightarrow> act_filter \<Rightarrow> action \<Rightarrow> f64 \<Rightarrow> bool" where
  "act_filter_matches L f a ts_now =
     (if (case af_i f of Some msk \<Rightarrow> \<not> lib_mask_match L msk (a_i a) | None \<Rightarrow> False) then False
      else if (case af_sq f of Some sq \<Rightarrow> \<not> sq_matches sq (a_status a) | None \<Rightarrow> False) then False
      else if (case af_svc f of Some svc \<Rightarrow> svc \<noteq> a_target a | None \<Rightarrow> False) then False
      else if (case af_time f of
                 Some t \<Rightarrow>
                   (case hm_get (a_time a) AS_Created of
                      Some created \<Rightarrow>
                        f64_lt created (f64_sub (lib_rnd L) ts_now (Fin (of_nat (unat t))))
                    | None \<Rightarrow> False)
               | None \<Rightarrow> False) then False
      else True)"

record action_info =
  ai_uuid :: "uuid option"
  ai_oid :: oid
  ai_status :: action_status
  ai_time :: "(action_status, f64) hmap"
  ai_priority :: "8 word"
  ai_params :: action_params
  ai_out :: "eva_value option"
  ai_err :: "eva_value option"
  ai_exitcode :: "16 word option"
  ai_node :: string
  ai_svc :: string
  ai_finished :: bool
  ai_started :: nat

definition action_info_from :: "action \<Rightarrow> string \<Rightarrow> action_info" where
  "action_info_from a system_name =
     \<lparr>ai_uuid = a_uuid a, ai_oid = a_i a, ai_status = a_status a, ai_time = a_time a,
      ai_priority = a_priority a, ai_params = a_params a, ai_out = a_out a, ai_err = a_err a,
      ai_exitcode = a_exitcode a, ai_node = unwrap_or system_name (a_node a), ai_svc = a_target a,
      ai_finished = (AS_Completed \<le> a_status a), ai_started = a_started a\<rparr>"

record action_info_owned =
  ao_uuid :: uuid
  ao_oid :: oid
  ao_status :: action_status
  ao_time :: "(action_status, f64) hmap"
  ao_priority :: "8 word"
  ao_params :: action_params
  ao_out :: "eva_value option"
  ao_err :: "eva_value option"
  ao_exitcode :: "16 word option"
  ao_node :: string
  ao_finished :: bool
  ao_svc :: string

definition check_completed :: "action_info_owned \<Rightarrow> bool" where
  "check_completed ao \<longleftrightarrow> ao_status ao = AS_Completed"

record action_args =
  aa_uuid :: "uuid option"
  aa_oid :: oid
  aa_params :: action_params
  aa_timeout :: "nat option"
  aa_priority :: "8 word"
  aa_config :: "eva_value option"
  aa_node :: "string option"
  aa_target :: string
  aa_wait :: "f64 option"

text \<open>\<open>new_uuid\<close> is the value of \<open>Uuid::new_v4()\<close>, \<open>started\<close> of \<open>Instant::now()\<close>.\<close>

definition action_create :: "action_args \<Rightarrow> uuid \<Rightarrow> f64 \<Rightarrow> nat \<Rightarrow> action" where
  "action_create args new_uuid now started =
     (let remote = (aa_node args \<noteq> None)
      in \<lparr>a_uuid = (if aa_uuid args \<noteq> None then aa_uuid args
                    else if remote then None else Some new_uuid),
          a_i = aa_oid args, a_status = AS_Created, a_started = started,
          a_time = hm_insert AS_Created now [], a_timeout = aa_timeout args,
          a_priority = aa_priority args, a_params = aa_params args, a_config = aa_config args,
          a_node = aa_node args, a_out = None, a_err = None, a_exitcode = None,
          a_completed = False, a_core_completed = False, a_target = aa_target args,
          a_wait = (if remote then aa_wait args else None)\<rparr>)"

definition action_mark_failed :: "eva_lib \<Rightarrow> error \<Rightarrow> f64 \<Rightarrow> action \<Rightarrow> action" where
  "action_mark_failed L e now a =
     (if a_status a < AS_Completed then
        a\<lparr>a_status := AS_Failed, a_err := Some (VString (lib_error_text L e)),
          a_time := hm_insert AS_Failed now (a_time a), a_completed := True,
          a_core_completed := True\<rparr>
      else a)"

definition action_mark_accepted :: "f64 \<Rightarrow> action \<Rightarrow> action" where
  "action_mark_accepted now a =
     (let a1 = (if a_status a < AS_Accepted then a\<lparr>a_status := AS_Accepted\<rparr> else a)
      in a1\<lparr>a_time := hm_insert AS_Accepted now (a_time a1)\<rparr>)"

subsection \<open>The manager\<close>

record manager =
  m_actions :: "(uuid, action) hmap"
  m_remote_actions :: "(uuid, remote_action_data) hmap"
  m_keep_for :: nat
  m_rpc :: bool

definition manager_default :: manager where
  "manager_default = \<lparr>m_actions = [], m_remote_actions = [], m_keep_for = DEFAULT_KEEP, m_rpc = False\<rparr>"

definition am_set_rpc :: "manager \<Rightarrow> unit result \<times> manager" where
  "am_set_rpc m = (if m_rpc m then (Inl ECore, m) else (Inr (), m\<lparr>m_rpc := True\<rparr>))"

definition am_set_keep_for :: "nat \<Rightarrow> manager \<Rightarrow> manager" where
  "am_set_keep_for keep_for m = m\<lparr>m_keep_for := keep_for\<rparr>"

record action_event =
  ae_uuid :: uuid
  ae_status :: "8 word"
  ae_out :: "eva_value option"
  ae_err :: "eva_value option"
  ae_exitcode :: "16 word option"

definition process_event :: "eva_lib \<Rightarrow> action_event \<Rightarrow> f64 \<Rightarrow> manager \<Rightarrow> unit result \<times> manager" where
  "process_event L ev now m =
     (case hm_get (m_actions m) (ae_uuid ev) of
        None \<Rightarrow> (Inr (), m)
      | Some a \<Rightarrow>
          (case lib_action_status L (ae_status ev) of
             Inl e \<Rightarrow> (Inl e, m)
           | Inr status \<Rightarrow>
               (let a1 = (if status_code (a_status a) < ae_status ev then
                            (let need_trigger = (ACTION_COMPLETED \<le> ae_status ev \<and>
                                                 status_code (a_status a) < ACTION_COMPLETED);
                                 a' = a\<lparr>a_status := status, a_out := ae_out ev, a_err := ae_err ev,
                                        a_exitcode := ae_exitcode ev\<rparr>
                             in if need_trigger then a'\<lparr>a_completed := True, a_core_completed := True\<rparr>
                                else a')
                          else a);
                    a2 = a1\<lparr>a_time := hm_insert status now (a_time a1)\<rparr>
                in (Inr (), m\<lparr>m_actions := hm_insert (ae_uuid ev) a2 (m_actions m)\<rparr>))))"

text \<open>\<open>perform target method\<close> is the outcome of the call to the service \<open>target\<close>.\<close>

definition terminate_action :: "(string \<Rightarrow> string \<Rightarrow> unit result) \<Rightarrow> uuid \<Rightarrow> manager \<Rightarrow> unit result" where
  "terminate_action perform u m =
     (case hm_get (m_actions m) u of
        None \<Rightarrow> Inl ENotFound
      | Some a \<Rightarrow>
          if AS_Completed \<le> a_status a then Inl EFailed
          else perform (a_target a) ''terminate'')"

definition am_kill_actions :: "(string \<Rightarrow> string \<Rightarrow> unit result) \<Rightarrow> string \<Rightarrow> unit result" where
  "am_kill_actions perform target = perform target ''kill''"

definition params_method :: "action_params \<Rightarrow> string" where
  "params_method p = (case p of ParamsUnit _ \<Rightarrow> ''action'' | ParamsLmacro _ \<Rightarrow> ''run'')"

definition launch_register :: "action \<Rightarrow> manager \<Rightarrow> uuid option result \<times> manager" where
  "launch_register a m =
     (if a_node a \<noteq> None then (Inr None, m)
      else (case a_uuid a of
              None \<Rightarrow> (Inl ECore, m)
            | Some u \<Rightarrow> (Inr (Some u), m\<lparr>m_actions := hm_insert u a (m_actions m)\<rparr>)))"

definition launch_remote ::
    "action \<Rightarrow> string \<Rightarrow> action_info_owned result \<Rightarrow> nat \<Rightarrow> manager \<Rightarrow>
     action_info_owned option result \<times> manager" where
  "launch_remote a node outcome started m =
     (case outcome of
        Inl e \<Rightarrow> (Inl e, m)
      | Inr info \<Rightarrow>
          (let result = info\<lparr>ao_svc := a_target a\<rparr>
           in (Inr (Some result),
               m\<lparr>m_remote_actions :=
                   hm_insert (ao_uuid result)
                     \<lparr>ra_node = node, ra_svc = a_target a, ra_oid = a_i a, ra_started = started\<rparr>
                     (m_remote_actions m)\<rparr>)))"

definition launch_finish ::
    "eva_lib \<Rightarrow> uuid \<Rightarrow> unit result \<Rightarrow> f64 \<Rightarrow> manager \<Rightarrow> action_info_owned option result \<times> manager" where
  "launch_finish L u outcome now m =
     (case hm_get (m_actions m) u of
        None \<Rightarrow> (Inl ECore, m)
      | Some a \<Rightarrow>
          (let a' = (case outcome of Inl e \<Rightarrow> action_mark_failed L e now a
                     | Inr _ \<Rightarrow> action_mark_accepted now a)
           in (Inr None, m\<lparr>m_actions := hm_insert u a' (m_actions m)\<rparr>)))"

text \<open>
  The whole launch. \<open>pk\<close> is the outcome of serializing the action and \<open>during\<close> what other
  tasks do to the manager while the call is pending.
\<close>

definition launch_action ::
    "eva_lib \<Rightarrow> (action \<Rightarrow> unit result) \<Rightarrow> (string \<Rightarrow> string \<Rightarrow> unit result) \<Rightarrow>
     (string \<Rightarrow> string \<Rightarrow> action_info_owned result) \<Rightarrow> (manager \<Rightarrow> manager) \<Rightarrow> f64 \<Rightarrow> nat \<Rightarrow> action \<Rightarrow>
     manager \<Rightarrow> action_info_owned option result \<times> manager" where
  "launch_action L pk perform perform_remote during now started a m =
     (case pk a of
        Inl e \<Rightarrow> (Inl e, m)
      | Inr _ \<Rightarrow>
          (case launch_register a m of
             (Inl e, m1) \<Rightarrow> (Inl e, m1)
           | (Inr uo, m1) \<Rightarrow>
               (case a_node a of
                  Some node \<Rightarrow>
                    launch_remote a node (perform_remote (a_target a) (params_method (a_params a)))
                      started (during m1)
                | None \<Rightarrow>
                    (case uo of
                       Some u \<Rightarrow>
                         launch_finish L u (perform (a_target a) (params_method (a_params a))) now
                           (during m1)
                     | None \<Rightarrow> (Inl ECore, m1)))))"

definition must_be_completed :: "(string \<Rightarrow> string \<Rightarrow> unit result) \<Rightarrow> uuid \<Rightarrow> manager \<Rightarrow> bool \<times> unit result option" where
  "must_be_completed perform u m =
     (case hm_get (m_actions m) u of
        Some a \<Rightarrow>
          if a_status a = AS_Completed then (True, None)
          else if AS_Completed \<le> a_status a then (False, None)
          else (False, Some (terminate_action perform u m))
      | None \<Rightarrow> (False, None))"

text \<open>The info is returned to the client before it is packed.\<close>

definition get_action_info ::
    "(remote_action_data \<Rightarrow> action_info_owned result) \<Rightarrow> uuid \<Rightarrow> string \<Rightarrow> manager \<Rightarrow>
     (action_info + action_info_owned) option result" where
  "get_action_info perform_remote u system_name m =
     (case hm_get (m_actions m) u of
        Some a \<Rightarrow> Inr (Some (Inl (action_info_from a system_name)))
      | None \<Rightarrow>
          (case hm_get (m_remote_actions m) u of
             None \<Rightarrow> Inr None
           | Some ra \<Rightarrow>
               (case perform_remote ra of
                  Inl e \<Rightarrow> Inl e
                | Inr info \<Rightarrow> Inr (Some (Inr (info\<lparr>ao_svc := ra_svc ra\<rparr>))))))"

definition get_actions_filtered :: "eva_lib \<Rightarrow> act_filter \<Rightarrow> string \<Rightarrow> f64 \<Rightarrow> manager \<Rightarrow> action_info list" where
  "get_actions_filtered L f system_name ts_now m =
     (let act = filter (\<lambda>a. act_filter_matches L f a ts_now) (hm_values (m_actions m));
          res = sort_key ai_started (map (\<lambda>a. action_info_from a system_name) act);
          limit = unwrap_or DEFAULT_FILTER_LIMIT (af_limit f)
      in if limit < length res then drop (length res - limit) res else res)"

definition mark_action_timed_out :: "eva_lib \<Rightarrow> uuid \<Rightarrow> f64 \<Rightarrow> manager \<Rightarrow> manager" where
  "mark_action_timed_out L u now m =
     (case hm_get (m_actions m) u of
        Some a \<Rightarrow> m\<lparr>m_actions := hm_insert u (action_mark_failed L ETimeout now a) (m_actions m)\<rparr>
      | None \<Rightarrow> m)"

definition cleanup_action_history :: "nat \<Rightarrow> nat \<Rightarrow> manager \<Rightarrow> manager" where
  "cleanup_action_history keep_for t m =
     m\<lparr>m_actions := hm_retain (\<lambda>_ v. t < a_started v + keep_for \<or> a_status v < AS_Completed) (m_actions m),
       m_remote_actions := hm_retain (\<lambda>_ v. t < ra_started v + keep_for) (m_remote_actions m)\<rparr>"

subsection \<open>The invariant\<close>

text \<open>
  A stored action is stored under its own uuid, it is local, and its completion triggers are
  fired exactly if its status is a final one.
\<close>

definition action_ok :: "uuid \<Rightarrow> action \<Rightarrow> bool" where
  "action_ok u a \<longleftrightarrow>
     a_uuid a = Some u \<and> a_node a = None \<and>
     (a_completed a \<longleftrightarrow> AS_Completed \<le> a_status a) \<and>
     (a_core_completed a \<longleftrightarrow> AS_Completed \<le> a_status a) \<and>
     hm_wf (a_time a) \<and> hm_contains (a_time a) AS_Created"

definition am_ok :: "manager \<Rightarrow> bool" where
  "am_ok m \<longleftrightarrow>
     hm_wf (m_actions m) \<and> hm_wf (m_remote_actions m) \<and>
     (\<forall>(u, a) \<in> set (m_actions m). action_ok u a)"

text \<open>The atomic steps of the tasks that share the manager.\<close>

inductive am_step :: "eva_lib \<Rightarrow> manager \<Rightarrow> manager \<Rightarrow> bool" for L where
  register: "am_step L m (snd (launch_register (action_create args new_uuid now started) m))"
| finish: "am_step L m (snd (launch_finish L u outcome now m))"
| remote: "am_step L m (snd (launch_remote a node res started m))"
| event: "am_step L m (snd (process_event L ev now m))"
| timed_out: "am_step L m (mark_action_timed_out L u now m)"
| cleanup: "am_step L m (cleanup_action_history keep_for t m)"
| set_keep_for: "am_step L m (am_set_keep_for k m)"
| set_rpc: "am_step L m (snd (am_set_rpc m))"

inductive am_reach :: "eva_lib \<Rightarrow> manager \<Rightarrow> bool" for L where
  init: "am_reach L manager_default"
| step: "am_reach L m \<Longrightarrow> am_step L m m' \<Longrightarrow> am_reach L m'"

inductive_cases am_stepE: "am_step L m m'"

named_theorems am_defs \<open>definitions of the operations on actions\<close>

declare action_mark_failed_def [am_defs] action_mark_accepted_def [am_defs] Let_def [am_defs]

lemma hm_contains_insert:
  "hm_wf t \<Longrightarrow> hm_contains (hm_insert k v t) j \<longleftrightarrow> j = k \<or> hm_contains t j"
  by (simp add: hm_contains_def hm.get_insert)

lemma status_final: "AS_Completed \<le> AS_Failed" "\<not> AS_Completed \<le> AS_Created" "\<not> AS_Completed \<le> AS_Accepted"
  "AS_Accepted < AS_Completed"
  by (simp_all add: action_status_order not_le)

lemma action_create_ok:
  "a_node (action_create args nu now st) = None \<Longrightarrow> a_uuid (action_create args nu now st) = Some u \<Longrightarrow>
    action_ok u (action_create args nu now st)"
  by (auto simp: action_ok_def action_create_def Let_def status_final hm.wf_insert hm_contains_insert)

lemma mark_failed_ok: "action_ok u a \<Longrightarrow> action_ok u (action_mark_failed L e now a)"
  by (auto simp: action_ok_def am_defs status_final hm.wf_insert hm_contains_insert)

lemma not_accepted_not_final: "s < AS_Accepted \<Longrightarrow> \<not> AS_Completed \<le> s"
  using status_final(4) by (meson less_trans not_le)

lemma mark_accepted_ok: "action_ok u a \<Longrightarrow> action_ok u (action_mark_accepted now a)"
  by (auto simp: action_ok_def am_defs status_final hm.wf_insert hm_contains_insert not_accepted_not_final)

text \<open>The action an event leaves behind.\<close>

definition event_action :: "action_event \<Rightarrow> action_status \<Rightarrow> f64 \<Rightarrow> action \<Rightarrow> action" where
  "event_action ev status now a =
     (if a_status a < status then
        (let a' = a\<lparr>a_status := status, a_out := ae_out ev, a_err := ae_err ev, a_exitcode := ae_exitcode ev\<rparr>
         in if a_status a < AS_Completed \<and> AS_Completed \<le> status
            then a'\<lparr>a_completed := True, a_core_completed := True, a_time := hm_insert status now (a_time a)\<rparr>
            else a'\<lparr>a_time := hm_insert status now (a_time a)\<rparr>)
      else a\<lparr>a_time := hm_insert status now (a_time a)\<rparr>)"

lemma process_event_action:
  assumes "action_status_conv L"
  shows "process_event L ev now m =
    (case hm_get (m_actions m) (ae_uuid ev) of
       None \<Rightarrow> (Inr (), m)
     | Some a \<Rightarrow>
         (case lib_action_status L (ae_status ev) of
            Inl e \<Rightarrow> (Inl e, m)
          | Inr status \<Rightarrow>
              (Inr (), m\<lparr>m_actions := hm_insert (ae_uuid ev) (event_action ev status now a) (m_actions m)\<rparr>)))"
proof -
  have code: "ae_status ev = status_code s" if "lib_action_status L (ae_status ev) = Inr s" for s
    using assms that by (simp add: action_status_conv_def)
  have ac: "ACTION_COMPLETED = status_code AS_Completed" by (simp add: ACTION_COMPLETED_def)
  show ?thesis
  proof (cases "hm_get (m_actions m) (ae_uuid ev)")
    case (Some a)
    show ?thesis
    proof (cases "lib_action_status L (ae_status ev)")
      case (Inr s)
      have "lib_action_status L (status_code s) = Inr s" using assms by (simp add: action_status_conv_def)
      then show ?thesis
        unfolding process_event_def event_action_def Let_def ac action_status_order code [OF Inr]
        by (auto simp: Some)
    qed (simp add: process_event_def Some)
  qed (simp add: process_event_def)
qed

lemma event_action_ok: "action_ok u a \<Longrightarrow> action_ok u (event_action ev status now a)"
  by (auto simp: action_ok_def event_action_def Let_def hm.wf_insert hm_contains_insert not_le
      dest: less_trans)

lemma am_ok_get: "am_ok m \<Longrightarrow> hm_get (m_actions m) u = Some a \<Longrightarrow> action_ok u a"
  by (auto simp: am_ok_def hm.entries_get [symmetric])

lemma am_ok_insert:
  "am_ok m \<Longrightarrow> action_ok u a \<Longrightarrow> am_ok (m\<lparr>m_actions := hm_insert u a (m_actions m)\<rparr>)"
  by (auto simp: am_ok_def hm.wf_insert hm.entries_insert)

lemma am_step_ok:
  assumes "am_step L m m'" and "am_ok m" and "action_status_conv L"
  shows "am_ok m'"
  using assms(1)
proof cases
  case register
  then show ?thesis
    using assms(2) action_create_ok
    by (auto simp: launch_register_def intro!: am_ok_insert split: option.split)
next
  case finish
  then show ?thesis
    using assms(2) by (auto simp: launch_finish_def Let_def intro!: am_ok_insert mark_failed_ok mark_accepted_ok
        dest: am_ok_get split: option.split sum.split)
next
  case remote
  then show ?thesis
    using assms(2) by (auto simp: launch_remote_def Let_def am_ok_def hm.wf_insert split: sum.split)
next
  case event
  then show ?thesis
    using assms(2) by (auto simp: process_event_action [OF assms(3)] intro!: am_ok_insert event_action_ok
        dest: am_ok_get split: option.split sum.split)
next
  case timed_out
  then show ?thesis
    using assms(2) by (auto simp: mark_action_timed_out_def intro!: am_ok_insert mark_failed_ok
        dest: am_ok_get split: option.split)
next
  case cleanup
  then show ?thesis
    using assms(2) by (auto simp: cleanup_action_history_def am_ok_def hm_wf_retain set_hm_retain)
next
  case set_keep_for
  then show ?thesis using assms(2) by (simp add: am_set_keep_for_def am_ok_def)
next
  case set_rpc
  then show ?thesis using assms(2) by (simp add: am_set_rpc_def am_ok_def)
qed

lemma am_reach_ok:
  assumes "am_reach L m" and "action_status_conv L"
  shows "am_ok m"
  using assms(1)
proof induction
  case init
  show ?case by (simp add: manager_default_def am_ok_def)
next
  case (step m m')
  then show ?case using am_step_ok assms(2) by blast
qed

subsection \<open>Progress of actions\<close>

text \<open>The status only grows, and the result of a step is about the same action.\<close>

definition progress :: "action \<Rightarrow> action \<Rightarrow> bool" where
  "progress a a' \<longleftrightarrow>
     a_status a \<le> a_status a' \<and> (a_completed a \<longrightarrow> a_completed a') \<and>
     a_uuid a' = a_uuid a \<and> a_i a' = a_i a \<and> a_target a' = a_target a \<and> a_params a' = a_params a \<and>
     a_started a' = a_started a"

lemma progress_refl [simp]: "progress a a"
  by (simp add: progress_def)

lemma progress_trans: "progress a b \<Longrightarrow> progress b c \<Longrightarrow> progress a c"
  by (auto simp: progress_def)

lemma less_Completed_le_Failed: "s < AS_Completed \<Longrightarrow> s \<le> AS_Failed"
  using status_final(1) by order

lemma progress_ops [intro]:
  "progress a (action_mark_failed L e now a)"
  "progress a (action_mark_accepted now a)"
  "progress a (event_action ev status now a)"
  by (auto simp: progress_def am_defs event_action_def less_Completed_le_Failed)


definition wit_args :: action_args where
  "wit_args = \<lparr>aa_uuid = Some 7, aa_oid = OID KUnit ''a'', aa_params = ParamsUnit VUnit, aa_timeout = None,
     aa_priority = 100, aa_config = None, aa_node = None, aa_target = ''svc'', aa_wait = None\<rparr>"

definition wit_manager :: manager where
  "wit_manager = snd (process_event std_lib
     \<lparr>ae_uuid = 7, ae_status = 15, ae_out = None, ae_err = None, ae_exitcode = Some 0\<rparr> (Fin 2)
     (snd (launch_register (action_create wit_args 0 (Fin 1) 10) manager_default)))"

lemmas wit_defs = wit_args_def action_create_def launch_register_def process_event_def manager_default_def
  std_action_status_def ACTION_COMPLETED_def hm_get_def hm_insert_def Let_def

lemma wit_manager_reach: "am_reach std_lib wit_manager"
  unfolding wit_manager_def
  by (rule am_reach.step [OF am_reach.step [OF am_reach.init am_step.register] am_step.event])

lemma wit_manager_get:
  "map_option a_status (hm_get (m_actions wit_manager) 7) = Some AS_Completed"
  by (simp add: wit_manager_def wit_defs)


text \<open>
  While a launch waits for the service, events about the action may already arrive. When
  the call returns, the launch does not override them: an accepted call raises the status to
  accepted at most, a failed call marks the action as failed only if it is not finished yet,
  and then fires its triggers; output, error and exit code of a finished action are kept.
\<close>

theorem launch_keeps_results:
  assumes "a_node a = None" and "a_uuid a = Some u" and "pk a = Inr ()"
    and "hm_wf (m_actions (during (snd (launch_register a m))))"
    and "hm_get (m_actions (during (snd (launch_register a m)))) u = Some b"
  shows "case launch_action L pk perform perform_remote during now started a m of (r, m') \<Rightarrow>
    r = Inr None \<and>
    (\<exists>c. hm_get (m_actions m') u = Some c \<and> progress b c \<and> a_out c = a_out b \<and> a_exitcode c = a_exitcode b \<and>
      (case perform (a_target a) (params_method (a_params a)) of
         Inr _ \<Rightarrow> a_status c = max (a_status b) AS_Accepted \<and> a_err c = a_err b \<and> a_completed c = a_completed b
       | Inl e \<Rightarrow>
           if AS_Completed \<le> a_status b then c = b
           else a_status c = AS_Failed \<and> a_err c = Some (VString (lib_error_text L e)) \<and>
             a_completed c \<and> a_core_completed c)) \<and>
    (\<forall>v. v \<noteq> u \<longrightarrow> hm_get (m_actions m') v = hm_get (m_actions (during (snd (launch_register a m)))) v)"
proof -
  let ?d = "during (snd (launch_register a m))"
  have "launch_action L pk perform perform_remote during now started a m =
      launch_finish L u (perform (a_target a) (params_method (a_params a))) now ?d"
    using assms(1-3) by (simp add: launch_action_def launch_register_def)
  moreover have "a_status (action_mark_accepted now b) = max (a_status b) AS_Accepted"
    by (auto simp: am_defs max_def not_le)
  ultimately show ?thesis
    using assms(5) progress_ops(1,2) [of b]
    by (auto simp: launch_finish_def am_defs hm.get_insert [OF assms(4)] not_le split: sum.split)
qed

definition wit_event :: action_event where
  "wit_event = \<lparr>ae_uuid = 7, ae_status = 15, ae_out = Some VUnit, ae_err = None, ae_exitcode = Some 0\<rparr>"

theorem launch_keeps_results_witness:
  "case launch_action std_lib (\<lambda>_. Inr ()) (\<lambda>_ _. Inl ETimeout) (\<lambda>_ _. Inl EBus)
       (\<lambda>m. snd (process_event std_lib wit_event (Fin 2) m)) (Fin 3) 11
       (action_create wit_args 0 (Fin 1) 10) manager_default of
     (r, m') \<Rightarrow> r = Inr None \<and>
       (\<exists>c. hm_get (m_actions m') 7 = Some c \<and> a_status c = AS_Completed \<and> a_out c = Some VUnit)"
proof -
  define a where "a = action_create wit_args 0 (Fin 1) 10"
  define during where "during = (\<lambda>m. snd (process_event std_lib wit_event (Fin 2) m))"
  let ?m = "during (snd (launch_register a manager_default))"
  have a: "a_node a = None" "a_uuid a = Some 7" by (simp_all add: a_def wit_defs)
  have "am_reach std_lib ?m"
    unfolding a_def during_def
    by (rule am_reach.step [OF am_reach.step [OF am_reach.init am_step.register] am_step.event])
  then have wf: "hm_wf (m_actions ?m)"
    using am_reach_ok [OF _ std_lib_action_status_conv] by (simp add: am_ok_def)
  have "map_option (\<lambda>b. (a_status b, a_out b)) (hm_get (m_actions ?m) 7) = Some (AS_Completed, Some VUnit)"
    by (simp add: a_def during_def wit_event_def wit_defs)
  then obtain b where b: "hm_get (m_actions ?m) 7 = Some b" "a_status b = AS_Completed" "a_out b = Some VUnit"
    by auto
  have "case launch_action std_lib (\<lambda>_. Inr ()) (\<lambda>_ _. Inl ETimeout) (\<lambda>_ _. Inl EBus) during (Fin 3) 11 a manager_default of
    (r, m') \<Rightarrow> r = Inr None \<and> hm_get (m_actions m') 7 = Some b"
    using launch_keeps_results [where L = std_lib and pk = "\<lambda>_. Inr ()" and perform = "\<lambda>_ _. Inl ETimeout"
        and perform_remote = "\<lambda>_ _. Inl EBus" and now = "Fin 3" and started = 11 and during = during
        and a = a and m = manager_default, OF a refl wf b(1)] b(2)
    by auto
  then show ?thesis
    using b unfolding a_def [symmetric] during_def [symmetric] by (auto split: prod.splits)
qed

text \<open>
  A filtered list of actions is sorted by start time and holds the newest matching
  actions: at most \<open>limit\<close> of them, all of them if they are not more, and no action it leaves
  out is newer than one it returns.
\<close>

theorem get_actions_filtered_newest:
  defines "matching \<equiv> \<lambda>L f name ts m. image_mset (\<lambda>a. action_info_from a name)
    (filter_mset (\<lambda>a. act_filter_matches L f a ts) (mset (hm_values (m_actions m))))"
  shows "\<exists>left_out.
    mset (get_actions_filtered L f name ts m) + left_out = matching L f name ts m \<and>
    length (get_actions_filtered L f name ts m) =
      min (unwrap_or DEFAULT_FILTER_LIMIT (af_limit f)) (size (matching L f name ts m)) \<and>
    sorted (map ai_started (get_actions_filtered L f name ts m)) \<and>
    (\<forall>x \<in># left_out. \<forall>y \<in> set (get_actions_filtered L f name ts m). ai_started x \<le> ai_started y)"
proof -
  define res where "res = sort_key ai_started (map (\<lambda>a. action_info_from a name)
    (filter (\<lambda>a. act_filter_matches L f a ts) (hm_values (m_actions m))))"
  define n where "n = length res - unwrap_or DEFAULT_FILTER_LIMIT (af_limit f)"
  have r: "get_actions_filtered L f name ts m = drop n res"
    by (auto simp: get_actions_filtered_def res_def n_def Let_def)
  have all: "matching L f name ts m = mset res" by (simp add: matching_def res_def)
  have srt: "sorted (map ai_started (take n res @ drop n res))" by (simp add: res_def)
  then have le: "\<forall>x \<in> set (take n res). \<forall>y \<in> set (drop n res). ai_started x \<le> ai_started y"
    unfolding map_append sorted_append by auto
  have "mset (drop n res) + mset (take n res) = mset res"
    by (metis add.commute append_take_drop_id mset_append)
  moreover have "length (drop n res) = min (unwrap_or DEFAULT_FILTER_LIMIT (af_limit f)) (size (mset res))"
    by (simp add: n_def)
  moreover have "sorted (map ai_started (drop n res))" using srt unfolding map_append sorted_append by simp
  ultimately show ?thesis
    unfolding r all using le by (intro exI [of _ "mset (take n res)"] conjI) simp_all
qed

theorem get_actions_filtered_newest_witness:
  "length (get_actions_filtered std_lib (act_filter_default\<lparr>af_sq := Some SQ_Finished\<rparr>) ''n'' (Fin 5) wit_manager) = 1"
proof -
  have "size (filter_mset (\<lambda>a. act_filter_matches std_lib (act_filter_default\<lparr>af_sq := Some SQ_Finished\<rparr>) a (Fin 5))
      (mset (hm_values (m_actions wit_manager)))) = 1"
    by (simp add: wit_manager_def wit_defs hm_values_def act_filter_matches_def act_filter_default_def)
  then show ?thesis
    using get_actions_filtered_newest [of std_lib "act_filter_default\<lparr>af_sq := Some SQ_Finished\<rparr>" "''n''" "Fin 5" wit_manager]
    by (auto simp: act_filter_default_def DEFAULT_FILTER_LIMIT_def)
qed

end
