(* ===== verification/Core_Base.thy ===== *)
theory Core_Base
  imports Inventory Act_Mgr
begin

text \<open>
  The core (\<open>eva/src/core.rs\<close>): its state, the announcements on the bus, the saving of states and
  configurations, and the creation, deployment and destruction of local items. Every
  operation is a function on the whole core state. What the outside world answers is read
  from an environment at the core's step counter: the clocks, the outcome of a publication,
  the outcome of a registry or database write, the serialization of a configuration.
  Published frames and storage operations are kept as logs.
\<close>

subsection \<open>Configuration\<close>

definition sender_allowed_auto_create_strict :: "string \<Rightarrow> bool" where
  "sender_allowed_auto_create_strict sender \<longleftrightarrow>
     str_contains sender ''.controller.'' \<or> str_contains sender ''.llc.'' \<or>
     str_contains sender ''.plc.'' \<or> str_ends_with sender ''.plc'' \<or>
     str_ends_with sender ''.program''"

datatype auto_create =
    AC_Strict bool
  | AC_BySingleSender string
  | AC_BySender "string list"

fun auto_create_allowed :: "auto_create \<Rightarrow> string \<Rightarrow> bool" where
  "auto_create_allowed (AC_Strict v) sender \<longleftrightarrow> v \<and> sender_allowed_auto_create_strict sender"
| "auto_create_allowed (AC_BySingleSender v) sender \<longleftrightarrow>
     v = ''*'' \<or> v = ''#'' \<or> str_contains sender v"
| "auto_create_allowed (AC_BySender v) sender \<longleftrightarrow>
     list_ex (\<lambda>s. s = ''*'' \<or> s = ''#'') v \<or> list_ex (\<lambda>s. str_contains sender s) v"

datatype instant_save = IS_Strict bool | IS_ByMask "oid_mask list"

fun instant_save_matches :: "eva_lib \<Rightarrow> instant_save \<Rightarrow> oid \<Rightarrow> bool" where
  "instant_save_matches L (IS_Strict v) x \<longleftrightarrow> v"
| "instant_save_matches L (IS_ByMask ml) x \<longleftrightarrow> lib_masks_match L ml x"

subsection \<open>The environment and the state\<close>

record core_env =
  en_now :: "nat \<Rightarrow> f64"
  en_ns :: "nat \<Rightarrow> 64 word"
  en_bus :: "nat \<Rightarrow> unit result"
  en_reg :: "nat \<Rightarrow> unit result"
  en_ser :: "item \<Rightarrow> bool \<Rightarrow> eva_value result"

datatype payload = LocalStatePl local_state_event | RemoteStatePl remote_state_event

datatype frame = Frame (fr_topic: string) (fr_receiver: "string option") (fr_payload: payload)

datatype store_op =
    SaveState oid db_state
  | SaveConfig oid eva_value
  | DeleteState oid
  | DeleteConfig oid

record core =
  c_boot_id :: "64 word"
  c_system_name :: string
  c_instant_save :: instant_save
  c_auto_create :: auto_create
  c_source_sensors :: bool
  c_timeout :: nat
  c_active :: bool
  c_inventory :: inventory
  c_heap :: heap
  c_inv_db :: bool
  c_state_db_tx :: bool
  c_inv_process :: "string list"
  c_scheduled_saves :: "oid list"
  c_initial_announced :: bool
  c_action_manager :: manager
  c_nodes :: "(string, node_data) hmap"
  c_bus :: "frame list"
  c_store :: "store_op list"
  c_tick :: nat

definition tick :: "core \<Rightarrow> core" where
  "tick c = c\<lparr>c_tick := Suc (c_tick c)\<rparr>"

definition now_of :: "core_env \<Rightarrow> core \<Rightarrow> f64" where
  "now_of E c = en_now E (c_tick c)"

definition generate_ieid :: "core_env \<Rightarrow> core \<Rightarrow> ieid" where
  "generate_ieid E c = IEID (c_boot_id c) (en_ns E (c_tick c))"

subsection \<open>Announcements\<close>

definition LOCAL_STATE_TOPIC :: string where
  "LOCAL_STATE_TOPIC = ''ST/LOC/''"

definition REMOTE_STATE_TOPIC :: string where
  "REMOTE_STATE_TOPIC = ''ST/REM/''"

definition REMOTE_ARCHIVE_STATE_TOPIC :: string where
  "REMOTE_ARCHIVE_STATE_TOPIC = ''ST/RAR/''"

definition publish :: "core_env \<Rightarrow> frame \<Rightarrow> core \<Rightarrow> unit result \<times> core" where
  "publish E f c =
     (case en_bus E (c_tick c) of
        Inl e \<Rightarrow> (Inl e, tick c)
      | Inr _ \<Rightarrow> (Inr (), tick (c\<lparr>c_bus := c_bus c @ [f]\<rparr>)))"

definition announce_local_state :: "core_env \<Rightarrow> oid \<Rightarrow> local_state_event \<Rightarrow> core \<Rightarrow> unit result \<times> core" where
  "announce_local_state E x st c =
     publish E (Frame (LOCAL_STATE_TOPIC @ oid_as_path x) None (LocalStatePl st)) c"

definition announce_local_state_for ::
    "core_env \<Rightarrow> oid \<Rightarrow> local_state_event \<Rightarrow> string \<Rightarrow> core \<Rightarrow> unit result \<times> core" where
  "announce_local_state_for E x st receiver c =
     publish E (Frame (LOCAL_STATE_TOPIC @ oid_as_path x) (Some receiver) (LocalStatePl st)) c"

definition announce_remote_state ::
    "core_env \<Rightarrow> oid \<Rightarrow> remote_state_event \<Rightarrow> bool \<Rightarrow> core \<Rightarrow> unit result \<times> core" where
  "announce_remote_state E x st current c =
     publish E (Frame ((if current then REMOTE_STATE_TOPIC else REMOTE_ARCHIVE_STATE_TOPIC) @ oid_as_path x)
       None (RemoteStatePl st)) c"

definition announce_remote_state_for ::
    "core_env \<Rightarrow> oid \<Rightarrow> remote_state_event \<Rightarrow> bool \<Rightarrow> string \<Rightarrow> core \<Rightarrow> unit result \<times> core" where
  "announce_remote_state_for E x st current receiver c =
     publish E (Frame ((if current then REMOTE_STATE_TOPIC else REMOTE_ARCHIVE_STATE_TOPIC) @ oid_as_path x)
       (Some receiver) (RemoteStatePl st)) c"

subsection \<open>Storage\<close>

definition store_write :: "core_env \<Rightarrow> store_op list \<Rightarrow> core \<Rightarrow> unit result \<times> core" where
  "store_write E ops c =
     (case en_reg E (c_tick c) of
        Inl e \<Rightarrow> (Inl e, tick c)
      | Inr _ \<Rightarrow> (Inr (), tick (c\<lparr>c_store := c_store c @ ops\<rparr>)))"

text \<open>
  A state is pushed to the database writer, which always accepts it, or written to the
  registry, where a failure is only logged.
\<close>

definition push_state :: "oid \<Rightarrow> db_state \<Rightarrow> core \<Rightarrow> core" where
  "push_state x st c = c\<lparr>c_store := c_store c @ [SaveState x st]\<rparr>"

definition save_item_state :: "core_env \<Rightarrow> oid \<Rightarrow> db_state \<Rightarrow> core \<Rightarrow> core" where
  "save_item_state E x st c =
     (if c_inv_db c then push_state x st c else snd (store_write E [SaveState x st] c))"

definition save_item_config :: "core_env \<Rightarrow> oid \<Rightarrow> eva_value \<Rightarrow> core \<Rightarrow> unit result \<times> core" where
  "save_item_config E x cfg c = store_write E [SaveConfig x cfg] c"

definition destroy_inventory_item :: "core_env \<Rightarrow> oid \<Rightarrow> core \<Rightarrow> unit result \<times> core" where
  "destroy_inventory_item E x c =
     (if c_inv_db c then store_write E [DeleteState x, DeleteConfig x] c
      else
        (case store_write E [DeleteState x] c of
           (Inl e, c1) \<Rightarrow> (Inl e, c1)
         | (Inr _, c1) \<Rightarrow> store_write E [DeleteConfig x] c1))"

definition prepare_state_data ::
    "eva_lib \<Rightarrow> item \<Rightarrow> item_state \<Rightarrow> core \<Rightarrow> local_state_event \<times> db_state option" where
  "prepare_state_data L i st c =
     (let s_st = local_state_event_of st
      in (s_st,
          if is_bytes (lse_value s_st) then None
          else if instant_save_matches L (c_instant_save c) (it_oid i) then Some (db_state_of st)
          else None))"

definition schedule_save :: "oid \<Rightarrow> core \<Rightarrow> core" where
  "schedule_save x c = c\<lparr>c_scheduled_saves := hs_insert x (c_scheduled_saves c)\<rparr>"

definition unschedule_save :: "oid \<Rightarrow> core \<Rightarrow> core" where
  "unschedule_save x c = c\<lparr>c_scheduled_saves := hs_remove x (c_scheduled_saves c)\<rparr>"

text \<open>
  A failed announcement is only logged. The channel of the database writer is unbounded, what
  is sent to it is written in order.
\<close>

definition process_new_state ::
    "core_env \<Rightarrow> oid \<Rightarrow> local_state_event \<Rightarrow> db_state option \<Rightarrow> core \<Rightarrow> core" where
  "process_new_state E x s_state db_st c =
     (let c1 = snd (announce_local_state E x s_state c)
      in case db_st of
           Some db_state \<Rightarrow> if c_state_db_tx c1 then push_state x db_state c1 else c1
         | None \<Rightarrow> schedule_save x c1)"

definition lock_source :: "string \<Rightarrow> core \<Rightarrow> bool \<times> core" where
  "lock_source source_id c =
     (if source_id \<in> set (c_inv_process c) then (False, c)
      else (True, c\<lparr>c_inv_process := hs_insert source_id (c_inv_process c)\<rparr>))"

definition unlock_source :: "string \<Rightarrow> core \<Rightarrow> core" where
  "unlock_source source_id c = c\<lparr>c_inv_process := hs_remove source_id (c_inv_process c)\<rparr>"

definition save_one :: "core_env \<Rightarrow> oid \<Rightarrow> core \<Rightarrow> core" where
  "save_one E x c =
     (case Option.bind (inv_get_item (c_inventory c) x) (item_db_state (c_heap c)) of
        Some s_state \<Rightarrow> save_item_state E x s_state c
      | None \<Rightarrow> c)"

definition core_save :: "core_env \<Rightarrow> core \<Rightarrow> core" where
  "core_save E c = fold (save_one E) (c_scheduled_saves c) (c\<lparr>c_scheduled_saves := []\<rparr>)"

subsection \<open>Local items\<close>

text \<open>Announces and saves the current state of an item that has one.\<close>

definition announce_item_state :: "eva_lib \<Rightarrow> core_env \<Rightarrow> item \<Rightarrow> core \<Rightarrow> core" where
  "announce_item_state L E i c =
     (case item_state_of (c_heap c) i of
        Some st \<Rightarrow>
          (let (s_state, db_st) = prepare_state_data L i st c
           in process_new_state E (it_oid i) s_state db_st c)
      | None \<Rightarrow> c)"

definition create_local_item :: "eva_lib \<Rightarrow> core_env \<Rightarrow> oid \<Rightarrow> core \<Rightarrow> item result \<times> core" where
  "create_local_item L E x c =
     (let ieid = (if oid_kind x = KLmacro then None else Some (generate_ieid E c));
          (r, iv', h') = create_item x ieid None (now_of E c) (c_inventory c) (c_heap c);
          c1 = tick (c\<lparr>c_inventory := iv', c_heap := h'\<rparr>)
      in case r of
           Inl e \<Rightarrow> (Inl e, c1)
         | Inr i \<Rightarrow>
             (case item_config (en_ser E) (c_heap c1) i of
                Inl e \<Rightarrow> (Inl e, c1)
              | Inr cfg \<Rightarrow>
                  (case save_item_config E (it_oid i) cfg c1 of
                     (Inl e, c2) \<Rightarrow> (Inl e, c2)
                   | (Inr _, c2) \<Rightarrow> (Inr i, announce_item_state L E i c2))))"

definition destroy_one :: "core_env \<Rightarrow> item \<Rightarrow> core \<Rightarrow> core" where
  "destroy_one E i c =
     (let c1 = c\<lparr>c_inventory := snd (inv_remove_item (it_oid i) (c_inventory c))\<rparr>;
          c2 = unschedule_save (it_oid i) c1
      in snd (destroy_inventory_item E (it_oid i) c2))"

definition destroy_local_items :: "eva_lib \<Rightarrow> core_env \<Rightarrow> oid_mask \<Rightarrow> core \<Rightarrow> core" where
  "destroy_local_items L E msk c =
     fold (destroy_one E)
       (inv_get_items_by_mask L (c_inventory c) msk (filter_node NF_Local filter_default) True) c"

text \<open>One configuration of a deployment, up to the configuration of the new item.\<close>

definition deploy_append :: "core_env \<Rightarrow> item_config_data \<Rightarrow> core \<Rightarrow> (item \<times> eva_value) result \<times> core" where
  "deploy_append E cd c =
     (let (r, iv', h') = append_item_from_config_data cd (c_boot_id c) (en_ns E (c_tick c))
            (now_of E c) (c_inventory c) (c_heap c);
          c1 = tick (c\<lparr>c_inventory := iv', c_heap := h'\<rparr>)
      in case r of
           Inl e \<Rightarrow> (Inl e, c1)
         | Inr i \<Rightarrow>
             (case item_config (en_ser E) (c_heap c1) i of
                Inl e \<Rightarrow> (Inl e, c1)
              | Inr cfg \<Rightarrow> (Inr (i, cfg), c1)))"

fun deploy_append_all ::
    "core_env \<Rightarrow> item_config_data list \<Rightarrow> core \<Rightarrow> (oid \<times> eva_value) list result \<times> core" where
  "deploy_append_all E [] c = (Inr [], c)"
| "deploy_append_all E (cd # cds) c =
     (case deploy_append E cd c of
        (Inl e, c1) \<Rightarrow> (Inl e, c1)
      | (Inr (i, cfg), c1) \<Rightarrow>
          (case deploy_append_all E cds c1 of
             (Inl e, c2) \<Rightarrow> (Inl e, c2)
           | (Inr rest, c2) \<Rightarrow> (Inr ((it_oid i, cfg) # rest), c2)))"

text \<open>With the inventory database the state is announced and scheduled, and pushed if it is to
  be saved at once.\<close>

definition deploy_announce_db :: "eva_lib \<Rightarrow> core_env \<Rightarrow> oid \<Rightarrow> core \<Rightarrow> core" where
  "deploy_announce_db L E x c =
     (case inv_get_item (c_inventory c) x of
        None \<Rightarrow> c
      | Some i \<Rightarrow>
          (case item_state_of (c_heap c) i of
             None \<Rightarrow> c
           | Some st \<Rightarrow>
               (let (s_state, db_st) = prepare_state_data L i st c;
                    c1 = process_new_state E (it_oid i) s_state None c
                in case db_st of Some db_state \<Rightarrow> push_state x db_state c1 | None \<Rightarrow> c1)))"

fun deploy_each :: "eva_lib \<Rightarrow> core_env \<Rightarrow> item_config_data list \<Rightarrow> core \<Rightarrow> unit result \<times> core" where
  "deploy_each L E [] c = (Inr (), c)"
| "deploy_each L E (cd # cds) c =
     (case deploy_append E cd c of
        (Inl e, c1) \<Rightarrow> (Inl e, c1)
      | (Inr (i, cfg), c1) \<Rightarrow>
          (case save_item_config E (it_oid i) cfg c1 of
             (Inl e, c2) \<Rightarrow> (Inl e, c2)
           | (Inr _, c2) \<Rightarrow> deploy_each L E cds (announce_item_state L E i c2)))"

definition deploy_local_items ::
    "eva_lib \<Rightarrow> core_env \<Rightarrow> item_config_data list \<Rightarrow> core \<Rightarrow> unit result \<times> core" where
  "deploy_local_items L E configs c =
     (if c_inv_db c then
        (case deploy_append_all E configs c of
           (Inl e, c1) \<Rightarrow> (Inl e, c1)
         | (Inr configs_to_save, c1) \<Rightarrow>
             (case store_write E (map (\<lambda>(x, cfg). SaveConfig x cfg) configs_to_save) c1 of
                (Inl e, c2) \<Rightarrow> (Inl e, c2)
              | (Inr _, c2) \<Rightarrow>
                  (Inr (), fold (deploy_announce_db L E) (map fst configs_to_save) c2)))
      else deploy_each L E configs c)"

text \<open>
  \<open>oids\<close> are the identifiers of the deserialized list. With the inventory database only
  removed items are unscheduled, and their records are deleted in one go at the end.
\<close>

definition undeploy_one :: "core_env \<Rightarrow> oid \<Rightarrow> core \<Rightarrow> core" where
  "undeploy_one E x c =
     (let (r, iv') = inv_remove_item x (c_inventory c);
          c1 = c\<lparr>c_inventory := iv'\<rparr>;
          c2 = (if r \<noteq> None then snd (destroy_inventory_item E x c1) else c1)
      in unschedule_save x c2)"

definition undeploy_one_db :: "oid \<Rightarrow> oid list \<times> core \<Rightarrow> oid list \<times> core" where
  "undeploy_one_db x s =
     (let (acc, c) = s;
          (r, iv') = inv_remove_item x (c_inventory c);
          c1 = c\<lparr>c_inventory := iv'\<rparr>
      in if r \<noteq> None then (acc @ [x], unschedule_save x c1) else (acc, c1))"

definition undeploy_local_items :: "core_env \<Rightarrow> oid list result \<Rightarrow> core \<Rightarrow> unit result \<times> core" where
  "undeploy_local_items E oids c =
     (case oids of
        Inl e \<Rightarrow> (Inl e, c)
      | Inr xs \<Rightarrow>
          if c_inv_db c then
            (let (to_destroy, c1) = fold undeploy_one_db xs ([], c)
             in (Inr (), snd (store_write E
                   (concat (map (\<lambda>x. [DeleteState x, DeleteConfig x]) to_destroy)) c1)))
          else (Inr (), fold (undeploy_one E) xs c))"

subsection \<open>Frame lemmas\<close>

text \<open>
  Announcing and saving change the logs, the step counter and the scheduled saves only; the
  items, their states and the configuration stay as they are.
\<close>

definition same_items :: "core \<Rightarrow> core \<Rightarrow> bool" where
  "same_items c c' \<longleftrightarrow>
     c_inventory c' = c_inventory c \<and> c_heap c' = c_heap c \<and> c_boot_id c' = c_boot_id c \<and>
     c_auto_create c' = c_auto_create c \<and> c_instant_save c' = c_instant_save c \<and>
     c_system_name c' = c_system_name c \<and> c_inv_db c' = c_inv_db c \<and> c_state_db_tx c' = c_state_db_tx c \<and>
     c_nodes c' = c_nodes c \<and> c_inv_process c' = c_inv_process c \<and>
     c_action_manager c' = c_action_manager c \<and> c_active c' = c_active c \<and>
     c_source_sensors c' = c_source_sensors c \<and> c_timeout c' = c_timeout c \<and>
     c_initial_announced c' = c_initial_announced c"

lemma same_items_refl [simp]: "same_items c c"
  by (simp add: same_items_def)

lemma same_items_trans: "same_items a b \<Longrightarrow> same_items b c \<Longrightarrow> same_items a c"
  by (simp add: same_items_def)

lemma same_itemsD:
  assumes "same_items c c'"
  shows "c_inventory c' = c_inventory c" "c_heap c' = c_heap c" "c_boot_id c' = c_boot_id c"
    "c_auto_create c' = c_auto_create c" "c_instant_save c' = c_instant_save c" "c_inv_db c' = c_inv_db c"
    "c_state_db_tx c' = c_state_db_tx c" "c_system_name c' = c_system_name c"
  using assms by (simp_all add: same_items_def)

lemma tick_fields [simp]:
  "c_inventory (tick c) = c_inventory c" "c_heap (tick c) = c_heap c" "c_bus (tick c) = c_bus c"
  "c_store (tick c) = c_store c" "c_scheduled_saves (tick c) = c_scheduled_saves c"
  "c_boot_id (tick c) = c_boot_id c" "c_tick (tick c) = Suc (c_tick c)" "c_inv_db (tick c) = c_inv_db c"
  "c_auto_create (tick c) = c_auto_create c" "c_instant_save (tick c) = c_instant_save c"
  "c_state_db_tx (tick c) = c_state_db_tx c" "c_nodes (tick c) = c_nodes c"
  "c_inv_process (tick c) = c_inv_process c" "c_action_manager (tick c) = c_action_manager c"
  by (simp_all add: tick_def)

lemma same_tick [simp]: "same_items c (tick c)"
  by (simp add: same_items_def tick_def)

lemma same_publish [simp]: "same_items c (snd (publish E f c))"
  by (simp add: publish_def same_items_def tick_def split: sum.split)

lemma same_announce [simp]:
  "same_items c (snd (announce_local_state E x st c))"
  "same_items c (snd (announce_remote_state E x rst cur c))"
  "same_items c (snd (announce_local_state_for E x st r c))"
  "same_items c (snd (announce_remote_state_for E x rst cur r c))"
  by (simp_all add: announce_local_state_def announce_remote_state_def announce_local_state_for_def
      announce_remote_state_for_def)

lemma same_store_write [simp]: "same_items c (snd (store_write E ops c))"
  by (simp add: store_write_def same_items_def tick_def split: sum.split)

lemma same_push_state [simp]: "same_items c (push_state x st c)"
  by (simp add: push_state_def same_items_def)

lemma same_schedule [simp]: "same_items c (schedule_save x c)" "same_items c (unschedule_save x c)"
  by (simp_all add: schedule_save_def unschedule_save_def same_items_def)

lemma same_save_item_state [simp]: "same_items c (save_item_state E x st c)"
  by (simp add: save_item_state_def)

lemma same_save_item_config [simp]: "same_items c (snd (save_item_config E x cfg c))"
  by (simp add: save_item_config_def)

lemma same_process_new_state [simp]: "same_items c (process_new_state E x s db c)"
proof -
  note to = same_items_trans [OF same_announce(1) [of c E x s]]
  show ?thesis
    unfolding process_new_state_def Let_def
    using to [OF same_push_state] to [OF same_schedule(1)] by (simp split: option.split)
qed

lemma same_announce_item_state [simp]: "same_items c (announce_item_state L E i c)"
  by (auto simp: announce_item_state_def split: option.split prod.split)

lemma same_destroy_inventory_item [simp]: "same_items c (snd (destroy_inventory_item E x c))"
proof (cases "c_inv_db c")
  case False
  obtain r c1 where r: "store_write E [DeleteState x] c = (r, c1)" by (cases "store_write E [DeleteState x] c")
  have "same_items c c1" using same_store_write [of c E "[DeleteState x]"] r by simp
  then show ?thesis
    using False r same_items_trans [OF _ same_store_write]
    by (auto simp: destroy_inventory_item_def split: sum.split)
qed (simp add: destroy_inventory_item_def)

interpretation same: state_relation "\<lambda>_. True" same_items
  by unfold_locales (auto intro: same_items_trans)

lemma same_fold:
  assumes "\<And>x c. same_items c (f x c)"
  shows "same_items c (fold f xs c)"
  by (rule same.rel_fold) (simp_all add: assms)

lemma same_save_one [simp]: "same_items c (save_one E x c)"
  by (simp add: save_one_def split: option.split)

lemma same_core_save: "same_items c (core_save E c)"
proof -
  have "same_items c (c\<lparr>c_scheduled_saves := []\<rparr>)" by (simp add: same_items_def)
  then show ?thesis unfolding core_save_def by (rule same_items_trans [OF _ same_fold]) simp
qed

lemma same_deploy_announce_db [simp]: "same_items c (deploy_announce_db L E x c)"
proof (cases "inv_get_item (c_inventory c) x")
  case (Some i)
  show ?thesis
  proof (cases "item_state_of (c_heap c) i")
    case st: (Some st)
    have "same_items c (push_state x db (process_new_state E (it_oid i) s None c))" for db s
      by (rule same_items_trans [OF same_process_new_state same_push_state])
    then show ?thesis
      using Some st by (auto simp: deploy_announce_db_def prepare_state_data_def Let_def)
  qed (simp add: deploy_announce_db_def Some)
qed (simp add: deploy_announce_db_def)

subsection \<open>The invariant of the core\<close>

text \<open>
  Registered items can be looked up, have cells of their own, and have a state exactly if
  they are not logic macros.
\<close>

definition states_ok :: "inventory \<Rightarrow> heap \<Rightarrow> bool" where
  "states_ok iv h \<longleftrightarrow>
     (\<forall>x i. inv_get_item iv x = Some i \<longrightarrow> (item_state_of h i = None \<longleftrightarrow> oid_kind x = KLmacro))"

definition core_ok :: "core \<Rightarrow> bool" where
  "core_ok c \<longleftrightarrow>
     inv_lookup_ok (c_inventory c) \<and> cells_ok (c_inventory c) (c_heap c) \<and>
     states_ok (c_inventory c) (c_heap c)"

lemma core_okD:
  assumes "core_ok c"
  shows "inv_lookup_ok (c_inventory c)" "cells_ok (c_inventory c) (c_heap c)"
    "states_ok (c_inventory c) (c_heap c)"
  using assms by (simp_all add: core_ok_def)

lemma core_ok_same: "same_items c c' \<Longrightarrow> core_ok c' \<longleftrightarrow> core_ok c"
  by (simp add: core_ok_def same_items_def)

text \<open>
  The parts of the core the invariant is about, so that it can be shown on the functions of
  the inventory.
\<close>

definition items_ok :: "inventory \<Rightarrow> heap \<Rightarrow> bool" where
  "items_ok iv h \<longleftrightarrow> inv_lookup_ok iv \<and> cells_ok iv h \<and> states_ok iv h"

lemma core_ok_items: "core_ok c \<longleftrightarrow> items_ok (c_inventory c) (c_heap c)"
  by (simp add: core_ok_def items_ok_def)

lemma items_ok_write:
  assumes "items_ok iv h" and "inv_get_item iv x = Some i" and "item_state_of h i = Some st0"
  shows "items_ok iv (item_write_state i st h)"
proof -
  have "states_ok iv (item_write_state i st h)"
    unfolding states_ok_def
  proof (intro allI impI)
    fix y j
    assume j: "inv_get_item iv y = Some j"
    show "item_state_of (item_write_state i st h) j = None \<longleftrightarrow> oid_kind y = KLmacro"
    proof (cases "it_cell j = it_cell i")
      case True
      then have "y = x" using assms(1,2) j by (auto simp: items_ok_def dest: cells_okD(2))
      moreover have "oid_kind x \<noteq> KLmacro"
        using assms unfolding items_ok_def states_ok_def by (metis option.distinct(1))
      ultimately show ?thesis using True by (simp add: item_state_of_write)
    next
      case False
      then show ?thesis using assms(1) j by (auto simp: items_ok_def states_ok_def item_state_of_write)
    qed
  qed
  then show ?thesis
    using assms(1) cells_ok_grow [of iv h "item_write_state i st h"]
    by (simp add: items_ok_def item_write_state_def)
qed

lemma items_ok_grow:
  "items_ok iv h \<Longrightarrow> hp_items h' = hp_items h \<Longrightarrow> hp_next h \<le> hp_next h' \<Longrightarrow> items_ok iv h'"
  using cells_ok_grow by (auto simp: items_ok_def states_ok_def item_state_of_def)

lemma items_ok_append:
  assumes ok: "items_ok iv h" and d: "id_state d = None \<longleftrightarrow> oid_kind (id_oid d) = KLmacro"
  shows "items_ok (snd (inv_append_item (fst (arc_item d h)) replace iv)) (snd (arc_item d h))"
proof -
  let ?i = "fst (arc_item d h)" and ?h = "snd (arc_item d h)"
  note lk = ok [unfolded items_ok_def]
  have old: "item_state_of ?h j = item_state_of h j" if "inv_get_item iv y = Some j" for y j
    using cells_okD(1) [of iv h y j] lk that by (simp add: item_state_of_arc)
  have "states_ok (snd (inv_append_item ?i replace iv)) ?h"
  proof (cases "fst (inv_append_item ?i replace iv)")
    case (Inl e)
    then show ?thesis using inv_append_refused lk old by (simp add: states_ok_def)
  next
    case (Inr j)
    then show ?thesis
      using inv_append_get(2) [OF _ Inr] lk old d by (auto simp: states_ok_def item_state_of_arc split: if_splits)
  qed
  then show ?thesis
    using lk inv_append_lookup_ok cells_ok_append [of iv h ?i ?h] by (simp add: items_ok_def)
qed

lemma items_ok_remove: "items_ok iv h \<Longrightarrow> items_ok (snd (inv_remove_item x iv)) h"
  using ivs.remove_ok [of iv x] ivs.remove_get [of iv x] cells_ok_remove [of iv h x]
  by (auto simp: items_ok_def states_ok_def split: if_splits)

lemma items_ok_create:
  assumes "items_ok iv h" and "create_item x ieid from now iv h = (r, iv', h')"
  shows "items_ok iv' h'"
proof -
  obtain src h1 where src: "source_from from iv h = (src, h1)" by (cases "source_from from iv h")
  have "hp_items h1 = hp_items h" "hp_next h \<le> hp_next h1"
    using src by (auto simp: source_from_def create_source_def Let_def split: option.splits)
  then have ok1: "items_ok iv h1" using items_ok_grow [OF assms(1)] by simp
  show ?thesis
  proof (cases "oid_kind x = KLmacro \<or> ieid \<noteq> None")
    case True
    define st where "st = (if oid_kind x = KLmacro then None else map_option (\<lambda>ie. state_new0 ie (oid_kind x) now) ieid)"
    let ?d = "\<lparr>id_oid = x, id_state = st, id_meta = None, id_source = src, id_enabled = True,
      id_logic = None, id_action = None\<rparr>"
    have "iv' = snd (inv_append_item (fst (arc_item ?d h1)) False iv)" "h' = snd (arc_item ?d h1)"
      using assms(2) True by (auto simp: create_item_def src st_def split: prod.splits if_splits)
    moreover have "st = None \<longleftrightarrow> oid_kind x = KLmacro" using True by (auto simp: st_def)
    ultimately show ?thesis using items_ok_append [OF ok1, of ?d False] by simp
  next
    case False
    then show ?thesis using assms(2) ok1 by (auto simp: create_item_def src)
  qed
qed

lemma items_ok_config:
  assumes "items_ok iv h" and "append_item_from_config_data cd b ns now iv h = (r, iv', h')"
  shows "items_ok iv' h'"
proof (cases "check_item_data (fst (config_split cd))")
  case (Inl e)
  then show ?thesis
    using assms by (auto simp: append_item_from_config_data_def Let_def split: prod.splits)
next
  case (Inr u)
  then have v: "check_item_data (fst (config_split cd)) = Inr ()" by simp
  obtain d where "append_item_from_config_data cd b ns now iv h =
      (fst (inv_append_item (fst (arc_item d h)) True iv), snd (inv_append_item (fst (arc_item d h)) True iv),
       snd (arc_item d h))" "id_state d = None \<longleftrightarrow> oid_kind (id_oid d) = KLmacro"
    using config_data_parts [OF v, of b ns now iv h] by (metis option.distinct(1))
  then show ?thesis using items_ok_append [OF assms(1)] assms(2) by auto
qed

lemma items_ok_remote:
  assumes "items_ok iv h" and "append_remote_item ri src iv h = (r, iv', h')"
  shows "items_ok iv' h'"
proof (cases "from_repl_item ri src")
  case (Inl e)
  then show ?thesis using assms by (simp add: append_remote_item_def)
next
  case (Inr d)
  then show ?thesis
    using items_ok_append [OF assms(1), of d True] from_repl_item_ok [OF Inr] assms(2)
    by (auto simp: append_remote_item_def split: prod.splits)
qed

subsection \<open>Preservation\<close>

lemma core_ok_update: "items_ok iv h \<Longrightarrow> core_ok (tick (c\<lparr>c_inventory := iv, c_heap := h\<rparr>))"
  by (simp add: core_ok_items tick_def)

lemma core_ok_inventory: "items_ok iv (c_heap c) \<Longrightarrow> core_ok (c\<lparr>c_inventory := iv\<rparr>)"
  by (simp add: core_ok_items)

lemma core_ok_via: "core_ok c \<Longrightarrow> same_items c c' \<Longrightarrow> core_ok c'"
  by (simp add: core_ok_same)

lemma create_local_item_ok:
  assumes "core_ok c"
  shows "core_ok (snd (create_local_item L E x c))"
proof -
  obtain r iv' h' where cr: "create_item x (if oid_kind x = KLmacro then None else Some (generate_ieid E c)) None
      (now_of E c) (c_inventory c) (c_heap c) = (r, iv', h')" by (metis prod_cases3)
  define c1 where "c1 = tick (c\<lparr>c_inventory := iv', c_heap := h'\<rparr>)"
  have ok1: "core_ok c1"
    unfolding c1_def using items_ok_create [OF _ cr] assms by (simp add: core_ok_items core_ok_update)
  show ?thesis
  proof (cases r)
    case (Inr i)
    show ?thesis
    proof (cases "item_config (en_ser E) h' i")
      case cfg: (Inr cfg)
      obtain r2 c2 where r2: "save_item_config E (it_oid i) cfg c1 = (r2, c2)" by fastforce
      have "core_ok c2" using core_ok_via [OF ok1 same_save_item_config [of c1 E "it_oid i" cfg]] r2 by simp
      then show ?thesis
        using core_ok_via [OF _ same_announce_item_state] Inr cfg r2
        by (simp add: create_local_item_def cr c1_def [symmetric] split: sum.split)
    qed (use Inr ok1 in \<open>simp add: create_local_item_def cr c1_def [symmetric]\<close>)
  qed (use ok1 in \<open>simp add: create_local_item_def cr c1_def [symmetric]\<close>)
qed

lemma destroy_one_items:
  "c_inventory (destroy_one E i c) = snd (inv_remove_item (it_oid i) (c_inventory c))"
  "c_heap (destroy_one E i c) = c_heap c"
  using same_itemsD(1,2) [OF same_destroy_inventory_item] same_itemsD(1,2) [OF same_schedule(2)]
  by (simp_all add: destroy_one_def Let_def)

lemma destroy_one_saves:
  "set (c_scheduled_saves (destroy_one E i c)) = set (c_scheduled_saves c) - {it_oid i}"
  by (simp add: destroy_one_def Let_def destroy_inventory_item_def store_write_def unschedule_save_def
      split: sum.split prod.split)

lemma destroy_one_ok: "core_ok c \<Longrightarrow> core_ok (destroy_one E i c)"
  using items_ok_remove [of "c_inventory c" "c_heap c"] by (simp add: core_ok_items destroy_one_items)

lemma destroy_fold:
  assumes "core_ok c"
  shows "core_ok (fold (destroy_one E) is c) \<and> c_heap (fold (destroy_one E) is c) = c_heap c \<and>
    (\<forall>x. inv_get_item (c_inventory (fold (destroy_one E) is c)) x =
      (if x \<in> it_oid ` set is then None else inv_get_item (c_inventory c) x))"
  using assms
proof (induction "is" arbitrary: c)
  case (Cons i "is")
  then show ?case
    using Cons.IH [OF destroy_one_ok [OF Cons.prems]] ivs.remove_get [OF core_okD(1) [OF Cons.prems]]
    by (auto simp: destroy_one_items)
qed simp

lemma deploy_append_ok:
  assumes "core_ok c"
  shows "core_ok (snd (deploy_append E cd c))"
proof -
  obtain r iv' h' where ap: "append_item_from_config_data cd (c_boot_id c) (en_ns E (c_tick c))
            (now_of E c) (c_inventory c) (c_heap c) = (r, iv', h')" by (metis prod_cases3)
  have "core_ok (tick (c\<lparr>c_inventory := iv', c_heap := h'\<rparr>))"
    using items_ok_config [OF _ ap] assms by (simp add: core_ok_items core_ok_update)
  then show ?thesis by (auto simp: deploy_append_def ap Let_def split: sum.split)
qed

lemma deploy_append_all_ok:
  assumes "core_ok c"
  shows "core_ok (snd (deploy_append_all E cds c))"
  using assms
proof (induction cds arbitrary: c)
  case (Cons cd cds)
  obtain r c1 where r: "deploy_append E cd c = (r, c1)" by fastforce
  have "core_ok c1" using deploy_append_ok [OF Cons.prems, of E cd] r by simp
  then have "core_ok (snd (deploy_append_all E cds c1))" by (rule Cons.IH)
  then show ?case using r \<open>core_ok c1\<close> by (auto split: prod.split sum.split)
qed simp

lemma deploy_each_ok:
  assumes "core_ok c"
  shows "core_ok (snd (deploy_each L E cds c))"
  using assms
proof (induction cds arbitrary: c)
  case (Cons cd cds)
  obtain r c1 where r: "deploy_append E cd c = (r, c1)" by fastforce
  have ok1: "core_ok c1" using deploy_append_ok [OF Cons.prems, of E cd] r by simp
  show ?case
  proof (cases r)
    case (Inr p)
    obtain i cfg where p: "p = (i, cfg)" by (cases p)
    obtain r2 c2 where r2: "save_item_config E (it_oid i) cfg c1 = (r2, c2)" by fastforce
    have "core_ok c2" using core_ok_via [OF ok1 same_save_item_config [of c1 E "it_oid i" cfg]] r2 by simp
    then show ?thesis
      using Cons.IH core_ok_via [OF _ same_announce_item_state] r Inr p r2 by (auto split: sum.split)
  qed (use r ok1 in simp)
qed simp

lemma deploy_local_items_ok:
  assumes "core_ok c"
  shows "core_ok (snd (deploy_local_items L E configs c))"
proof (cases "c_inv_db c")
  case True
  obtain r c1 where r: "deploy_append_all E configs c = (r, c1)" by fastforce
  have ok1: "core_ok c1" using deploy_append_all_ok [OF assms, of E configs] r by simp
  show ?thesis
  proof (cases r)
    case (Inr ps)
    let ?ops = "map (\<lambda>(x, cfg). SaveConfig x cfg) ps"
    obtain r2 c2 where r2: "store_write E ?ops c1 = (r2, c2)" by fastforce
    have ok2: "core_ok c2" using core_ok_via [OF ok1 same_store_write [of c1 E ?ops]] r2 by simp
    have "core_ok (fold (deploy_announce_db L E) xs c2)" for xs
      by (rule core_ok_via [OF ok2 same_fold]) simp
    then show ?thesis using True r Inr r2 ok2 by (auto simp: deploy_local_items_def split: sum.split)
  qed (use True r ok1 in \<open>simp add: deploy_local_items_def\<close>)
qed (simp add: deploy_local_items_def deploy_each_ok [OF assms])

lemma undeploy_one_items:
  "c_inventory (undeploy_one E x c) = snd (inv_remove_item x (c_inventory c))"
  "c_heap (undeploy_one E x c) = c_heap c"
  using same_itemsD(1,2) [OF same_destroy_inventory_item] same_itemsD(1,2) [OF same_schedule(2)]
  by (simp_all add: undeploy_one_def Let_def split_beta)

lemma undeploy_fold_ok:
  assumes "core_ok c"
  shows "core_ok (fold (undeploy_one E) xs c)"
  using assms
proof (induction xs arbitrary: c)
  case (Cons x xs)
  have "core_ok (undeploy_one E x c)"
    using Cons.prems items_ok_remove [of "c_inventory c" "c_heap c"]
    by (simp add: core_ok_items undeploy_one_items)
  then show ?case using Cons.IH by simp
qed simp

end
