(* ===== verification/Core_Local.thy ===== *)
theory Core_Local
  imports Core_Base
begin

text \<open>
  Local items of the core: what deployment, destruction and saving do to the inventory, the
  states and the storage (\<open>deploy_local_items\<close>, \<open>undeploy_local_items\<close>, \<open>destroy_local_items\<close> and
  \<open>save\<close> of \<open>eva/src/core.rs\<close>).
\<close>

definition core_item :: "core \<Rightarrow> oid \<Rightarrow> item option" where
  "core_item c x = inv_get_item (c_inventory c) x"

definition core_state :: "core \<Rightarrow> oid \<Rightarrow> item_state option" where
  "core_state c x = Option.bind (core_item c x) (item_state_of (c_heap c))"

lemma core_item_same: "same_items c c' \<Longrightarrow> core_item c' x = core_item c x"
  and core_state_same: "same_items c c' \<Longrightarrow> core_state c' x = core_state c x"
  by (simp_all add: core_state_def core_item_def same_items_def)

subsection \<open>Destruction\<close>

definition local_match :: "eva_lib \<Rightarrow> oid_mask \<Rightarrow> core \<Rightarrow> oid \<Rightarrow> bool" where
  "local_match L msk c x \<longleftrightarrow>
     (case core_item c x of Some i \<Rightarrow> it_source i = None \<and> mask_matches L msk x | None \<Rightarrow> False)"

text \<open>
  C29: destroying local items by a mask unregisters exactly the local items that match it,
  macros included, and takes them off the scheduled saves; remote items and the other local
  items stay registered with their states.
\<close>

theorem destroy_local_items_exact:
  assumes "core_ok c"
  shows "core_ok (destroy_local_items L E msk c) \<and>
    core_item (destroy_local_items L E msk c) x = (if local_match L msk c x then None else core_item c x) \<and>
    core_state (destroy_local_items L E msk c) x = (if local_match L msk c x then None else core_state c x) \<and>
    set (c_scheduled_saves (destroy_local_items L E msk c)) = {y \<in> set (c_scheduled_saves c). \<not> local_match L msk c y}"
proof -
  define sel where "sel = inv_get_items_by_mask L (c_inventory c) msk (filter_node NF_Local filter_default) True"
  have imok: "im_ok (inv_items (c_inventory c))" using core_okD(1) [OF assms(1)] by (simp add: inv_lookup_ok_def)
  have sel: "i \<in> set sel \<longleftrightarrow> core_item c (it_oid i) = Some i \<and> it_source i = None \<and> mask_matches L msk (it_oid i)" for i
    unfolding sel_def inv_get_items_by_mask_def using mask_selects [OF imok, of i L msk]
    by (auto simp: core_item_def inv_get_item_def filter_matches_def filter_node_def filter_default_def
        node_filter_passes_def)
  have doomed: "x \<in> it_oid ` set sel \<longleftrightarrow> local_match L msk c x" for x
  proof
    assume "x \<in> it_oid ` set sel"
    then show "local_match L msk c x" using sel by (auto simp: local_match_def)
  next
    assume m: "local_match L msk c x"
    then obtain i where i: "core_item c x = Some i" by (auto simp: local_match_def split: option.splits)
    then have "it_oid i = x" using ivs.get_oid [OF core_okD(1) [OF assms(1)]] by (simp add: core_item_def)
    then show "x \<in> it_oid ` set sel" using sel [of i] i m by (force simp: local_match_def)
  qed
  note f = destroy_fold [OF assms(1), of E sel]
  have saves: "set (c_scheduled_saves (fold (destroy_one E) is d)) = set (c_scheduled_saves d) - it_oid ` set is" for "is" d
    by (induction "is" arbitrary: d) (auto simp: destroy_one_saves)
  have "core_item (destroy_local_items L E msk c) x = (if local_match L msk c x then None else core_item c x)"
    using f doomed by (simp add: destroy_local_items_def sel_def [symmetric] core_item_def)
  moreover from this have "core_state (destroy_local_items L E msk c) x =
      (if local_match L msk c x then None else core_state c x)"
    using f by (simp add: destroy_local_items_def sel_def [symmetric] core_state_def)
  moreover have "set (c_scheduled_saves (destroy_local_items L E msk c)) =
      {y \<in> set (c_scheduled_saves c). \<not> local_match L msk c y}"
    unfolding destroy_local_items_def sel_def [symmetric] saves using doomed by blast
  ultimately show ?thesis using f by (simp add: destroy_local_items_def sel_def [symmetric])
qed

text \<open>A core with one local sensor, for evaluation.\<close>

definition wit_env :: core_env where
  "wit_env = \<lparr>en_now = (\<lambda>n. Fin (of_nat (100 + n))), en_ns = (\<lambda>n. of_nat (1000 + n)), en_bus = (\<lambda>_. Inr ()),
     en_reg = (\<lambda>_. Inr ()), en_ser = (\<lambda>_ _. Inr VUnit)\<rparr>"

definition wit_core :: core where
  "wit_core = \<lparr>c_boot_id = 3, c_system_name = ''plant1'', c_instant_save = IS_Strict False,
     c_auto_create = AC_Strict True, c_source_sensors = False, c_timeout = 5, c_active = True,
     c_inventory = wit_inv, c_heap = wit_heap, c_inv_db = False, c_state_db_tx = True, c_inv_process = [],
     c_scheduled_saves = [], c_initial_announced = True, c_action_manager = manager_default, c_nodes = [],
     c_bus = [], c_store = [], c_tick = 0\<rparr>"

lemma wit_core_fields [simp]:
  "c_inventory wit_core = wit_inv" "c_heap wit_core = wit_heap" "c_boot_id wit_core = 3"
  "c_scheduled_saves wit_core = []" "c_bus wit_core = []" "c_inv_db wit_core = False"
  by (simp_all add: wit_core_def)

lemma wit_core_ok: "core_ok wit_core"
  using inv_okD(1) [OF wit_inv_ok] wit_cells_ok
  by (auto simp: core_ok_def states_ok_def wit_inv_get item_state_of_def wit_heap_def split: if_splits)

lemma wit_core_item:
  "core_item wit_core x = (if x = OID KSensor ''a/c'' then Some (wit_item KSensor ''a/c'' 0) else None)"
  by (simp add: core_item_def wit_inv_get)

theorem destroy_local_items_exact_witness:
  "core_item (destroy_local_items std_lib wit_env \<lparr>mask_kind = None, mask_chunks = None\<rparr> wit_core)
     (OID KSensor ''a/c'') = None"
proof -
  have "local_match std_lib \<lparr>mask_kind = None, mask_chunks = None\<rparr> wit_core (OID KSensor ''a/c'')"
    by (simp add: local_match_def wit_core_item mask_matches_def wit_item_def)
  then show ?thesis using destroy_local_items_exact [OF wit_core_ok] by simp
qed

subsection \<open>Deployment\<close>

lemma deploy_append_effect:
  assumes ok: "core_ok c" and r: "deploy_append E cd c = (r, c')"
  shows "y \<noteq> cd_oid cd \<Longrightarrow> core_item c' y = core_item c y \<and> core_state c' y = core_state c y"
    and "r = Inr (i, cfg) \<Longrightarrow> core_item c' (cd_oid cd) = Some i \<and> it_source i = None \<and> it_logic i = cd_logic cd \<and>
      it_oid i = cd_oid cd"
    and "check_item_data (fst (config_split cd)) = Inl e \<Longrightarrow> r = Inl e \<and> c' = tick c"
    and "core_item c' (cd_oid cd) = Some j \<Longrightarrow>
      core_item c (cd_oid cd) = Some j \<and> core_state c' (cd_oid cd) = core_state c (cd_oid cd) \<or>
      it_source j = None \<and> it_logic j = cd_logic cd"
proof -
  let ?ap = "append_item_from_config_data cd (c_boot_id c) (en_ns E (c_tick c)) (now_of E c) (c_inventory c) (c_heap c)"
  obtain r1 iv' h' where ap: "?ap = (r1, iv', h')" by (metis prod_cases3)
  have c': "c' = tick (c\<lparr>c_inventory := iv', c_heap := h'\<rparr>)"
    and r1: "r = Inr (i, cfg) \<Longrightarrow> r1 = Inr i"
    using r by (auto simp: deploy_append_def ap Let_def split: sum.splits)
  show "r = Inl e \<and> c' = tick c" if "check_item_data (fst (config_split cd)) = Inl e"
  proof -
    have "?ap = (Inl e, c_inventory c, c_heap c)"
      using that by (auto simp: append_item_from_config_data_def split: prod.split)
    then show ?thesis using r by (simp add: deploy_append_def Let_def)
  qed
  show "core_item c' y = core_item c y \<and> core_state c' y = core_state c y" if "y \<noteq> cd_oid cd"
    using config_data_frame [OF core_okD(1,2) [OF ok] ap that] by (simp add: c' core_state_def core_item_def)
  show "core_item c (cd_oid cd) = Some j \<and> core_state c' (cd_oid cd) = core_state c (cd_oid cd) \<or>
      it_source j = None \<and> it_logic j = cd_logic cd" if j: "core_item c' (cd_oid cd) = Some j"
  proof (cases r1)
    case (Inl e)
    then have "iv' = c_inventory c \<and> h' = c_heap c"
      by (rule config_data_refused [OF core_okD(1) [OF ok] ap])
    then show ?thesis using j by (simp add: c' core_state_def core_item_def)
  next
    case (Inr k)
    then show ?thesis
      using config_data_result [OF core_okD(1) [OF ok] ap Inr] j by (simp add: c' core_item_def)
  qed
  show "core_item c' (cd_oid cd) = Some i \<and> it_source i = None \<and> it_logic i = cd_logic cd \<and> it_oid i = cd_oid cd"
    if "r = Inr (i, cfg)"
    using config_data_result [OF core_okD(1) [OF ok] ap, of i] r1 [OF that] by (simp add: c' core_item_def)
qed

lemma deploy_append_succeeds:
  assumes "core_ok c" and "check_item_data (fst (config_split cd)) = Inr ()" and "en_ser E = (\<lambda>_ _. Inr v)"
  shows "\<exists>i. fst (deploy_append E cd c) = Inr (i, v)"
proof -
  obtain d where d: "append_item_from_config_data cd (c_boot_id c) (en_ns E (c_tick c)) (now_of E c)
      (c_inventory c) (c_heap c) = (fst (inv_append_item (fst (arc_item d (c_heap c))) True (c_inventory c)),
       snd (inv_append_item (fst (arc_item d (c_heap c))) True (c_inventory c)), snd (arc_item d (c_heap c)))"
    and src: "id_source d = None"
    using config_data_parts [OF assms(2), of "c_boot_id c" "en_ns E (c_tick c)" "now_of E c" "c_inventory c" "c_heap c"]
    by metis
  then show ?thesis
    using inv_append_result [OF core_okD(1) [OF assms(1)]] assms(3)
    by (simp add: deploy_append_def item_config_def Let_def)
qed

text \<open>What a deployment of a list of configurations may change, and what it has to leave behind.\<close>

definition deployed :: "item_config_data list \<Rightarrow> core \<Rightarrow> bool \<Rightarrow> core \<Rightarrow> bool" where
  "deployed cds c done c' \<longleftrightarrow>
     core_ok c' \<and>
     (\<forall>y. y \<notin> cd_oid ` set cds \<longrightarrow> core_item c' y = core_item c y \<and> core_state c' y = core_state c y) \<and>
     (\<forall>x i. core_item c' x = Some i \<longrightarrow>
        core_item c x = Some i \<and> core_state c' x = core_state c x \<or>
        (\<exists>cd \<in> set cds. cd_oid cd = x \<and> it_source i = None \<and> it_logic i = cd_logic cd)) \<and>
     (done \<longrightarrow> (\<forall>x \<in> cd_oid ` set cds. \<exists>i. core_item c' x = Some i \<and> it_source i = None)) \<and>
     c_auto_create c' = c_auto_create c"

lemma deployed_same: "deployed cds c d c1 \<Longrightarrow> same_items c1 c2 \<Longrightarrow> deployed cds c d c2"
  using core_item_same [of c1 c2] core_state_same [of c1 c2] core_ok_same [of c1 c2] same_itemsD(4) [of c1 c2]
  by (simp add: deployed_def)

lemma deployed_first:
  assumes "core_ok c" and "deploy_append E cd c = (r, c1)"
  shows "deployed [cd] c (is_ok r) c1"
proof -
  have "core_ok c1" using deploy_append_ok [OF assms(1), of E cd] assms(2) by simp
  moreover have "core_item c1 x = Some i \<longrightarrow> core_item c x = Some i \<and> core_state c1 x = core_state c x \<or>
      cd_oid cd = x \<and> it_source i = None \<and> it_logic i = cd_logic cd" for x i
    by (cases "x = cd_oid cd") (use deploy_append_effect(1,4) [OF assms] in auto)
  moreover have "\<exists>i. core_item c1 (cd_oid cd) = Some i \<and> it_source i = None" if "is_ok r"
    using that deploy_append_effect(2) [OF assms] by (cases r) auto
  moreover have "c_auto_create c1 = c_auto_create c"
    using assms(2) by (auto simp: deploy_append_def Let_def split: prod.splits sum.splits)
  ultimately show ?thesis using deploy_append_effect(1) [OF assms] by (auto simp: deployed_def)
qed

lemma deployedD:
  assumes "deployed cds c d c'"
  shows "core_ok c'"
    and "y \<notin> cd_oid ` set cds \<Longrightarrow> core_item c' y = core_item c y"
    and "y \<notin> cd_oid ` set cds \<Longrightarrow> core_state c' y = core_state c y"
    and "core_item c' x = Some i \<Longrightarrow> core_item c x = Some i \<and> core_state c' x = core_state c x \<or>
      (\<exists>cd \<in> set cds. cd_oid cd = x \<and> it_source i = None \<and> it_logic i = cd_logic cd)"
    and "d \<Longrightarrow> x \<in> cd_oid ` set cds \<Longrightarrow> \<exists>i. core_item c' x = Some i \<and> it_source i = None"
    and "c_auto_create c' = c_auto_create c"
  using assms unfolding deployed_def by blast+

lemma deployed_Cons:
  assumes d1: "deployed [cd] c True c1" and d2: "deployed cds c1 d c2"
  shows "deployed (cd # cds) c d c2"
  unfolding deployed_def
proof (intro conjI allI impI ballI)
  show "core_ok c2" by (rule deployedD(1) [OF d2])
  show "c_auto_create c2 = c_auto_create c" using deployedD(6) [OF d1] deployedD(6) [OF d2] by simp
next
  fix y
  assume y: "y \<notin> cd_oid ` set (cd # cds)"
  show "core_item c2 y = core_item c y" using y deployedD(2) [OF d1, of y] deployedD(2) [OF d2, of y] by simp
  show "core_state c2 y = core_state c y" using y deployedD(3) [OF d1, of y] deployedD(3) [OF d2, of y] by simp
next
  fix x i
  assume "core_item c2 x = Some i"
  then show "core_item c x = Some i \<and> core_state c2 x = core_state c x \<or>
      (\<exists>cd \<in> set (cd # cds). cd_oid cd = x \<and> it_source i = None \<and> it_logic i = cd_logic cd)"
    using deployedD(4) [OF d2, of x i] deployedD(4) [OF d1, of x i] by auto
next
  fix x
  assume "d" "x \<in> cd_oid ` set (cd # cds)"
  then show "\<exists>i. core_item c2 x = Some i \<and> it_source i = None"
    using deployedD(5) [OF d2, of x] deployedD(5) [OF d1, of x] deployedD(2) [OF d2, of x]
    by (cases "x \<in> cd_oid ` set cds") auto
qed

lemma deployed_stop:
  assumes "deployed [cd] c d' c1" shows "deployed (cd # cds) c False c1"
  using assms by (auto simp: deployed_def)

lemma deployed_each:
  assumes "core_ok c" and "deploy_each L E cds c = (r, c')"
  shows "deployed cds c (is_ok r) c'"
  using assms
proof (induction cds arbitrary: c)
  case Nil
  then show ?case by (auto simp: deployed_def)
next
  case (Cons cd cds)
  obtain r1 c1 where r1: "deploy_append E cd c = (r1, c1)" by fastforce
  note d1 = deployed_first [OF Cons.prems(1) r1]
  show ?case
  proof (cases r1)
    case (Inl e)
    then show ?thesis using d1 Cons.prems(2) r1 deployed_stop by auto
  next
    case (Inr p)
    obtain i cfg where p: "p = (i, cfg)" by (cases p)
    obtain r2 c2 where r2: "save_item_config E (it_oid i) cfg c1 = (r2, c2)" by fastforce
    have "same_items c1 c2" using same_save_item_config [of c1 E "it_oid i" cfg] r2 by simp
    then have d2: "deployed [cd] c True c2" using d1 Inr by (auto intro: deployed_same)
    show ?thesis
    proof (cases r2)
      case (Inl e)
      then show ?thesis using d2 Cons.prems(2) r1 r2 Inr p deployed_stop by auto
    next
      case (Inr u)
      let ?c3 = "announce_item_state L E i c2"
      have d3: "deployed [cd] c True ?c3" by (rule deployed_same [OF d2]) simp
      moreover have "deployed cds ?c3 (is_ok r) c'"
        using Cons.IH [of ?c3] d3 Cons.prems(2) r1 r2 Inr \<open>r1 = Inr p\<close> p by (auto simp: deployed_def)
      ultimately show ?thesis by (rule deployed_Cons)
    qed
  qed
qed

lemma deployed_append_all:
  assumes "core_ok c" and "deploy_append_all E cds c = (r, c')"
  shows "deployed cds c (is_ok r) c'"
  using assms
proof (induction cds arbitrary: c r c')
  case Nil
  then show ?case by (auto simp: deployed_def)
next
  case (Cons cd cds)
  obtain r1 c1 where r1: "deploy_append E cd c = (r1, c1)" by fastforce
  note d1 = deployed_first [OF Cons.prems(1) r1]
  show ?case
  proof (cases r1)
    case (Inl e)
    then show ?thesis using d1 Cons.prems(2) r1 deployed_stop by auto
  next
    case (Inr p)
    obtain i cfg where p: "p = (i, cfg)" by (cases p)
    obtain r2 c2 where r2: "deploy_append_all E cds c1 = (r2, c2)" by fastforce
    have "deployed [cd] c True c1" using d1 Inr by simp
    moreover from this have "deployed cds c1 (is_ok r2) c2" using Cons.IH [OF _ r2] by (simp add: deployed_def)
    ultimately have "deployed (cd # cds) c (is_ok r2) c2" by (rule deployed_Cons)
    then show ?thesis using Cons.prems(2) r1 r2 Inr p by (cases r2) auto
  qed
qed

lemma deploy_deployed:
  assumes "core_ok c" and "deploy_local_items L E cds c = (r, c')"
  shows "deployed cds c (is_ok r) c'"
proof (cases "c_inv_db c")
  case True
  obtain r1 c1 where r1: "deploy_append_all E cds c = (r1, c1)" by fastforce
  note d1 = deployed_append_all [OF assms(1) r1]
  show ?thesis
  proof (cases r1)
    case (Inl e)
    then show ?thesis using d1 assms(2) True r1 by (auto simp: deploy_local_items_def)
  next
    case (Inr ps)
    let ?ops = "map (\<lambda>(x, cfg). SaveConfig x cfg) ps"
    obtain r2 c2 where r2: "store_write E ?ops c1 = (r2, c2)" by fastforce
    have s2: "same_items c1 c2" using same_store_write [of c1 E ?ops] r2 by simp
    note d2 = deployed_same [OF d1 s2]
    have "deployed cds c (is_ok r1) (fold (deploy_announce_db L E) xs c2)" for xs
      by (rule deployed_same [OF d2 same_fold]) simp
    then show ?thesis
      using d2 assms(2) True r1 Inr r2
      by (cases r2) (auto simp: deploy_local_items_def deployed_def)
  qed
next
  case False
  then show ?thesis using deployed_each [OF assms(1)] assms(2) by (simp add: deploy_local_items_def)
qed

lemma wit_deploy:
  assumes "check_item_data (fst (config_split cd)) = Inr ()"
  shows "fst (deploy_local_items std_lib wit_env [cd] wit_core) = Inr ()"
proof -
  obtain i where "fst (deploy_append wit_env cd wit_core) = Inr (i, VUnit)"
    using deploy_append_succeeds [OF wit_core_ok assms, of wit_env VUnit] by (auto simp: wit_env_def)
  moreover have "fst (save_item_config wit_env x v c) = Inr ()" for x v c
    by (simp add: save_item_config_def store_write_def wit_env_def)
  ultimately show ?thesis
    by (auto simp: deploy_local_items_def split: prod.splits sum.splits) (metis fst_conv sum.distinct(1))
qed

text \<open>
  C28: a deployment touches only the configured items: everything else keeps its registration
  and its state, also when the deployment fails half way. If it succeeds, every configured
  item is registered as a local item. It holds with the registry and with the inventory
  database.
\<close>

theorem deploy_local_items_effect:
  assumes "core_ok c" and "deploy_local_items L E cds c = (r, c')"
  shows "core_ok c' \<and>
    (y \<notin> cd_oid ` set cds \<longrightarrow> core_item c' y = core_item c y \<and> core_state c' y = core_state c y) \<and>
    (r = Inr () \<longrightarrow> (\<forall>cd \<in> set cds. \<exists>i. core_item c' (cd_oid cd) = Some i \<and> it_source i = None))"
proof -
  note d = deploy_deployed [OF assms]
  show ?thesis
    using deployedD(1-3,5) [OF d] by (cases r) auto
qed

theorem deploy_local_items_effect_witness:
  "case deploy_local_items std_lib wit_env [config_blank (OID KUnit ''a/u'') ''svc''] wit_core of
     (r, c') \<Rightarrow> r = Inr () \<and> (\<exists>i. core_item c' (OID KUnit ''a/u'') = Some i \<and> it_source i = None) \<and>
       core_item c' (OID KSensor ''a/c'') = Some (wit_item KSensor ''a/c'' 0)"
proof -
  define cd where "cd = config_blank (OID KUnit ''a/u'') ''svc''"
  obtain r c' where d: "deploy_local_items std_lib wit_env [cd] wit_core = (r, c')" by fastforce
  have "check_item_data (fst (config_split cd)) = Inr ()"
    by (simp add: cd_def config_blank_def config_split_def check_item_data_def)
  then have r: "r = Inr ()" using wit_deploy [of cd] d by simp
  have o: "cd_oid cd = OID KUnit ''a/u''" by (simp add: cd_def config_blank_def)
  show ?thesis
    using deploy_local_items_effect [OF wit_core_ok d, of "OID KSensor ''a/c''"] r o
    by (simp add: cd_def [symmetric] d wit_core_item)
qed

subsection \<open>Saving\<close>

text \<open>The storage operation \<open>save\<close> makes for a scheduled item, if any.\<close>

definition save_op :: "core \<Rightarrow> oid \<Rightarrow> store_op list" where
  "save_op c x =
     (case core_item c x of
        Some i \<Rightarrow> (case item_db_state (c_heap c) i of Some st \<Rightarrow> [SaveState x st] | None \<Rightarrow> [])
      | None \<Rightarrow> [])"

definition writes_succeed :: "core_env \<Rightarrow> core \<Rightarrow> bool" where
  "writes_succeed E c \<longleftrightarrow> c_inv_db c \<or> en_reg E = (\<lambda>_. Inr ())"

lemma save_one_store:
  assumes "writes_succeed E c"
  shows "c_store (save_one E x c) = c_store c @ save_op c x"
  using assms
  by (auto simp: save_one_def save_op_def core_item_def save_item_state_def push_state_def store_write_def
      writes_succeed_def split: option.split)

lemma save_one_saves [simp]: "c_scheduled_saves (save_one E x c) = c_scheduled_saves c"
  by (simp add: save_one_def save_item_state_def push_state_def store_write_def split: option.split sum.split)

lemma save_op_same: "same_items c c' \<Longrightarrow> save_op c' x = save_op c x"
  and writes_succeed_same: "same_items c c' \<Longrightarrow> writes_succeed E c' = writes_succeed E c"
  by (auto simp: save_op_def core_item_def writes_succeed_def same_items_def split: option.split)

lemma save_fold_store:
  assumes "writes_succeed E c"
  shows "c_store (fold (save_one E) xs c) = c_store c @ concat (map (save_op c) xs)"
  using assms
proof (induction xs arbitrary: c)
  case (Cons x xs)
  have same: "same_items c (save_one E x c)" by simp
  then have "writes_succeed E (save_one E x c)" using writes_succeed_same Cons.prems by blast
  then show ?case
    using Cons.IH save_one_store [OF Cons.prems] save_op_same [OF same] by (simp cong: map_cong)
qed simp

text \<open>
  Saving writes the current state of every scheduled item that is still registered and
  whose value is not binary, in the order of the set, and nothing else; the set of scheduled
  saves is empty afterwards, and no item is changed.
\<close>

theorem core_save_writes:
  assumes "writes_succeed E c"
  shows "c_store (core_save E c) = c_store c @ concat (map (save_op c) (c_scheduled_saves c)) \<and>
    c_scheduled_saves (core_save E c) = [] \<and> same_items c (core_save E c)"
proof (intro conjI)
  let ?c = "c\<lparr>c_scheduled_saves := []\<rparr>"
  have same: "same_items c ?c" by (simp add: same_items_def)
  then have "writes_succeed E ?c" using writes_succeed_same assms by blast
  then show "c_store (core_save E c) = c_store c @ concat (map (save_op c) (c_scheduled_saves c))"
    using save_fold_store [of E ?c] save_op_same [OF same] by (simp add: core_save_def cong: map_cong)
  have "c_scheduled_saves (fold (save_one E) xs d) = c_scheduled_saves d" for xs d
    by (induction xs arbitrary: d) simp_all
  then show "c_scheduled_saves (core_save E c) = []" by (simp add: core_save_def)
  show "same_items c (core_save E c)" by (rule same_core_save)
qed

theorem core_save_writes_witness:
  "c_store (core_save wit_env (schedule_save (OID KSensor ''a/c'') wit_core)) =
     [SaveState (OID KSensor ''a/c'') \<lparr>dbs_status = 1, dbs_value = VU8 7, dbs_ieid = IEID 1 5, dbs_t = Fin 2\<rparr>]"
proof -
  let ?c = "schedule_save (OID KSensor ''a/c'') wit_core"
  have "writes_succeed wit_env ?c" by (simp add: writes_succeed_def wit_env_def)
  moreover have "c_scheduled_saves ?c = [OID KSensor ''a/c'']" "c_store ?c = []"
    by (simp_all add: schedule_save_def hs_insert_def wit_core_def)
  moreover have "save_op ?c (OID KSensor ''a/c'') =
      [SaveState (OID KSensor ''a/c'') \<lparr>dbs_status = 1, dbs_value = VU8 7, dbs_ieid = IEID 1 5, dbs_t = Fin 2\<rparr>]"
    unfolding save_op_same [OF same_schedule(1)]
    by (simp add: save_op_def wit_core_item item_db_state_def item_state_of_def wit_heap_def state_new_def
        is_bytes_def db_state_of_def)
  ultimately show ?thesis using core_save_writes [of wit_env ?c] by simp
qed

end
