(* ===== verification/Core_Raw.thy ===== *)
theory Core_Raw
  imports Core_Local
begin

text \<open>
  Raw state events of local items (\<open>process_raw_state\<close>, \<open>process_modified\<close>, \<open>update_state_from_raw\<close>
  and its bulk form, and the automatic creation of items, \<open>eva/src/core.rs\<close>). The events that
  \<open>process_modified\<close> generates have no \<open>on_modified\<close> clause themselves, so the recursion of the
  code is one level deep: the inner calls are \<open>process_raw_leaf\<close>, which is shown equal to
  \<open>process_raw_state\<close> on such events.
\<close>

definition calc_delta :: "eva_lib \<Rightarrow> f64 \<Rightarrow> f64 \<Rightarrow> on_negative \<Rightarrow> f64" where
  "calc_delta L current prev on_neg =
     (case on_neg of
        NegOverflow floor_v ceil_v \<Rightarrow>
          if f64_lt current prev then
            f64_add (lib_rnd L) (f64_sub (lib_rnd L) ceil_v prev) (f64_sub (lib_rnd L) current floor_v)
          else f64_sub (lib_rnd L) current prev
      | _ \<Rightarrow> f64_sub (lib_rnd L) current prev)"

definition raw_delta :: "eva_lib \<Rightarrow> raw_event \<Rightarrow> f64 \<Rightarrow> item_state \<Rightarrow> f64 option" where
  "raw_delta L raw now st =
     (case raw_on_modified raw of
        Some (SetOtherValueDelta x on_neg on_err period) \<Rightarrow>
          (case raw_value raw of
             Some v \<Rightarrow>
               if lib_value_eq L (st_value st) VUnit then None
               else
                 (let current = unwrap_or (Fin 0) (lib_to_f64 L v);
                      previous = unwrap_or (Fin 0) (lib_to_f64 L (st_value st))
                  in case period of
                       Some p \<Rightarrow>
                         (let elapsed = f64_sub (lib_rnd L) now (st_t st)
                          in if f64_lt (Fin 0) elapsed then
                               Some (f64_mul (lib_rnd L)
                                 (f64_div (lib_rnd L) (calc_delta L current previous on_neg) p) elapsed)
                             else None)
                     | None \<Rightarrow> Some (calc_delta L current previous on_neg))
           | None \<Rightarrow> None)
      | _ \<Rightarrow> None)"

datatype raw_outcome = RawError error | RawDone | RawReported bool "f64 option"

definition process_raw_step :: "eva_lib \<Rightarrow> core_env \<Rightarrow> item \<Rightarrow> raw_event \<Rightarrow> core \<Rightarrow> raw_outcome \<times> core" where
  "process_raw_step L E i raw c =
     (if it_source i \<noteq> None then (RawError EBusy, c)
      else if \<not> item_enabled (c_heap c) i \<and> raw_force raw \<noteq> ForceFull then (RawDone, c)
      else
        (case item_state_of (c_heap c) i of
           None \<Rightarrow> (RawDone, c)
         | Some st \<Rightarrow>
             (let now = now_of E c
              in if oid_kind (it_oid i) = KLvar \<and> st_status st = 0 \<and> raw_force raw = ForceNone then
                   (RawDone, tick c)
                 else
                   (let delta = raw_delta L raw now st;
                        (really_modified, st') =
                          set_from_raw L raw (it_logic i) (c_boot_id c) (en_ns E (c_tick c)) now st;
                        c1 = tick (c\<lparr>c_heap := item_write_state i st' (c_heap c)\<rparr>)
                    in if really_modified \<or> raw_force raw \<noteq> ForceNone then
                         (let (s_state, db_st) = prepare_state_data L i st' c1
                          in (RawReported really_modified delta,
                              process_new_state E (it_oid i) s_state db_st c1))
                       else (RawDone, c1)))))"

definition process_raw_leaf :: "eva_lib \<Rightarrow> core_env \<Rightarrow> item \<Rightarrow> raw_event \<Rightarrow> core \<Rightarrow> unit result \<times> core" where
  "process_raw_leaf L E i raw c =
     (case process_raw_step L E i raw c of
        (RawError e, c1) \<Rightarrow> (Inl e, c1)
      | (_, c1) \<Rightarrow> (Inr (), c1))"

subsection \<open>Automatic creation\<close>

definition auto_create_item_from_raw_empty ::
    "eva_lib \<Rightarrow> core_env \<Rightarrow> oid \<Rightarrow> string \<Rightarrow> core \<Rightarrow> core" where
  "auto_create_item_from_raw_empty L E x sender c =
     (if auto_create_allowed (c_auto_create c) sender then
        snd (deploy_local_items L E [config_blank x sender] c)
      else c)"

definition auto_create_item_from_raw ::
    "eva_lib \<Rightarrow> core_env \<Rightarrow> oid \<Rightarrow> raw_event \<Rightarrow> string \<Rightarrow> core \<Rightarrow> core" where
  "auto_create_item_from_raw L E x raw sender c =
     (if (case raw_t raw of Some t \<Rightarrow> f64_eq t (Fin 0) | None \<Rightarrow> False) then c
      else snd (deploy_local_items L E [config_from_raw_event x raw sender] c))"

definition auto_create_item_from_raw_bulk ::
    "eva_lib \<Rightarrow> core_env \<Rightarrow> (oid \<times> raw_event) list \<Rightarrow> string \<Rightarrow> core \<Rightarrow> core" where
  "auto_create_item_from_raw_bulk L E raws sender c =
     snd (deploy_local_items L E (map (\<lambda>(x, r). config_from_raw_event x r sender) raws) c)"

subsection \<open>Events of other items\<close>

text \<open>The event for the other item after the clauses on negative deltas.\<close>

definition delta_event :: "f64 \<Rightarrow> on_negative \<Rightarrow> force \<Rightarrow> f64 option \<Rightarrow> raw_event option" where
  "delta_event delta on_neg fc t =
     (if f64_lt delta (Fin 0) then
        (case on_neg of
           NegSkip \<Rightarrow> None
         | NegReset \<Rightarrow> Some (raw_event_default 1 (Some (VF64 (Fin 0))) fc t)
         | _ \<Rightarrow> Some (raw_event_default 1 (Some (VF64 delta)) fc t))
      else Some (raw_event_default 1 (Some (VF64 delta)) fc t))"

definition set_others ::
    "eva_lib \<Rightarrow> core_env \<Rightarrow> oid_mask list \<Rightarrow> raw_event \<Rightarrow> core \<Rightarrow> core" where
  "set_others L E masks rw c =
     fold (\<lambda>msk c.
        fold (\<lambda>i c. snd (process_raw_leaf L E i rw c))
          (inv_get_items_by_mask L (c_inventory c) msk (filter_node NF_Local filter_default) False) c)
       masks c"

definition set_other_delta ::
    "eva_lib \<Rightarrow> core_env \<Rightarrow> oid \<Rightarrow> on_negative \<Rightarrow> on_error \<Rightarrow> f64 \<Rightarrow> force \<Rightarrow> f64 option \<Rightarrow> string \<Rightarrow> core \<Rightarrow> core"
where
  "set_other_delta L E x on_neg on_err delta fc t sender c =
     (case inv_get_item (c_inventory c) x of
        Some i \<Rightarrow>
          (let rw = (case item_state_of (c_heap c) i of
                       Some st \<Rightarrow>
                         if st_status st \<le> ITEM_STATUS_ERROR then
                           (case on_err of
                              ErrSkip \<Rightarrow> None
                            | ErrReset \<Rightarrow> Some (raw_event_default 1 (Some (VF64 (Fin 0))) fc t)
                            | ErrProcess \<Rightarrow> delta_event delta on_neg fc t)
                         else delta_event delta on_neg fc t
                     | None \<Rightarrow> None)
           in case rw of Some ev \<Rightarrow> snd (process_raw_leaf L E i ev c) | None \<Rightarrow> c)
      | None \<Rightarrow>
          if auto_create_allowed (c_auto_create c) sender then
            (case delta_event delta on_neg fc t of
               Some ev \<Rightarrow> auto_create_item_from_raw L E x ev sender c
             | None \<Rightarrow> c)
          else c)"

definition process_modified ::
    "eva_lib \<Rightarrow> core_env \<Rightarrow> on_modified \<Rightarrow> bool \<Rightarrow> force \<Rightarrow> f64 option \<Rightarrow> f64 option \<Rightarrow> string \<Rightarrow> core \<Rightarrow> core" where
  "process_modified L E om really_modified fc delta t sender c =
     (case om of
        SetOther masks status val \<Rightarrow>
          if really_modified then set_others L E masks (raw_event_default status val fc t) c else c
      | SetOtherValueDelta x on_neg on_err period \<Rightarrow>
          (case delta of
             Some d \<Rightarrow> set_other_delta L E x on_neg on_err d fc t sender c
           | None \<Rightarrow> c))"

subsection \<open>Raw events\<close>

definition process_raw_state ::
    "eva_lib \<Rightarrow> core_env \<Rightarrow> item \<Rightarrow> raw_event \<Rightarrow> string \<Rightarrow> core \<Rightarrow> unit result \<times> core" where
  "process_raw_state L E i raw sender c =
     (case process_raw_step L E i raw c of
        (RawError e, c1) \<Rightarrow> (Inl e, c1)
      | (RawDone, c1) \<Rightarrow> (Inr (), c1)
      | (RawReported really_modified delta, c1) \<Rightarrow>
          (case raw_on_modified raw of
             Some om \<Rightarrow>
               (Inr (), process_modified L E om really_modified (raw_force raw) delta (raw_t raw) sender c1)
           | None \<Rightarrow> (Inr (), c1)))"

lemma process_raw_leaf_state:
  "raw_on_modified raw = None \<Longrightarrow> process_raw_state L E i raw sender c = process_raw_leaf L E i raw c"
  by (auto simp: process_raw_state_def process_raw_leaf_def split: prod.split raw_outcome.split)

definition update_state_from_raw ::
    "eva_lib \<Rightarrow> core_env \<Rightarrow> oid \<Rightarrow> raw_event \<Rightarrow> string \<Rightarrow> core \<Rightarrow> unit result \<times> core" where
  "update_state_from_raw L E x raw sender c =
     (if oid_kind x = KLmacro then (Inl ENotImplemented, c)
      else
        (case inv_get_item (c_inventory c) x of
           Some i \<Rightarrow> process_raw_state L E i raw sender c
         | None \<Rightarrow>
             if auto_create_allowed (c_auto_create c) sender then
               (Inr (), auto_create_item_from_raw L E x raw sender c)
             else (Inl ENotFound, c)))"

text \<open>The events of a bulk frame for registered items, and those whose items are to be created.\<close>

definition bulk_known :: "core \<Rightarrow> (oid \<times> raw_event) list \<Rightarrow> (item \<times> raw_event) list" where
  "bulk_known c raws =
     concat (map (\<lambda>(x, r).
       if oid_kind x = KLmacro then []
       else (case inv_get_item (c_inventory c) x of Some i \<Rightarrow> [(i, r)] | None \<Rightarrow> [])) raws)"

definition bulk_unknown :: "core \<Rightarrow> string \<Rightarrow> (oid \<times> raw_event) list \<Rightarrow> (oid \<times> raw_event) list" where
  "bulk_unknown c sender raws =
     filter (\<lambda>(x, r). oid_kind x \<noteq> KLmacro \<and> inv_get_item (c_inventory c) x = None \<and>
       auto_create_allowed (c_auto_create c) sender) raws"

definition update_state_from_raw_bulk ::
    "eva_lib \<Rightarrow> core_env \<Rightarrow> (oid \<times> raw_event) list \<Rightarrow> string \<Rightarrow> core \<Rightarrow> core" where
  "update_state_from_raw_bulk L E raws sender c =
     (let to_process = bulk_known c raws;
          to_create = bulk_unknown c sender raws;
          c1 = fold (\<lambda>(i, r) c. snd (process_raw_state L E i r sender c)) to_process c
      in if to_create \<noteq> [] then auto_create_item_from_raw_bulk L E to_create sender c1 else c1)"

subsection \<open>What a raw event may change\<close>

text \<open>Every local item is in error or its value lies in the range of its logic.\<close>

definition logic_ok :: "eva_lib \<Rightarrow> core \<Rightarrow> bool" where
  "logic_ok L c \<longleftrightarrow>
     (\<forall>x i st. core_item c x = Some i \<longrightarrow> it_source i = None \<longrightarrow> core_state c x = Some st \<longrightarrow>
        logic_respected L (it_logic i) st)"

text \<open>
  The relation between the core before and after the processing of raw events: items stay
  registered, remote items keep their states, every item keeps its counter of active actions,
  the range logic stays respected.
\<close>

definition raw_rel :: "eva_lib \<Rightarrow> core \<Rightarrow> core \<Rightarrow> bool" where
  "raw_rel L c c' \<longleftrightarrow>
     core_ok c' \<and> c_auto_create c' = c_auto_create c \<and>
     (\<forall>x i. core_item c x = Some i \<longrightarrow>
        core_item c' x = Some i \<and> (it_source i \<noteq> None \<longrightarrow> core_state c' x = core_state c x) \<and>
        map_option st_act (core_state c' x) = map_option st_act (core_state c x)) \<and>
     (logic_ok L c \<longrightarrow> logic_ok L c')"

lemma raw_rel_refl: "core_ok c \<Longrightarrow> raw_rel L c c"
  by (simp add: raw_rel_def)

lemma raw_rel_trans: "raw_rel L a b \<Longrightarrow> raw_rel L b c \<Longrightarrow> raw_rel L a c"
  by (auto simp: raw_rel_def)

lemma raw_relD:
  assumes "raw_rel L c c'"
  shows "core_ok c'" "c_auto_create c' = c_auto_create c"
    and "core_item c x = Some i \<Longrightarrow> core_item c' x = Some i"
    and "core_item c x = Some i \<Longrightarrow> it_source i \<noteq> None \<Longrightarrow> core_state c' x = core_state c x"
    and "logic_ok L c \<Longrightarrow> logic_ok L c'"
    and "core_item c x = Some i \<Longrightarrow> map_option st_act (core_state c' x) = map_option st_act (core_state c x)"
  using assms by (auto simp: raw_rel_def)

lemma logic_ok_same: "same_items c c' \<Longrightarrow> logic_ok L c' = logic_ok L c"
  using core_item_same [of c c'] core_state_same [of c c'] by (simp add: logic_ok_def)

lemma raw_rel_same:
  assumes "core_ok c" and "same_items c c'"
  shows "raw_rel L c c'"
  using assms core_item_same [OF assms(2)] core_state_same [OF assms(2)] logic_ok_same [OF assms(2)]
    core_ok_same [OF assms(2)] same_itemsD(4) [OF assms(2)]
  by (simp add: raw_rel_def)

text \<open>Writing the state of a registered item.\<close>

lemma core_state_write:
  assumes "core_ok c" and "core_item c (it_oid i) = Some i"
  shows "core_state (c\<lparr>c_heap := item_write_state i st (c_heap c)\<rparr>) y =
    (if y = it_oid i then Some st else core_state c y)"
proof (cases "core_item c y")
  case None
  then show ?thesis using assms(2) by (auto simp: core_state_def core_item_def)
next
  case (Some j)
  have "it_cell j = it_cell i \<longleftrightarrow> y = it_oid i"
    using cells_okD(2) [OF core_okD(2) [OF assms(1)], of y j "it_oid i" i] Some assms(2)
    by (auto simp: core_item_def)
  then show ?thesis using Some by (simp add: core_state_def core_item_def item_state_of_write)
qed

lemma core_item_write [simp]: "core_item (c\<lparr>c_heap := h\<rparr>) y = core_item c y"
  by (simp add: core_item_def)

lemma raw_rel_write:
  assumes ok: "core_ok c" and i: "core_item c (it_oid i) = Some i" "it_source i = None"
    and st: "item_state_of (c_heap c) i = Some st0" "st_act st = st_act st0"
    and lg: "logic_respected L (it_logic i) st"
  shows "raw_rel L c (c\<lparr>c_heap := item_write_state i st (c_heap c)\<rparr>)"
proof -
  have "core_ok (c\<lparr>c_heap := item_write_state i st (c_heap c)\<rparr>)"
    using items_ok_write [of "c_inventory c" "c_heap c" "it_oid i" i st0 st] ok i(1) st(1)
    by (simp add: core_ok_items core_item_def)
  moreover have "core_state c (it_oid i) = Some st0" using i(1) st(1) by (simp add: core_state_def core_item_def)
  ultimately show ?thesis
    using core_state_write [OF ok i(1), of st] i lg st(2) by (auto simp: raw_rel_def logic_ok_def)
qed

lemma raw_rel_step:
  assumes "value_eq_conv L" and ok: "core_ok c" and i: "core_item c (it_oid i) = Some i"
  shows "raw_rel L c (snd (process_raw_step L E i raw c))"
proof (cases "it_source i = None \<and> (item_enabled (c_heap c) i \<or> raw_force raw = ForceFull)")
  case False
  then show ?thesis using raw_rel_refl [OF ok] by (auto simp: process_raw_step_def)
next
  case True
  show ?thesis
  proof (cases "item_state_of (c_heap c) i")
    case None
    then show ?thesis using True raw_rel_refl [OF ok] by (auto simp: process_raw_step_def)
  next
    case (Some st)
    obtain m st' where sr: "set_from_raw L raw (it_logic i) (c_boot_id c) (en_ns E (c_tick c)) (now_of E c) st = (m, st')"
      by fastforce
    have "logic_respected L (it_logic i) st'"
      using set_from_raw_logic [OF assms(1), of "it_logic i" raw "c_boot_id c" "en_ns E (c_tick c)" "now_of E c" st] sr
      by simp
    moreover have "st_act st' = st_act st"
      using set_from_raw_status_value(3) [OF prod.collapse [symmetric]] sr by (metis snd_conv)
    ultimately have w: "raw_rel L c (c\<lparr>c_heap := item_write_state i st' (c_heap c)\<rparr>)" (is "raw_rel L c ?c1")
      using raw_rel_write [OF ok i] True Some by blast
    have t: "raw_rel L c (tick ?c1)"
      by (rule raw_rel_trans [OF w raw_rel_same [OF raw_relD(1) [OF w]]]) simp
    have n: "raw_rel L c (process_new_state E x s db (tick ?c1))" for x s db
      by (rule raw_rel_trans [OF t raw_rel_same [OF raw_relD(1) [OF t]]]) simp
    show ?thesis
      using True Some raw_rel_same [OF ok same_tick] t n
      by (auto simp: process_raw_step_def sr Let_def prepare_state_data_def)
  qed
qed

lemma raw_rel_leaf:
  assumes "value_eq_conv L" and "core_ok c" and "core_item c (it_oid i) = Some i"
  shows "raw_rel L c (snd (process_raw_leaf L E i raw c))"
  using raw_rel_step [OF assms, of E raw]
  by (auto simp: process_raw_leaf_def split: prod.split raw_outcome.split)

interpretation raw: state_relation core_ok "raw_rel L" for L
  by unfold_locales (auto intro: raw_rel_refl raw_rel_trans raw_relD)

lemma mask_item_registered:
  assumes "core_ok c" and "i \<in> set (inv_get_items_by_mask L (c_inventory c) msk f b)"
  shows "core_item c (it_oid i) = Some i"
  using assms mask_selects [of "inv_items (c_inventory c)" i L msk f b]
  by (auto simp: inv_get_items_by_mask_def core_item_def inv_get_item_def core_ok_def inv_lookup_ok_def)

lemma raw_rel_set_others:
  assumes v: "value_eq_conv L" and ok: "core_ok c"
  shows "raw_rel L c (set_others L E masks rw c)"
  unfolding set_others_def
proof (rule raw.rel_fold [OF ok])
  fix msk d
  assume d: "core_ok d"
  show "raw_rel L d (fold (\<lambda>i c. snd (process_raw_leaf L E i rw c))
          (inv_get_items_by_mask L (c_inventory d) msk (filter_node NF_Local filter_default) False) d)"
    by (rule raw.rel_fold [OF d]) (use mask_item_registered [OF d] raw_relD(3) raw_rel_leaf [OF v] in blast)
qed

lemma raw_rel_deploy:
  assumes rel: "raw_rel L c c1" and "deploy_local_items L E cds c1 = (r, c')"
    and new: "\<And>cd. cd \<in> set cds \<Longrightarrow> core_item c (cd_oid cd) = None \<and> cd_logic cd = None"
  shows "raw_rel L c c'"
proof -
  have d: "deployed cds c1 (is_ok r) c'" by (rule deploy_deployed [OF raw_relD(1) [OF rel] assms(2)])
  have "logic_ok L c'" if lo: "logic_ok L c1"
    unfolding logic_ok_def
  proof (intro allI impI)
    fix x i st
    assume i: "core_item c' x = Some i" and src: "it_source i = None" and st: "core_state c' x = Some st"
    from deployedD(4) [OF d i] show "logic_respected L (it_logic i) st"
    proof
      assume "core_item c1 x = Some i \<and> core_state c' x = core_state c1 x"
      then show ?thesis using lo src st unfolding logic_ok_def by metis
    next
      assume "\<exists>cd \<in> set cds. cd_oid cd = x \<and> it_source i = None \<and> it_logic i = cd_logic cd"
      then show ?thesis using new by (auto simp: logic_respected_def)
    qed
  qed
  moreover have "core_item c' x = core_item c1 x \<and> core_state c' x = core_state c1 x" if "core_item c x = Some i" for x i
  proof -
    have "x \<notin> cd_oid ` set cds" using new that by auto
    then show ?thesis using deployedD(2,3) [OF d, of x] by simp
  qed
  ultimately show ?thesis
    using deployedD(1,6) [OF d] raw_relD(2-6) [OF rel] by (simp add: raw_rel_def)
qed

lemma raw_rel_auto_create:
  assumes "core_ok c" and "core_item c x = None"
  shows "raw_rel L c (auto_create_item_from_raw L E x raw sender c)"
proof -
  obtain r c' where d: "deploy_local_items L E [config_from_raw_event x raw sender] c = (r, c')" by fastforce
  have "raw_rel L c c'"
    by (rule raw_rel_deploy [OF raw_rel_refl [OF assms(1)] d]) (simp add: assms(2) config_from_raw_event_def)
  then show ?thesis using d raw_rel_refl [OF assms(1)] by (simp add: auto_create_item_from_raw_def)
qed

lemma raw_rel_modified:
  assumes v: "value_eq_conv L" and ok: "core_ok c"
  shows "raw_rel L c (process_modified L E om m fc delta t sender c)"
proof (cases om)
  case (SetOther masks s val)
  then show ?thesis
    using raw_rel_set_others [OF v ok] raw_rel_refl [OF ok] by (simp add: process_modified_def)
next
  case (SetOtherValueDelta x on_neg on_err period)
  have "raw_rel L c (set_other_delta L E x on_neg on_err d fc t sender c)" for d
  proof (cases "inv_get_item (c_inventory c) x")
    case None
    then show ?thesis
      using raw_rel_refl [OF ok] raw_rel_auto_create [OF ok, of x]
      by (simp add: set_other_delta_def core_item_def split: option.split)
  next
    case (Some i)
    have "it_oid i = x" by (rule ivs.get_oid [OF core_okD(1) [OF ok] Some])
    then have "core_item c (it_oid i) = Some i" using Some by (simp add: core_item_def)
    then show ?thesis
      using Some raw_rel_refl [OF ok] raw_rel_leaf [OF v ok] by (simp add: set_other_delta_def Let_def split: option.split)
  qed
  then show ?thesis
    using SetOtherValueDelta raw_rel_refl [OF ok] by (simp add: process_modified_def split: option.split)
qed

lemma raw_rel_state:
  assumes v: "value_eq_conv L" and "core_ok c" and "core_item c (it_oid i) = Some i"
  shows "raw_rel L c (snd (process_raw_state L E i raw sender c))"
proof -
  obtain r c1 where r: "process_raw_step L E i raw c = (r, c1)" by fastforce
  have s: "raw_rel L c c1" using raw_rel_step [OF assms, of E raw] r by simp
  have "raw_rel L c (process_modified L E om m fc delta t sender c1)" for om m fc delta t
    by (rule raw_rel_trans [OF s raw_rel_modified [OF v raw_relD(1) [OF s]]])
  then show ?thesis using s r by (simp add: process_raw_state_def split: raw_outcome.split option.split)
qed

lemma raw_rel_update:
  assumes "value_eq_conv L" and ok: "core_ok c"
  shows "raw_rel L c (snd (update_state_from_raw L E x raw sender c))"
proof (cases "inv_get_item (c_inventory c) x")
  case None
  then show ?thesis
    using raw_rel_refl [OF ok] raw_rel_auto_create [OF ok, of x]
    by (simp add: update_state_from_raw_def core_item_def)
next
  case (Some i)
  have "it_oid i = x" by (rule ivs.get_oid [OF core_okD(1) [OF ok] Some])
  then have "core_item c (it_oid i) = Some i" using Some by (simp add: core_item_def)
  then show ?thesis
    using raw_rel_state [OF assms] raw_rel_refl [OF ok] Some by (simp add: update_state_from_raw_def)
qed

lemma bulk_known_registered:
  assumes "core_ok c" and "(i, r) \<in> set (bulk_known c raws)"
  shows "core_item c (it_oid i) = Some i"
proof -
  obtain x where "inv_get_item (c_inventory c) x = Some i"
    using assms(2) by (auto simp: bulk_known_def split: if_splits option.splits)
  then show ?thesis using ivs.get_oid [OF core_okD(1) [OF assms(1)]] by (auto simp: core_item_def)
qed

lemma raw_rel_bulk_known:
  assumes v: "value_eq_conv L" and ok: "core_ok c"
  shows "raw_rel L c (fold (\<lambda>(i, r) c. snd (process_raw_state L E i r sender c)) (bulk_known c raws) c)"
proof (rule raw.rel_fold [OF ok])
  fix e d
  assume d: "core_ok d" "e \<in> set (bulk_known c raws)" "raw_rel L c d"
  obtain i r where e: "e = (i, r)" by (cases e)
  have "core_item d (it_oid i) = Some i"
    using bulk_known_registered [OF ok] d(2,3) e by (blast intro: raw_relD(3))
  then show "raw_rel L d ((case e of (i, r) \<Rightarrow> \<lambda>c. snd (process_raw_state L E i r sender c)) d)"
    using raw_rel_state [OF v d(1)] e by simp
qed

lemma raw_rel_bulk:
  assumes v: "value_eq_conv L" and ok: "core_ok c"
  shows "raw_rel L c (update_state_from_raw_bulk L E raws sender c)"
proof -
  let ?cs = "map (\<lambda>(x, r). config_from_raw_event x r sender) (bulk_unknown c sender raws)"
  define c1 where "c1 = fold (\<lambda>(i, r) c. snd (process_raw_state L E i r sender c)) (bulk_known c raws) c"
  have k: "raw_rel L c c1" unfolding c1_def by (rule raw_rel_bulk_known [OF assms])
  obtain r c' where d: "deploy_local_items L E ?cs c1 = (r, c')" by fastforce
  have "raw_rel L c c'"
    by (rule raw_rel_deploy [OF k d]) (auto simp: bulk_unknown_def core_item_def config_from_raw_event_def)
  then show ?thesis
    using k d by (simp add: update_state_from_raw_bulk_def Let_def c1_def [symmetric] auto_create_item_from_raw_bulk_def)
qed

subsection \<open>Properties\<close>

text \<open>
  C2: raw events keep the core consistent and the range logic in force. If every local item
  is in error or within its range, so it is after any raw event and after any bulk frame of them,
  including the events they trigger for other items and the items they create.
\<close>

theorem raw_events_respect_logic:
  assumes "value_eq_conv L" and "core_ok c" and "logic_ok L c"
  shows "core_ok (snd (update_state_from_raw L E x raw sender c)) \<and>
    logic_ok L (snd (update_state_from_raw L E x raw sender c)) \<and>
    core_ok (update_state_from_raw_bulk L E raws sender c) \<and>
    logic_ok L (update_state_from_raw_bulk L E raws sender c)"
  using raw_relD(1,5) [OF raw_rel_update [OF assms(1,2)]] raw_relD(1,5) [OF raw_rel_bulk [OF assms(1,2)]]
    assms(3) by blast

lemma wit_core_logic: "logic_ok std_lib wit_core"
  by (simp add: logic_ok_def logic_respected_def wit_core_item wit_item_def)

theorem raw_events_respect_logic_witness:
  "logic_ok std_lib (update_state_from_raw_bulk std_lib wit_env
     [(OID KSensor ''a/c'', raw_event_default 1 (Some (VU8 9)) ForceNone None)] ''eva.controller.x'' wit_core)"
  using raw_events_respect_logic [OF std_lib_value_eq_conv wit_core_ok wit_core_logic] by blast

text \<open>
  C6: no raw event touches a remote item. Whatever item the event names, and whatever other
  items its \<open>on_modified\<close> clause names, a registered item of another node keeps its
  registration and its state. A single event for such an item is refused as busy.
\<close>

theorem raw_events_spare_remote:
  assumes "value_eq_conv L" and "core_ok c" and "core_item c y = Some j" and "it_source j \<noteq> None"
    and "oid_kind y \<noteq> KLmacro"
  shows "core_item (snd (update_state_from_raw L E x raw sender c)) y = Some j \<and>
    core_state (snd (update_state_from_raw L E x raw sender c)) y = core_state c y \<and>
    core_item (update_state_from_raw_bulk L E raws sender c) y = Some j \<and>
    core_state (update_state_from_raw_bulk L E raws sender c) y = core_state c y \<and>
    update_state_from_raw L E y raw sender c = (Inl EBusy, c)"
proof -
  have "update_state_from_raw L E y raw sender c = (Inl EBusy, c)"
    using assms(3-5)
    by (simp add: update_state_from_raw_def core_item_def process_raw_state_def process_raw_step_def)
  then show ?thesis
    using raw_relD(3,4) [OF raw_rel_update [OF assms(1,2)] assms(3)]
      raw_relD(3,4) [OF raw_rel_bulk [OF assms(1,2)] assms(3)] assms(4) by blast
qed

text \<open>A core with a local sensor and a remote unit.\<close>

definition wit_remote :: item where
  "wit_remote = (wit_item KUnit ''b/u'' 1)\<lparr>it_source := Some (wit_source ''n1'' 2)\<rparr>"

definition wit_core2 :: core where
  "wit_core2 = wit_core\<lparr>c_inventory := snd (inv_append_item wit_remote False wit_inv)\<rparr>"

lemma wit_remote_fields [simp]:
  "it_oid wit_remote = OID KUnit ''b/u''" "it_source wit_remote = Some (wit_source ''n1'' 2)" "it_cell wit_remote = 1"
  "it_logic wit_remote = None"
  by (simp_all add: wit_remote_def wit_item_def)

lemma wit_core2_get:
  "inv_get_item (c_inventory wit_core2) x =
     (if x = OID KUnit ''b/u'' then Some wit_remote
      else if x = OID KSensor ''a/c'' then Some (wit_item KSensor ''a/c'' 0) else None)"
proof -
  note ok = inv_okD(1) [OF wit_inv_ok]
  have "fst (inv_append_item wit_remote False wit_inv) = Inr wit_remote"
    by (simp add: inv_append_result [OF ok] wit_inv_get)
  from inv_append_get(2) [OF ok this, of x] show ?thesis by (simp add: wit_core2_def wit_inv_get)
qed

lemma wit_core2_item:
  "core_item wit_core2 x =
     (if x = OID KUnit ''b/u'' then Some wit_remote
      else if x = OID KSensor ''a/c'' then Some (wit_item KSensor ''a/c'' 0) else None)"
  by (simp add: core_item_def wit_core2_get)

lemma wit_core2_ok: "core_ok wit_core2"
proof -
  have "inv_lookup_ok (c_inventory wit_core2)"
    by (simp add: wit_core2_def inv_append_lookup_ok [OF inv_okD(1) [OF wit_inv_ok]])
  moreover have "c_heap wit_core2 = wit_heap" by (simp add: wit_core2_def)
  ultimately show ?thesis
    by (auto simp: core_ok_def cells_ok_def states_ok_def wit_core2_get item_state_of_def wit_heap_def wit_item_def
        split: if_splits)
qed

theorem raw_events_spare_remote_witness:
  "update_state_from_raw std_lib wit_env (OID KUnit ''b/u'') (raw_event_default 1 None ForceFull None) ''s'' wit_core2 =
     (Inl EBusy, wit_core2)"
  using raw_events_spare_remote [OF std_lib_value_eq_conv wit_core2_ok, of "OID KUnit ''b/u''" wit_remote]
  by (simp add: wit_core2_item)

text \<open>The step of a raw event: refused, ignored, or carried out.\<close>

definition raw_accepted :: "item \<Rightarrow> raw_event \<Rightarrow> item_state \<Rightarrow> core \<Rightarrow> bool" where
  "raw_accepted i raw st c \<longleftrightarrow>
     it_source i = None \<and> (item_enabled (c_heap c) i \<or> raw_force raw = ForceFull) \<and>
     \<not> (oid_kind (it_oid i) = KLvar \<and> st_status st = 0 \<and> raw_force raw = ForceNone)"

lemma raw_step_ignored:
  assumes "item_state_of (c_heap c) i = Some st" and "\<not> raw_accepted i raw st c" and "it_source i = None"
  shows "process_raw_step L E i raw c \<in> {(RawDone, c), (RawDone, tick c)}"
  using assms by (auto simp: process_raw_step_def raw_accepted_def Let_def)

lemma raw_step_accepted:
  assumes "item_state_of (c_heap c) i = Some st" and "raw_accepted i raw st c"
    and "set_from_raw L raw (it_logic i) (c_boot_id c) (en_ns E (c_tick c)) (now_of E c) st = (m, st')"
    and "c1 = tick (c\<lparr>c_heap := item_write_state i st' (c_heap c)\<rparr>)"
  shows "process_raw_step L E i raw c =
    (if m \<or> raw_force raw \<noteq> ForceNone then
       (RawReported m (raw_delta L raw (now_of E c) st),
        process_new_state E (it_oid i) (local_state_event_of st') (snd (prepare_state_data L i st' c1)) c1)
     else (RawDone, c1))"
  using assms by (auto simp: process_raw_step_def raw_accepted_def Let_def prepare_state_data_def)

lemma process_new_state_log:
  "c_bus (process_new_state E x s db c) = c_bus c @
     (if is_ok (en_bus E (c_tick c)) then [Frame (LOCAL_STATE_TOPIC @ oid_as_path x) None (LocalStatePl s)] else [])"
  "c_state_db_tx c \<Longrightarrow> x \<in> set (c_scheduled_saves (process_new_state E x s db c)) \<or>
     (\<exists>st. db = Some st \<and> c_store (process_new_state E x s db c) = c_store c @ [SaveState x st])"
  by (simp_all add: process_new_state_def announce_local_state_def publish_def push_state_def schedule_save_def
      tick_def hs_insert_def Let_def split: sum.split option.split)

text \<open>
  C25: the effect of a raw event without an \<open>on_modified\<close> clause on a registered item. It is
  refused for a remote item; it is ignored for a disabled item unless fully forced, and for a
  logical variable with status 0 unless forced. Otherwise exactly the state of the item becomes
  the one \<open>set_from_raw\<close> computes; if that is a modification or the event is forced, exactly
  one frame with the new state is published and the state is saved: it is sent to the database
  writer or scheduled. If it is neither, nothing is published.
\<close>

theorem update_state_from_raw_effect:
  assumes "core_ok c" and "core_item c x = Some i" and "core_state c x = Some st"
    and "oid_kind x \<noteq> KLmacro" and "raw_on_modified raw = None"
    and "set_from_raw L raw (it_logic i) (c_boot_id c) (en_ns E (c_tick c)) (now_of E c) st = (m, st')"
    and "update_state_from_raw L E x raw sender c = (r, c')"
    and "accepted = raw_accepted i raw st c" and "reported \<longleftrightarrow> accepted \<and> (m \<or> raw_force raw \<noteq> ForceNone)"
  shows "r = (if it_source i \<noteq> None then Inl EBusy else Inr ()) \<and>
    core_item c' y = core_item c y \<and>
    core_state c' y = (if accepted \<and> y = x then Some st' else core_state c y) \<and>
    c_bus c' = c_bus c @ (if reported \<and> is_ok (en_bus E (Suc (c_tick c))) then
      [Frame (LOCAL_STATE_TOPIC @ oid_as_path x) None (LocalStatePl (local_state_event_of st'))] else []) \<and>
    (reported \<longrightarrow> c_state_db_tx c \<longrightarrow>
      x \<in> set (c_scheduled_saves c') \<or> c_store c' = c_store c @ [SaveState x (db_state_of st')])"
proof -
  have x: "it_oid i = x"
    using ivs.get_oid [OF core_okD(1) [OF assms(1)]] assms(2) by (simp add: core_item_def)
  have st: "item_state_of (c_heap c) i = Some st" using assms(2,3) by (simp add: core_state_def core_item_def)
  have g: "inv_get_item (c_inventory c) x = Some i" using assms(2) by (simp add: core_item_def)
  have res: "(r, c') = process_raw_leaf L E i raw c"
    using assms(4,5,7) g by (simp add: update_state_from_raw_def process_raw_leaf_state)
  show ?thesis
  proof (cases accepted)
    case False
    then have "process_raw_step L E i raw c \<in> {(RawDone, c), (RawDone, tick c)} \<or>
        it_source i \<noteq> None \<and> process_raw_step L E i raw c = (RawError EBusy, c)"
      using raw_step_ignored [OF st] assms(8) by (cases "it_source i") (auto simp: process_raw_step_def)
    then have "(c' = c \<or> c' = tick c) \<and> r = (if it_source i \<noteq> None then Inl EBusy else Inr ())"
      using res st by (auto simp: process_raw_leaf_def process_raw_step_def)
    then show ?thesis
      using False assms(9) core_item_same [OF same_tick, of c] core_state_same [OF same_tick, of c]
      by (auto simp: tick_def)
  next
    case True
    let ?c0 = "c\<lparr>c_heap := item_write_state i st' (c_heap c)\<rparr>"
    let ?db = "snd (prepare_state_data L i st' (tick ?c0))"
    have src: "it_source i = None" using True assms(8) by (simp add: raw_accepted_def)
    have c': "c' = (if reported then process_new_state E x (local_state_event_of st') ?db (tick ?c0) else tick ?c0)"
      and r: "r = Inr ()"
      using raw_step_accepted [OF st _ assms(6) refl] True assms(8,9) res x
      by (auto simp: process_raw_leaf_def split: if_splits)
    have same: "same_items ?c0 c'"
      unfolding c' using same_items_trans [OF same_tick same_process_new_state] by simp
    have db: "?db = Some d \<Longrightarrow> d = db_state_of st'" for d
      by (auto simp: prepare_state_data_def Let_def split: if_splits)
    have "core_item c' y = core_item c y" "core_state c' y = (if y = x then Some st' else core_state c y)"
      using core_item_same [OF same] core_state_same [OF same] core_state_write [OF assms(1), of i st'] assms(2) x
      by simp_all
    then show ?thesis
      using True src r process_new_state_log(1) [of E x "local_state_event_of st'" ?db "tick ?c0"]
        process_new_state_log(2) [of "tick ?c0" x E "local_state_event_of st'" ?db] db
      by (auto simp: c' tick_def)
  qed
qed

theorem update_state_from_raw_effect_witness:
  "let (r, c') = update_state_from_raw std_lib wit_env (OID KSensor ''a/c'')
         (raw_event_default 1 (Some (VU8 9)) ForceNone None) ''s'' wit_core
   in r = Inr () \<and> map fr_topic (c_bus c') = [''ST/LOC/sensor/a/c''] \<and>
      map_option st_value (core_state c' (OID KSensor ''a/c'')) = Some (VU8 9)"
proof -
  let ?x = "OID KSensor ''a/c''" and ?i = "wit_item KSensor ''a/c'' 0"
  let ?raw = "raw_event_default 1 (Some (VU8 9)) ForceNone None"
  define st where "st = state_new 1 (VU8 7) None (IEID 1 5) (Fin 2)"
  have s: "core_state wit_core ?x = Some st"
    by (simp add: core_state_def wit_core_item item_state_of_def wit_heap_def st_def)
  obtain m st' where sr: "set_from_raw std_lib ?raw (it_logic ?i) (c_boot_id wit_core)
      (en_ns wit_env (c_tick wit_core)) (now_of wit_env wit_core) st = (m, st')" by fastforce
  have m: "m \<and> st_value st' = VU8 9"
    using sr by (auto simp: set_from_raw_def raw_target_def raw_compared_def raw_event_default_def raw_apply_def
        raw_apply_t_def st_def state_new_def wit_item_def std_lib_def ITEM_STATUS_ERROR_def split: if_splits)
  obtain r c' where u: "update_state_from_raw std_lib wit_env ?x ?raw ''s'' wit_core = (r, c')" by fastforce
  have a: "raw_accepted ?i ?raw st wit_core"
    by (simp add: raw_accepted_def wit_item_def item_enabled_def wit_heap_def)
  have "oid_as_path ?x = ''sensor/a/c''" by code_simp
  then show ?thesis
    using update_state_from_raw_effect [OF wit_core_ok _ s _ _ sr u refl refl, of ?x] a m u
    by (simp add: wit_core_item raw_event_default_def wit_item_def LOCAL_STATE_TOPIC_def wit_env_def)
qed



text \<open>
  An event with time zero (not modified) does not create an item when it comes alone; when it
  comes in a bulk frame, the item is created as soon as its deployment succeeds.
\<close>

theorem zero_time_created_in_bulk:
  assumes "core_ok c" and "core_item c x = None" and "oid_kind x \<noteq> KLmacro"
    and "auto_create_allowed (c_auto_create c) sender" and "raw_t raw = Some (Fin 0)"
    and "fst (deploy_local_items L E [config_from_raw_event x raw sender] c) = Inr ()"
  shows "update_state_from_raw L E x raw sender c = (Inr (), c) \<and>
    core_item (update_state_from_raw_bulk L E [(x, raw)] sender c) x \<noteq> None"
proof -
  obtain c' where d: "deploy_local_items L E [config_from_raw_event x raw sender] c = (Inr (), c')"
    using assms(6) by (cases "deploy_local_items L E [config_from_raw_event x raw sender] c") simp
  have "\<exists>i. core_item c' x = Some i \<and> it_source i = None"
    by (rule deployedD(5) [OF deploy_deployed [OF assms(1) d]]) (simp_all add: config_from_raw_event_def)
  moreover have "update_state_from_raw_bulk L E [(x, raw)] sender c = c'"
    using assms(2-4) d
    by (simp add: update_state_from_raw_bulk_def bulk_known_def bulk_unknown_def core_item_def
        auto_create_item_from_raw_bulk_def)
  ultimately show ?thesis
    using assms(2-5) by (auto simp: update_state_from_raw_def core_item_def auto_create_item_from_raw_def)
qed

theorem zero_time_created_in_bulk_witness:
  "core_item (update_state_from_raw_bulk std_lib wit_env
     [(OID KUnit ''a/u'', raw_event_default 1 None ForceNone (Some (Fin 0)))] ''eva.plc'' wit_core)
     (OID KUnit ''a/u'') \<noteq> None"
proof -
  let ?cd = "config_from_raw_event (OID KUnit ''a/u'') (raw_event_default 1 None ForceNone (Some (Fin 0))) ''eva.plc''"
  have "check_item_data (fst (config_split ?cd)) = Inr ()"
    by (simp add: config_from_raw_event_def config_split_def check_item_data_def)
  then have d: "fst (deploy_local_items std_lib wit_env [?cd] wit_core) = Inr ()" by (rule wit_deploy)
  have "auto_create_allowed (AC_Strict True) ''eva.plc''" by code_simp
  then have "auto_create_allowed (c_auto_create wit_core) ''eva.plc''" by (simp add: wit_core_def)
  then show ?thesis
    using zero_time_created_in_bulk [OF wit_core_ok _ _ _ _ d]
    by (simp add: wit_core_item raw_event_default_def)
qed

end
