(* ===== verification/Core_Lvar.thy ===== *)
theory Core_Lvar
  imports Core_Raw
begin

text \<open>
  Operations on logical variables (\<open>get_or_crete_lvar\<close> and \<open>lvar_op\<close>, \<open>eva/src/core.rs\<close>). A
  call for a variable of another node is forwarded to the replication service; its answer is
  the parameter \<open>call\<close>. Values are 64-bit integers for the counting operations.
\<close>

datatype lvar_operation =
    LvarSet "item_status option" "eva_value option"
  | LvarReset
  | LvarClear
  | LvarToggle
  | LvarIncrement
  | LvarDecrement

record lvar_remote_op =
  lro_i :: oid
  lro_node :: string
  lro_status :: "item_status option"
  lro_value :: "eva_value option"

fun lvar_remote_from_op :: "lvar_operation \<Rightarrow> oid \<Rightarrow> string \<Rightarrow> lvar_remote_op" where
  "lvar_remote_from_op (LvarSet s v) x node = \<lparr>lro_i = x, lro_node = node, lro_status = s, lro_value = v\<rparr>"
| "lvar_remote_from_op _ x node = \<lparr>lro_i = x, lro_node = node, lro_status = None, lro_value = None\<rparr>"

definition I64_MAX :: "64 word" where
  "I64_MAX = 0x7FFFFFFFFFFFFFFF"

definition I64_MIN :: "64 word" where
  "I64_MIN = 0x8000000000000000"

text \<open>The new state and the value an operation returns.\<close>

fun lvar_apply ::
    "eva_lib \<Rightarrow> lvar_operation \<Rightarrow> ieid \<Rightarrow> f64 \<Rightarrow> item_state \<Rightarrow> (eva_value option \<times> item_state) result" where
  "lvar_apply L (LvarSet status val) ieid now st = Inr (None, force_set_state status val ieid now st)"
| "lvar_apply L LvarReset ieid now st = Inr (None, force_set_state (Some 1) None ieid now st)"
| "lvar_apply L LvarClear ieid now st = Inr (None, force_set_state (Some 0) None ieid now st)"
| "lvar_apply L LvarToggle ieid now st =
     Inr (None, force_set_state (Some (if st_status st = 0 then 1 else 0)) None ieid now st)"
| "lvar_apply L LvarIncrement ieid now st =
     (let val = unwrap_or 0 (lib_to_i64 L (st_value st))
      in if val = I64_MAX then Inl EInvalidData
         else (let v = VI64 (val + 1) in Inr (Some v, force_set_value v ieid now st)))"
| "lvar_apply L LvarDecrement ieid now st =
     (let val = unwrap_or 0 (lib_to_i64 L (st_value st))
      in if val = I64_MIN then Inl EInvalidData
         else (let v = VI64 (val - 1) in Inr (Some v, force_set_value v ieid now st)))"

definition get_or_crete_lvar :: "eva_lib \<Rightarrow> core_env \<Rightarrow> oid \<Rightarrow> string \<Rightarrow> core \<Rightarrow> item option \<times> core" where
  "get_or_crete_lvar L E x source c =
     (case inv_get_item (c_inventory c) x of
        Some lvar \<Rightarrow> (Some lvar, c)
      | None \<Rightarrow>
          if auto_create_allowed (c_auto_create c) source then
            (case create_local_item L E x c of
               (Inl _, c1) \<Rightarrow> (None, c1)
             | (Inr lvar, c1) \<Rightarrow> (Some lvar, c1))
          else (None, c))"

definition lvar_op ::
    "eva_lib \<Rightarrow> core_env \<Rightarrow> (string \<Rightarrow> string \<Rightarrow> lvar_remote_op \<Rightarrow> eva_value option result) \<Rightarrow>
     oid \<Rightarrow> lvar_operation \<Rightarrow> string \<Rightarrow> string \<Rightarrow> core \<Rightarrow> eva_value option result \<times> core" where
  "lvar_op L E call x op method_orig source c =
     (if oid_kind x \<noteq> KLvar then (Inl ENotImplemented, c)
      else
        (case get_or_crete_lvar L E x source c of
           (None, c1) \<Rightarrow> (Inl ENotFound, c1)
         | (Some lvar, c1) \<Rightarrow>
             if \<not> item_enabled (c_heap c1) lvar then (Inl EAccess, c1)
             else
               (case it_source lvar of
                  Some src \<Rightarrow> (call (src_svc src) method_orig (lvar_remote_from_op op x (src_node src)), c1)
                | None \<Rightarrow>
                    (case item_state_of (c_heap c1) lvar of
                       None \<Rightarrow> (Inl ECore, c1)
                     | Some st \<Rightarrow>
                         (case lvar_apply L op (generate_ieid E c1) (now_of E c1) st of
                            Inl e \<Rightarrow> (Inl e, tick c1)
                          | Inr (val, st') \<Rightarrow>
                              (let c2 = tick (c1\<lparr>c_heap := item_write_state lvar st' (c_heap c1)\<rparr>);
                                   (s_state, db_st) = prepare_state_data L lvar st' c2
                               in (Inr val, process_new_state E x s_state db_st c2)))))))"

subsection \<open>A state that is written, announced and saved\<close>

lemma commit_state:
  assumes ok: "core_ok c" and i: "core_item c (it_oid i) = Some i" and st: "item_state_of (c_heap c) i \<noteq> None"
    and c': "c' = process_new_state E x s db (tick (c\<lparr>c_heap := item_write_state i st' (c_heap c)\<rparr>))"
  shows "core_ok c'" and "core_item c' y = core_item c y"
    and "core_state c' y = (if y = it_oid i then Some st' else core_state c y)"
    and "c_bus c' = c_bus c @ (if is_ok (en_bus E (Suc (c_tick c))) then
      [Frame (LOCAL_STATE_TOPIC @ oid_as_path x) None (LocalStatePl s)] else [])"
proof -
  let ?c0 = "c\<lparr>c_heap := item_write_state i st' (c_heap c)\<rparr>"
  have same: "same_items ?c0 c'" unfolding c' by (rule same_items_trans [OF same_tick same_process_new_state])
  have "core_ok ?c0"
    using items_ok_write [of "c_inventory c" "c_heap c" "it_oid i" i _ st'] ok i st
    by (auto simp: core_ok_items core_item_def)
  then show "core_ok c'" using core_ok_same [OF same] by simp
  show "core_item c' y = core_item c y" using core_item_same [OF same] by simp
  show "core_state c' y = (if y = it_oid i then Some st' else core_state c y)"
    using core_state_same [OF same] core_state_write [OF ok i] by simp
  show "c_bus c' = c_bus c @ (if is_ok (en_bus E (Suc (c_tick c))) then
      [Frame (LOCAL_STATE_TOPIC @ oid_as_path x) None (LocalStatePl s)] else [])"
    by (simp add: c' process_new_state_log(1) tick_def)
qed

subsection \<open>Properties\<close>

lemma lvar_op_library:
  assumes "core_ok c" and "oid_kind x = KLvar" and "core_item c x = Some i" and "it_source i = None"
    and "core_state c x = Some st" and "lvar_op L E call x op m source c = (r, c')"
  shows "core_item c' y = core_item c y \<and>
    (if \<not> item_enabled (c_heap c) i then r = Inl EAccess \<and> c' = c
     else case lvar_apply L op (generate_ieid E c) (now_of E c) st of
       Inl e \<Rightarrow> r = Inl e \<and> core_state c' y = core_state c y \<and> c_bus c' = c_bus c
     | Inr (v, st') \<Rightarrow>
         r = Inr v \<and> core_state c' y = (if y = x then Some st' else core_state c y) \<and>
         c_bus c' = c_bus c @ (if is_ok (en_bus E (Suc (c_tick c))) then
           [Frame (LOCAL_STATE_TOPIC @ oid_as_path x) None (LocalStatePl (local_state_event_of st'))] else []))"
proof -
  have x: "it_oid i = x"
    using ivs.get_oid [OF core_okD(1) [OF assms(1)]] assms(3) by (simp add: core_item_def)
  have st: "item_state_of (c_heap c) i = Some st" using assms(3,5) by (simp add: core_state_def)
  have g: "get_or_crete_lvar L E x source c = (Some i, c)"
    using assms(3) by (simp add: get_or_crete_lvar_def core_item_def)
  show ?thesis
  proof (cases "item_enabled (c_heap c) i")
    case False
    then show ?thesis using assms(2,6) g by (simp add: lvar_op_def)
  next
    case en: True
    show ?thesis
    proof (cases "lvar_apply L op (generate_ieid E c) (now_of E c) st")
      case (Inl e)
      then show ?thesis
        using en assms(2,4,6) g st core_item_same [OF same_tick] core_state_same [OF same_tick]
        by (auto simp: lvar_op_def tick_def)
    next
      case (Inr p)
      obtain v st' where p: "p = (v, st')" by (cases p)
      let ?c1 = "tick (c\<lparr>c_heap := item_write_state i st' (c_heap c)\<rparr>)"
      have r: "r = Inr v" and c': "c' = process_new_state E x (local_state_event_of st')
          (snd (prepare_state_data L i st' ?c1)) ?c1"
        using en assms(2,4,6) g st Inr p by (auto simp: lvar_op_def Let_def prepare_state_data_def)
      have ci: "core_item c (it_oid i) = Some i" and sn: "item_state_of (c_heap c) i \<noteq> None"
        using assms(3) x st by simp_all
      show ?thesis using commit_state [OF assms(1) ci sn c'] en Inr p r x by simp
    qed
  qed
qed

text \<open>
  C27: an operation on a registered local variable. It fails for a variable that is disabled and for
  a counter at its bound, and then nothing changes and nothing is announced. Otherwise
  exactly the state of this variable changes, to the one the operation computes, and exactly one
  frame with the new state is published.
\<close>

theorem lvar_op_effect:
  assumes "core_ok c" and "oid_kind x = KLvar" and "core_item c x = Some i" and "it_source i = None"
    and "core_state c x = Some st" and "lvar_op L E call x op m source c = (r, c')"
  shows "core_item c' y = core_item c y \<and>
    (if \<not> item_enabled (c_heap c) i then r = Inl EAccess \<and> c' = c
     else case lvar_apply L op (generate_ieid E c) (now_of E c) st of
       Inl e \<Rightarrow> r = Inl e \<and> core_state c' y = core_state c y \<and> c_bus c' = c_bus c
     | Inr (v, st') \<Rightarrow>
         r = Inr v \<and> core_state c' y = (if y = x then Some st' else core_state c y) \<and>
         c_bus c' = c_bus c @ (if is_ok (en_bus E (Suc (c_tick c))) then
           [Frame (LOCAL_STATE_TOPIC @ oid_as_path x) None (LocalStatePl (local_state_event_of st'))] else []))"
  by (rule lvar_op_library [OF assms])

text \<open>A core with one local variable \<open>v\<close> whose value must not exceed 10.\<close>

definition wit_range :: range where
  "wit_range = \<lparr>range_min = None, range_max = Some (Fin 10), range_min_eq = False, range_max_eq = True\<rparr>"

definition wit_lvar :: item where
  "wit_lvar = (wit_item KLvar ''v'' 1)\<lparr>it_logic := Some \<lparr>logic_range = Some wit_range\<rparr>\<rparr>"

definition wit_core3 :: core where
  "wit_core3 = wit_core\<lparr>c_inventory := snd (inv_append_item wit_lvar False wit_inv)\<rparr>"

lemma wit_lvar_fields [simp]:
  "it_oid wit_lvar = OID KLvar ''v''" "it_source wit_lvar = None" "it_cell wit_lvar = 1"
  "it_logic wit_lvar = Some \<lparr>logic_range = Some wit_range\<rparr>"
  by (simp_all add: wit_lvar_def wit_item_def)

lemma wit_core3_get:
  "inv_get_item (c_inventory wit_core3) x =
     (if x = OID KLvar ''v'' then Some wit_lvar
      else if x = OID KSensor ''a/c'' then Some (wit_item KSensor ''a/c'' 0) else None)"
proof -
  note ok = inv_okD(1) [OF wit_inv_ok]
  have "fst (inv_append_item wit_lvar False wit_inv) = Inr wit_lvar"
    by (simp add: inv_append_result [OF ok] wit_inv_get)
  from inv_append_get(2) [OF ok this, of x] show ?thesis by (simp add: wit_core3_def wit_inv_get)
qed

lemma wit_core3_heap [simp]: "c_heap wit_core3 = wit_heap" "c_bus wit_core3 = []"
  by (simp_all add: wit_core3_def)

lemma wit_core3_item:
  "core_item wit_core3 (OID KLvar ''v'') = Some wit_lvar"
  "core_state wit_core3 (OID KLvar ''v'') = Some (state_new 1 (VU8 7) None (IEID 1 5) (Fin 2))"
  by (simp_all add: core_item_def core_state_def wit_core3_get item_state_of_def wit_heap_def)

lemma wit_core3_ok: "core_ok wit_core3"
proof -
  have "inv_lookup_ok (c_inventory wit_core3)"
    by (simp add: wit_core3_def inv_append_lookup_ok [OF inv_okD(1) [OF wit_inv_ok]])
  then show ?thesis
    by (auto simp: core_ok_def cells_ok_def states_ok_def wit_core3_get item_state_of_def wit_heap_def wit_item_def
        split: if_splits)
qed

lemma wit_lvar_enabled [simp]: "item_enabled wit_heap i"
  by (simp add: item_enabled_def wit_heap_def)

theorem lvar_op_effect_witness:
  "let (r, c') = lvar_op std_lib wit_env (\<lambda>_ _ _. Inl ECore) (OID KLvar ''v'') LvarIncrement ''m'' ''s'' wit_core3
   in r = Inr (Some (VI64 8)) \<and> map fr_topic (c_bus c') = [''ST/LOC/lvar/v''] \<and>
      core_state c' (OID KSensor ''a/c'') = core_state wit_core3 (OID KSensor ''a/c'')"
proof -
  obtain r c' where u: "lvar_op std_lib wit_env (\<lambda>_ _ _. Inl ECore) (OID KLvar ''v'') LvarIncrement ''m'' ''s''
      wit_core3 = (r, c')" by fastforce
  have "oid_as_path (OID KLvar ''v'') = ''lvar/v''" by code_simp
  then show ?thesis
    using lvar_op_effect [OF wit_core3_ok _ wit_core3_item(1) _ wit_core3_item(2) u, of "OID KSensor ''a/c''"] u
    by (simp add: state_new_def std_to_i64_def I64_MAX_def Let_def wit_env_def LOCAL_STATE_TOPIC_def)
qed

lemma sint_succ: "v \<noteq> I64_MAX \<Longrightarrow> sint (v + 1) = sint v + 1"
  and sint_pred: "v \<noteq> I64_MIN \<Longrightarrow> sint (v - 1) = sint v - 1"
  and sint_bounds: "sint I64_MAX = 2 ^ 63 - 1" "sint I64_MIN = - (2 ^ 63)"
proof -
  show mx: "sint I64_MAX = 2 ^ 63 - 1" and mn: "sint I64_MIN = - (2 ^ 63)"
    by (simp_all add: I64_MAX_def I64_MIN_def)
  have b: "- (2 ^ 63) \<le> sint v" "sint v < 2 ^ 63"
    using sint_greater_eq [of v] sint_less [of v] by simp_all
  show "sint (v + 1) = sint v + 1" if "v \<noteq> I64_MAX"
  proof -
    have "sint v \<noteq> 2 ^ 63 - 1" using that mx by (metis signed_word_eqI)
    then show ?thesis using b by (simp add: sint_word_ariths signed_take_bit_int_eq_self)
  qed
  show "sint (v - 1) = sint v - 1" if "v \<noteq> I64_MIN"
  proof -
    have "sint v \<noteq> - (2 ^ 63)" using that mn by (metis signed_word_eqI)
    then show ?thesis using b by (simp add: sint_word_ariths signed_take_bit_int_eq_self)
  qed
qed

text \<open>
  C17: the counting operations never wrap. An increment fails exactly when the value, read as a
  signed 64-bit integer, is the largest one, and a decrement exactly when it is the smallest; when
  they succeed, the value they return and store is the integer successor or predecessor.
\<close>

theorem lvar_counters_never_wrap:
  "let v = unwrap_or 0 (lib_to_i64 L (st_value st))
   in (case lvar_apply L LvarIncrement ie now st of
         Inl e \<Rightarrow> e = EInvalidData \<and> sint v = 2 ^ 63 - 1
       | Inr (r, st') \<Rightarrow> \<exists>w. r = Some (VI64 w) \<and> st_value st' = VI64 w \<and> sint w = sint v + 1) \<and>
      (case lvar_apply L LvarDecrement ie now st of
         Inl e \<Rightarrow> e = EInvalidData \<and> sint v = - (2 ^ 63)
       | Inr (r, st') \<Rightarrow> \<exists>w. r = Some (VI64 w) \<and> st_value st' = VI64 w \<and> sint w = sint v - 1)"
  using sint_bounds sint_succ sint_pred by (auto simp: Let_def force_set_value_def)

text \<open>
  C20: an increment followed by a decrement restores the value of a variable that holds a 64-bit
  integer, and a toggle followed by a toggle restores a status of 0 or 1. The conversion of a
  64-bit value to \<open>i64\<close> is the identity.
\<close>

definition i64_conv :: "eva_lib \<Rightarrow> bool" where
  "i64_conv L \<longleftrightarrow> (\<forall>w. lib_to_i64 L (VI64 w) = Some w)"

theorem lvar_ops_undo:
  assumes "i64_conv L"
  shows "(st_value st = VI64 w \<longrightarrow> lvar_apply L LvarIncrement ie now st = Inr (v, st1) \<longrightarrow>
      map_sum id (st_value \<circ> snd) (lvar_apply L LvarDecrement ie' now' st1) = Inr (VI64 w)) \<and>
    (st_status st \<in> {0, 1} \<longrightarrow> lvar_apply L LvarToggle ie now st = Inr (v', st2) \<longrightarrow>
      map_sum id (\<lambda>p. (st_status (snd p), st_value (snd p))) (lvar_apply L LvarToggle ie' now' st2) =
        Inr (st_status st, st_value st))"
proof (intro conjI impI)
  assume v: "st_value st = VI64 w" and i: "lvar_apply L LvarIncrement ie now st = Inr (v, st1)"
  then have st1: "w \<noteq> I64_MAX" "st_value st1 = VI64 (w + 1)"
    using assms by (auto simp: i64_conv_def Let_def force_set_value_def split: if_splits)
  have "w + 1 \<noteq> I64_MIN"
  proof
    assume "w + 1 = I64_MIN"
    then have "sint w + 1 = - (2 ^ 63)" using sint_succ [OF st1(1)] sint_bounds(2) by simp
    then show False using sint_greater_eq [of w] by simp
  qed
  then show "map_sum id (st_value \<circ> snd) (lvar_apply L LvarDecrement ie' now' st1) = Inr (VI64 w)"
    using assms st1 by (simp add: i64_conv_def Let_def force_set_value_def)
next
  assume "st_status st \<in> {0, 1}" and "lvar_apply L LvarToggle ie now st = Inr (v', st2)"
  then show "map_sum id (\<lambda>p. (st_status (snd p), st_value (snd p))) (lvar_apply L LvarToggle ie' now' st2) =
        Inr (st_status st, st_value st)"
    by (auto simp: force_set_state_def Let_def)
qed

lemma std_lib_i64_conv: "i64_conv std_lib"
  by (simp add: i64_conv_def std_to_i64_def)

theorem lvar_ops_undo_witness:
  "map_sum id (st_value \<circ> snd) (lvar_apply std_lib LvarDecrement (IEID 1 2) (Fin 3)
     (force_set_value (VI64 6) (IEID 1 1) (Fin 2) (state_new 1 (VI64 5) None (IEID 1 0) (Fin 1)))) = Inr (VI64 5)"
proof -
  let ?st = "state_new 1 (VI64 5) None (IEID 1 0) (Fin 1)"
  have "lvar_apply std_lib LvarIncrement (IEID 1 1) (Fin 2) ?st =
      Inr (Some (VI64 6), force_set_value (VI64 6) (IEID 1 1) (Fin 2) ?st)"
    by (simp add: state_new_def std_to_i64_def I64_MAX_def Let_def)
  then show ?thesis
    using lvar_ops_undo [OF std_lib_i64_conv, of ?st 5 "IEID 1 1" "Fin 2"] by (simp add: state_new_def)
qed

text \<open>
  The operations on variables do not apply the range logic: setting an enabled local variable
  to a value outside its range, with a status other than the error status, stores that value,
  and the invariant that local items are in error or within their range is lost.
\<close>

theorem lvar_set_ignores_logic:
  assumes "core_ok c" and "oid_kind x = KLvar" and "core_item c x = Some i" and "it_source i = None"
    and "item_enabled (c_heap c) i" and "core_state c x = Some st"
    and "\<not> validate_logic L (Some v) (it_logic i)" and "s \<noteq> ITEM_STATUS_ERROR"
  shows "\<not> logic_ok L (snd (lvar_op L E call x (LvarSet (Some s) (Some v)) m source c))"
proof -
  obtain r c' where u: "lvar_op L E call x (LvarSet (Some s) (Some v)) m source c = (r, c')" by fastforce
  let ?st = "force_set_state (Some s) (Some v) (generate_ieid E c) (now_of E c) st"
  have "core_item c' x = Some i \<and> core_state c' x = Some ?st"
    using lvar_op_library [OF assms(1-4,6) u, of x] assms(3,5) by simp
  moreover have "\<not> logic_respected L (it_logic i) ?st"
    using assms(7,8) by (simp add: logic_respected_def force_set_state_def Let_def)
  ultimately show ?thesis using u assms(4) by (auto simp: logic_ok_def)
qed

theorem lvar_set_ignores_logic_witness:
  "\<not> logic_ok std_lib (snd (lvar_op std_lib wit_env (\<lambda>_ _ _. Inl ECore) (OID KLvar ''v'')
     (LvarSet (Some 1) (Some (VU8 11))) ''m'' ''s'' wit_core3))"
proof -
  have "\<not> validate_logic std_lib (Some (VU8 11)) (Some \<lparr>logic_range = Some wit_range\<rparr>)"
    by (simp add: validate_logic_def std_to_f64_def std_range_matches_def wit_range_def)
  then show ?thesis
    using lvar_set_ignores_logic [OF wit_core3_ok _ wit_core3_item(1) _ _ wit_core3_item(2), of std_lib "VU8 11" 1]
    by (simp add: ITEM_STATUS_ERROR_def)
qed

text \<open>
  The errors of an operation on a variable leave the core as it is: an item of another kind
  is refused as not implemented, an unknown variable as not found unless its creation is
  allowed for the caller, a disabled one as inaccessible. A variable of another node is
  never changed: the operation is forwarded with the identifier, the node and, for a set, the
  state.
\<close>

theorem lvar_op_refusals:
  shows "(oid_kind x \<noteq> KLvar \<longrightarrow> lvar_op L E call x op m source c = (Inl ENotImplemented, c)) \<and>
    (oid_kind x = KLvar \<and> core_item c x = None \<and> \<not> auto_create_allowed (c_auto_create c) source \<longrightarrow>
      lvar_op L E call x op m source c = (Inl ENotFound, c)) \<and>
    (oid_kind x = KLvar \<and> core_item c x = Some i \<and> \<not> item_enabled (c_heap c) i \<longrightarrow>
      lvar_op L E call x op m source c = (Inl EAccess, c)) \<and>
    (oid_kind x = KLvar \<and> core_item c x = Some i \<and> item_enabled (c_heap c) i \<and> it_source i = Some src \<longrightarrow>
      lvar_op L E call x op m source c =
        (call (src_svc src) m (lvar_remote_from_op op x (src_node src)), c))"
  by (simp add: lvar_op_def get_or_crete_lvar_def core_item_def)

theorem lvar_op_refusals_witness:
  "lvar_op std_lib wit_env (\<lambda>_ _ _. Inl ECore) (OID KLvar ''w'') LvarReset ''m'' ''s'' wit_core3 =
     (Inl ENotFound, wit_core3)"
proof -
  have "\<not> sender_allowed_auto_create_strict ''s''" by code_simp
  then have "\<not> auto_create_allowed (c_auto_create wit_core3) ''s''" by (simp add: wit_core3_def wit_core_def)
  then show ?thesis
    using lvar_op_refusals [of "OID KLvar ''w''" std_lib wit_env "\<lambda>_ _ _. Inl ECore" LvarReset "''m''" "''s''" wit_core3]
    by (simp add: core_item_def wit_core3_get)
qed

end
