(* ===== verification/Core_Nodes.thy ===== *)
theory Core_Nodes
  imports Core_Lvar
begin

text \<open>
  Sources and nodes (\<open>eva/src/core.rs\<close>: \<open>mark_core_node_online\<close>, \<open>set_source_sensor\<close>,
  \<open>mark_source_online\<close>, \<open>destroy_source\<close> and the node checker). The destruction of a source waits,
  polling, until the inventory processor of that source has released it: what the other
  tasks do during each wait is a list of steps, and a call that is still waiting when the list ends
  is the outcome \<open>Waiting\<close>. Unwrapping the service of a node that has none is \<open>Panicked\<close>.
\<close>

datatype outcome = Done core | Waiting core | Panicked

fun outcome_bind :: "outcome \<Rightarrow> (core \<Rightarrow> outcome) \<Rightarrow> outcome" where
  "outcome_bind (Done c) f = f c"
| "outcome_bind (Waiting c) f = Waiting c"
| "outcome_bind Panicked f = Panicked"

fun wait_source :: "string \<Rightarrow> (core \<Rightarrow> core) list \<Rightarrow> core \<Rightarrow> bool \<times> core" where
  "wait_source source_id [] c = lock_source source_id c"
| "wait_source source_id (w # ws) c =
     (case lock_source source_id c of
        (True, c1) \<Rightarrow> (True, c1)
      | (False, c1) \<Rightarrow> wait_source source_id ws (w c1))"

definition remove_from_inventory :: "oid \<Rightarrow> core \<Rightarrow> core" where
  "remove_from_inventory x c = c\<lparr>c_inventory := snd (inv_remove_item x (c_inventory c))\<rparr>"

definition destroy_source :: "string \<Rightarrow> (core \<Rightarrow> core) list \<Rightarrow> core \<Rightarrow> outcome" where
  "destroy_source source_id waits c =
     (let (source, h) = get_or_create_source source_id '''' (c_inventory c) (c_heap c);
          c1 = c\<lparr>c_heap := src_mark_destroyed source h\<rparr>
      in case wait_source source_id waits c1 of
           (False, c2) \<Rightarrow> Waiting c2
         | (True, c2) \<Rightarrow>
             (let c3 = c2\<lparr>c_nodes := hm_remove source_id (c_nodes c2)\<rparr>;
                  c4 = (case get_items_by_source source_id (c_inventory c3) of
                          Some items \<Rightarrow> fold (\<lambda>(x, _) c. remove_from_inventory x c) items c3
                        | None \<Rightarrow> c3)
              in Done (unlock_source source_id c4)))"

definition mark_core_node_online ::
    "eva_lib \<Rightarrow> string \<Rightarrow> string \<Rightarrow> bool \<Rightarrow> eva_value option \<Rightarrow> nat option \<Rightarrow> core \<Rightarrow> (bool \<times> core) option" where
  "mark_core_node_online L source_id svc online info timeout c =
     (case hm_get (c_nodes c) source_id of
        Some node \<Rightarrow>
          (let node1 = (if nd_online node \<noteq> online then node\<lparr>nd_online := online\<rparr> else node)
           in case nd_svc node1 of
                None \<Rightarrow> None
              | Some s \<Rightarrow>
                  if svc \<noteq> s then
                    Some (False, c\<lparr>c_nodes := hm_insert source_id node1 (c_nodes c)\<rparr>)
                  else
                    (let node2 = (case info of Some i \<Rightarrow> lib_node_update_info L i node1 | None \<Rightarrow> node1);
                         node3 = lib_node_update_timeout L timeout node2
                     in Some (True, c\<lparr>c_nodes := hm_insert source_id node3 (c_nodes c)\<rparr>)))
      | None \<Rightarrow>
          Some (True, c\<lparr>c_nodes := hm_insert source_id
            \<lparr>nd_svc = Some svc, nd_online = online, nd_info = info, nd_timeout = timeout\<rparr> (c_nodes c)\<rparr>))"

definition set_source_sensor :: "eva_lib \<Rightarrow> core_env \<Rightarrow> string \<Rightarrow> bool \<Rightarrow> core \<Rightarrow> unit result \<times> core" where
  "set_source_sensor L E source_id online c =
     (case lib_oid_from_str L (''sensor:'' @ c_system_name c @ ''/node/'' @ source_id) of
        Inl e \<Rightarrow> (Inl e, c)
      | Inr source_sensor_oid \<Rightarrow>
          (let ieid = generate_ieid E c;
               (r, iv', h') =
                 (case inv_get_item (c_inventory c) source_sensor_oid of
                    Some item \<Rightarrow> (Inr item, c_inventory c, c_heap c)
                  | None \<Rightarrow>
                      create_item source_sensor_oid (Some ieid) None (now_of E c) (c_inventory c) (c_heap c));
               c1 = c\<lparr>c_inventory := iv', c_heap := h'\<rparr>
           in case r of
                Inl e \<Rightarrow> (Inl e, tick c1)
              | Inr item \<Rightarrow>
                  (case item_state_of (c_heap c1) item of
                     None \<Rightarrow> (Inl ECore, tick c1)
                   | Some stc \<Rightarrow>
                       (let stc' = force_set_state (Some 1) (Some (VU8 (if online then 1 else 0))) ieid
                               (now_of E c) stc;
                            c2 = tick (c1\<lparr>c_heap := item_write_state item stc' (c_heap c1)\<rparr>);
                            (s_state, db_st) = prepare_state_data L item stc' c2
                        in (Inr (), process_new_state E (it_oid item) s_state db_st c2)))))"

definition mark_source_online ::
    "eva_lib \<Rightarrow> core_env \<Rightarrow> (core \<Rightarrow> core) list \<Rightarrow> string \<Rightarrow> string \<Rightarrow> bool \<Rightarrow> eva_value option \<Rightarrow> nat option \<Rightarrow> core \<Rightarrow>
     outcome" where
  "mark_source_online L E waits source_id svc online info timeout c =
     (case mark_core_node_online L source_id svc online info timeout c of
        None \<Rightarrow> Panicked
      | Some (True, c1) \<Rightarrow>
          (let c2 = c1\<lparr>c_heap := inv_mark_source_online source_id online (c_inventory c1) (c_heap c1)\<rparr>
           in Done (if c_source_sensors c2 then snd (set_source_sensor L E source_id online c2) else c2))
      | Some (False, c1) \<Rightarrow> destroy_source source_id waits c1)"

text \<open>One pass of the node checker. Services are grouped first, then asked one by one.\<close>

fun group_nodes ::
    "(string \<times> node_data) list \<Rightarrow> (string, (string \<times> nat option) list) hmap \<Rightarrow>
     (string, (string \<times> nat option) list) hmap option" where
  "group_nodes [] ntc = Some ntc"
| "group_nodes ((k, v) # rest) ntc =
     (case nd_svc v of
        None \<Rightarrow> None
      | Some s \<Rightarrow>
          group_nodes rest
            (case hm_get ntc s of
               Some ns \<Rightarrow> hm_insert s (ns @ [(k, nd_timeout v)]) ntc
             | None \<Rightarrow> hm_insert s [(k, nd_timeout v)] ntc))"

fun check_nodes ::
    "eva_lib \<Rightarrow> core_env \<Rightarrow> (core \<Rightarrow> core) list \<Rightarrow> string \<Rightarrow> (string \<times> nat option) list \<Rightarrow> core \<Rightarrow> outcome" where
  "check_nodes L E waits s [] c = Done c"
| "check_nodes L E waits s ((node, timeout) # rest) c =
     outcome_bind (mark_source_online L E waits node s False None timeout c) (check_nodes L E waits s rest)"

fun check_services ::
    "eva_lib \<Rightarrow> core_env \<Rightarrow> (core \<Rightarrow> core) list \<Rightarrow> (string \<Rightarrow> bool result) \<Rightarrow>
     (string \<times> (string \<times> nat option) list) list \<Rightarrow> core \<Rightarrow> outcome" where
  "check_services L E waits is_service_online [] c = Done c"
| "check_services L E waits is_service_online ((s, nodes) # rest) c =
     outcome_bind
       (if is_service_online s = Inr False then check_nodes L E waits s nodes c else Done c)
       (check_services L E waits is_service_online rest)"

definition node_checker_pass ::
    "eva_lib \<Rightarrow> core_env \<Rightarrow> (core \<Rightarrow> core) list \<Rightarrow> (string \<Rightarrow> bool result) \<Rightarrow> core \<Rightarrow> outcome" where
  "node_checker_pass L E waits is_service_online c =
     (case group_nodes (c_nodes c) [] of
        None \<Rightarrow> Panicked
      | Some ntc \<Rightarrow> check_services L E waits is_service_online ntc c)"

subsection \<open>Destruction of a source\<close>

lemma remove_fold:
  assumes "core_ok c"
  shows "core_ok (fold (\<lambda>(x, _) c. remove_from_inventory x c) items c) \<and>
    c_heap (fold (\<lambda>(x, _) c. remove_from_inventory x c) items c) = c_heap c \<and>
    c_nodes (fold (\<lambda>(x, _) c. remove_from_inventory x c) items c) = c_nodes c \<and>
    c_inv_process (fold (\<lambda>(x, _) c. remove_from_inventory x c) items c) = c_inv_process c \<and>
    (\<forall>y. core_item (fold (\<lambda>(x, _) c. remove_from_inventory x c) items c) y =
      (if y \<in> fst ` set items then None else core_item c y))"
  using assms
proof (induction items arbitrary: c)
  case (Cons e items)
  obtain x i where e: "e = (x, i)" by (cases e)
  let ?c = "remove_from_inventory x c"
  have ok: "core_ok ?c"
    using items_ok_remove [of "c_inventory c" "c_heap c" x] Cons.prems
    by (simp add: core_ok_items remove_from_inventory_def)
  have "core_item ?c y = (if y = x then None else core_item c y)" for y
    using ivs.remove_get [OF core_okD(1) [OF Cons.prems]] by (simp add: remove_from_inventory_def core_item_def)
  then show ?case using Cons.IH [OF ok] e by (auto simp: remove_from_inventory_def)
qed simp

lemma source_index:
  assumes "inv_ok iv" and "hm_get (inv_by_source iv) (Some n) = Some items"
  shows "x \<in> fst ` set items \<longleftrightarrow> (\<exists>i. inv_get_item iv x = Some i \<and> item_node i = Some n)"
proof -
  note w = inv_okD(4) [OF assms]
  have "x \<in> fst ` set items \<longleftrightarrow> (\<exists>i. hm_get items x = Some i)"
    by (force simp: hm.entries_get [OF w, symmetric])
  also have "\<dots> \<longleftrightarrow> (\<exists>i. indexed iv (Some n) x = Some i)" by (simp add: indexed_def assms(2))
  finally show ?thesis using inv_okD(6) [OF assms(1)] by simp
qed

lemma source_index_None:
  assumes "inv_ok iv" and "hm_get (inv_by_source iv) (Some n) = None" and "inv_get_item iv x = Some i"
  shows "item_node i \<noteq> Some n"
  using inv_okD(6) [OF assms(1), of "Some n" x i] assms(2,3) by (auto simp: indexed_def)

lemma wait_source_free:
  assumes "k \<le> length ws" and "s \<notin> set (c_inv_process (fold (\<lambda>w c. w c) (take k ws) c))"
  shows "\<exists>c2. wait_source s ws c = (True, c2)"
  using assms
proof (induction ws arbitrary: c k)
  case (Cons w ws)
  show ?case
  proof (cases "s \<in> set (c_inv_process c)")
    case True
    then obtain k' where k: "k = Suc k'" using Cons.prems(2) by (cases k) auto
    then have "\<exists>c2. wait_source s ws (w c) = (True, c2)" using Cons.IH [of k' "w c"] Cons.prems by simp
    then show ?thesis using True by (simp add: lock_source_def)
  qed (simp add: lock_source_def)
qed (simp add: lock_source_def)

lemma destroy_source_done:
  assumes "wait_source source_id waits
      (c\<lparr>c_heap := src_mark_destroyed (fst sh) (snd sh)\<rparr>) = (True, c2)"
    and "sh = get_or_create_source source_id '''' (c_inventory c) (c_heap c)"
    and ok: "core_ok c2" "inv_ok (c_inventory c2)"
  obtains c' where "destroy_source source_id waits c = Done c'" "core_ok c'"
    "\<And>y. core_item c' y =
      (case core_item c2 y of Some i \<Rightarrow> if item_node i = Some source_id then None else Some i | None \<Rightarrow> None)"
    "c_heap c' = c_heap c2" "c_nodes c' = hm_remove source_id (c_nodes c2)"
    "c_inv_process c' = hs_remove source_id (c_inv_process c2)"
proof -
  let ?c3 = "c2\<lparr>c_nodes := hm_remove source_id (c_nodes c2)\<rparr>"
  define c4 where "c4 = (case get_items_by_source source_id (c_inventory c2) of
      Some items \<Rightarrow> fold (\<lambda>(x, _) c. remove_from_inventory x c) items ?c3 | None \<Rightarrow> ?c3)"
  have d: "destroy_source source_id waits c = Done (unlock_source source_id c4)"
    using assms(1,2) by (simp add: destroy_source_def c4_def Let_def split_beta)
  have ok3: "core_ok ?c3" using ok(1) by (simp add: core_ok_items)
  have "core_ok c4 \<and> c_heap c4 = c_heap c2 \<and> c_nodes c4 = c_nodes ?c3 \<and> c_inv_process c4 = c_inv_process c2 \<and>
      (\<forall>y. core_item c4 y =
        (case core_item c2 y of Some i \<Rightarrow> if item_node i = Some source_id then None else Some i | None \<Rightarrow> None))"
  proof (cases "get_items_by_source source_id (c_inventory c2)")
    case None
    then show ?thesis
      using ok3 source_index_None [OF ok(2)]
      by (auto simp: c4_def core_item_def get_items_by_source_def split: option.split)
  next
    case (Some items)
    have k: "y \<in> fst ` set items \<longleftrightarrow> (\<exists>i. core_item c2 y = Some i \<and> item_node i = Some source_id)" for y
      using source_index [OF ok(2)] Some by (simp add: core_item_def get_items_by_source_def)
    have c4: "c4 = fold (\<lambda>(x, _) c. remove_from_inventory x c) items ?c3" by (simp add: c4_def Some)
    have "core_item ?c3 y = core_item c2 y" for y by (simp add: core_item_def)
    then show ?thesis
      using remove_fold [OF ok3, of items] k unfolding c4 by (auto split: option.split)
  qed
  then show ?thesis
    using that [of "unlock_source source_id c4"] d
    by (auto simp: unlock_source_def core_ok_items core_item_def)
qed

subsection \<open>Properties\<close>


text \<open>
  C36: the destruction of a source returns as soon as, at some of its polls, the inventory processor
  has released the source: it waits forever only if the source is never free.
\<close>

theorem destroy_source_returns:
  assumes "k \<le> length waits" and "sh = get_or_create_source source_id '''' (c_inventory c) (c_heap c)"
    and "source_id \<notin> set (c_inv_process (fold (\<lambda>w c. w c) (take k waits)
      (c\<lparr>c_heap := src_mark_destroyed (fst sh) (snd sh)\<rparr>)))"
  shows "\<exists>c'. destroy_source source_id waits c = Done c' \<and> source_id \<notin> set (c_inv_process c')"
proof -
  have keep: "c_inv_process (fold (\<lambda>(x, _) c. remove_from_inventory x c) items d) = c_inv_process d" for items d
    by (induction items arbitrary: d) (auto simp: remove_from_inventory_def)
  obtain c2 where "wait_source source_id waits (c\<lparr>c_heap := src_mark_destroyed (fst sh) (snd sh)\<rparr>) = (True, c2)"
    using wait_source_free [OF assms(1,3)] by blast
  then show ?thesis
    using assms(2)
    by (simp add: destroy_source_def Let_def split_beta unlock_source_def keep split: option.split)
qed

theorem destroy_source_returns_witness:
  "\<exists>c'. destroy_source ''n1'' [id, unlock_source ''n1''] (wit_core2\<lparr>c_inv_process := [''n1'']\<rparr>) = Done c' \<and>
     ''n1'' \<notin> set (c_inv_process c')"
  by (rule destroy_source_returns [where k = 2, OF _ refl]) (simp_all add: unlock_source_def)

subsection \<open>The nodes\<close>

definition nodes_ok :: "core \<Rightarrow> bool" where
  "nodes_ok c \<longleftrightarrow> hm_wf (c_nodes c) \<and> (\<forall>n nd. hm_get (c_nodes c) n = Some nd \<longrightarrow> nd_svc nd \<noteq> None)"

definition node_view :: "core \<Rightarrow> string \<Rightarrow> (string option \<times> bool) option" where
  "node_view c n = map_option (\<lambda>nd. (nd_svc nd, nd_online nd)) (hm_get (c_nodes c) n)"

lemma nodes_ok_view: "nodes_ok c \<longleftrightarrow> hm_wf (c_nodes c) \<and> (\<forall>m b. node_view c m \<noteq> Some (None, b))"
  by (fastforce simp: nodes_ok_def node_view_def)

lemma process_new_state_nodes [simp]: "c_nodes (process_new_state E x s db c) = c_nodes c"
  by (simp add: process_new_state_def announce_local_state_def publish_def push_state_def schedule_save_def tick_def
      Let_def split: sum.split option.split)

lemma set_source_sensor_nodes [simp]: "c_nodes (snd (set_source_sensor L E s on c)) = c_nodes c"
  by (simp add: set_source_sensor_def Let_def tick_def prepare_state_data_def split: sum.split prod.split option.split)

lemma mark_source_same_svc:
  assumes "node_conv L" and "node_view c n = Some (Some svc, b)" and "hm_wf (c_nodes c)"
  obtains c' where "mark_source_online L E waits n svc on info timeout c = Done c'" "hm_wf (c_nodes c')"
    "\<And>m. node_view c' m = (if m = n then Some (Some svc, on) else node_view c m)"
proof -
  obtain nd where nd: "hm_get (c_nodes c) n = Some nd" "nd_svc nd = Some svc"
    using assms(2) by (auto simp: node_view_def)
  define nd1 where "nd1 = (if nd_online nd \<noteq> on then nd\<lparr>nd_online := on\<rparr> else nd)"
  define nd' where "nd' = lib_node_update_timeout L timeout
    (case info of Some i \<Rightarrow> lib_node_update_info L i nd1 | None \<Rightarrow> nd1)"
  have s1: "nd_svc nd1 = Some svc" "nd_online nd1 = on" using nd(2) by (auto simp: nd1_def)
  then have "nd_svc nd' = Some svc" "nd_online nd' = on"
    using assms(1) by (auto simp: nd'_def node_conv_def split: option.split)
  moreover have "mark_core_node_online L n svc on info timeout c =
      Some (True, c\<lparr>c_nodes := hm_insert n nd' (c_nodes c)\<rparr>)"
    using nd by (cases "nd_online nd = on"; cases info) (simp_all add: mark_core_node_online_def nd1_def nd'_def Let_def)
  ultimately show ?thesis
    using that assms(3) hm.get_insert [OF assms(3)] hm.wf_insert [OF assms(3)]
    by (auto simp: mark_source_online_def Let_def node_view_def)
qed

lemma check_nodes_done:
  assumes "node_conv L" and "hm_wf (c_nodes c)"
    and "\<forall>(n, t) \<in> set l. \<exists>b. node_view c n = Some (Some s, b)"
  shows "\<exists>c'. check_nodes L E waits s l c = Done c' \<and> hm_wf (c_nodes c') \<and>
    (\<forall>m. node_view c' m = map_option (\<lambda>(v, b). (v, b \<and> m \<notin> fst ` set l)) (node_view c m))"
  using assms(2,3)
proof (induction l arbitrary: c)
  case Nil
  then show ?case by (auto simp: prod.case_eq_if option.map_ident)
next
  case (Cons e l)
  obtain n t where e: "e = (n, t)" by (cases e)
  obtain b where b: "node_view c n = Some (Some s, b)" using Cons.prems(2) e by auto
  obtain c1 where c1: "mark_source_online L E waits n s False None t c = Done c1" "hm_wf (c_nodes c1)"
    "\<And>m. node_view c1 m = (if m = n then Some (Some s, False) else node_view c m)"
    using mark_source_same_svc [OF assms(1) b Cons.prems(1)] by metis
  have "\<forall>(n, t) \<in> set l. \<exists>b. node_view c1 n = Some (Some s, b)" using Cons.prems(2) c1(3) by auto
  from Cons.IH [OF c1(2) this] show ?case using c1 b e by auto
qed

lemma check_services_done:
  assumes "node_conv L" and "hm_wf (c_nodes c)"
    and "\<forall>(s, l) \<in> set gs. \<forall>(n, t) \<in> set l. \<exists>b. node_view c n = Some (Some s, b)"
  shows "\<exists>c'. check_services L E waits is_service_online gs c = Done c' \<and> hm_wf (c_nodes c') \<and>
    (\<forall>m. node_view c' m = map_option (\<lambda>(v, b).
       (v, b \<and> \<not> (\<exists>(s, l) \<in> set gs. is_service_online s = Inr False \<and> m \<in> fst ` set l))) (node_view c m))"
  using assms(2,3)
proof (induction gs arbitrary: c)
  case Nil
  then show ?case by (auto simp: prod.case_eq_if option.map_ident)
next
  case (Cons g gs)
  obtain s l where g: "g = (s, l)" by (cases g)
  have l: "\<forall>(n, t) \<in> set l. \<exists>b. node_view c n = Some (Some s, b)" using Cons.prems(2) g by auto
  obtain c1 where c1: "(if is_service_online s = Inr False then check_nodes L E waits s l c else Done c) = Done c1"
    "hm_wf (c_nodes c1)"
    "\<And>m. node_view c1 m =
      map_option (\<lambda>(v, b). (v, b \<and> \<not> (is_service_online s = Inr False \<and> m \<in> fst ` set l))) (node_view c m)"
  proof (cases "is_service_online s = Inr False")
    case True
    then show ?thesis using check_nodes_done [OF assms(1) Cons.prems(1) l] that by auto
  next
    case False
    then show ?thesis using that [of c] Cons.prems(1) by (simp add: option.map_id)
  qed
  have "\<forall>(s, l) \<in> set gs. \<forall>(n, t) \<in> set l. \<exists>b. node_view c1 n = Some (Some s, b)"
    using Cons.prems(2) c1(3) by fastforce
  from Cons.IH [OF c1(2) this] obtain c2 where c2:
    "check_services L E waits is_service_online gs c1 = Done c2" "hm_wf (c_nodes c2)"
    "\<And>m. node_view c2 m = map_option (\<lambda>(v, b).
       (v, b \<and> \<not> (\<exists>(s, l) \<in> set gs. is_service_online s = Inr False \<and> m \<in> fst ` set l))) (node_view c1 m)"
    by blast
  have "node_view c2 m = map_option (\<lambda>(v, b).
       (v, b \<and> \<not> (\<exists>(s, l) \<in> set (g # gs). is_service_online s = Inr False \<and> m \<in> fst ` set l))) (node_view c m)" for m
    unfolding c2(3) c1(3) by (cases "node_view c m") (auto simp: g)
  then show ?case using c1(1) c2(1,2) g by auto
qed

text \<open>The grouping puts every node into the group of its service, and only there.\<close>

lemma group_nodes_grouped:
  assumes "\<forall>(n, nd) \<in> set ns. nd_svc nd \<noteq> None" and "hm_wf g"
  shows "\<exists>g'. group_nodes ns g = Some g' \<and> hm_wf g' \<and>
    (\<forall>s n. n \<in> fst ` set (unwrap_or [] (hm_get g' s)) \<longleftrightarrow>
      n \<in> fst ` set (unwrap_or [] (hm_get g s)) \<or> (\<exists>nd. (n, nd) \<in> set ns \<and> nd_svc nd = Some s))"
  using assms
proof (induction ns arbitrary: g)
  case (Cons e ns)
  obtain k v where e: "e = (k, v)" by (cases e)
  obtain s where s: "nd_svc v = Some s" using Cons.prems(1) e by auto
  let ?g = "hm_insert s (unwrap_or [] (hm_get g s) @ [(k, nd_timeout v)]) g"
  have wf: "hm_wf ?g" by (rule hm.wf_insert [OF Cons.prems(2)])
  have eq: "group_nodes (e # ns) g = group_nodes ns ?g" using e s by (auto split: option.split)
  have get: "hm_get ?g r = (if r = s then Some (unwrap_or [] (hm_get g s) @ [(k, nd_timeout v)]) else hm_get g r)" for r
    by (rule hm.get_insert [OF Cons.prems(2)])
  have "\<forall>(n, nd) \<in> set ns. nd_svc nd \<noteq> None" using Cons.prems(1) by auto
  from Cons.IH [OF this wf] obtain g' where g0: "group_nodes ns ?g = Some g' \<and> hm_wf g' \<and>
    (\<forall>r n. n \<in> fst ` set (unwrap_or [] (hm_get g' r)) \<longleftrightarrow>
      n \<in> fst ` set (unwrap_or [] (hm_get ?g r)) \<or> (\<exists>nd. (n, nd) \<in> set ns \<and> nd_svc nd = Some r))" ..
  note g' = g0 [THEN conjunct1] g0 [THEN conjunct2, THEN conjunct1]
    g0 [THEN conjunct2, THEN conjunct2, rule_format]
  have "n \<in> fst ` set (unwrap_or [] (hm_get g' r)) \<longleftrightarrow>
      n \<in> fst ` set (unwrap_or [] (hm_get g r)) \<or> (\<exists>nd. (n, nd) \<in> set (e # ns) \<and> nd_svc nd = Some r)" for r n
    unfolding g'(3) get using e s by auto
  then show ?case using eq g'(1,2) by auto
qed simp


definition wit_core4 :: core where
  "wit_core4 = wit_core2\<lparr>c_nodes :=
     [(''n1'', \<lparr>nd_svc = Some ''eva.repl.1'', nd_online = True, nd_info = None, nd_timeout = None\<rparr>)]\<rparr>"

lemma wit_core4_nodes: "nodes_ok wit_core4"
  by (simp add: nodes_ok_def wit_core4_def hm_wf_def hm_get_def)

lemma wit_core4_view: "node_view wit_core4 ''n1'' = Some (Some ''eva.repl.1'', True)"
  by (simp add: node_view_def wit_core4_def hm_get_def)


lemma wit_core4_ok: "core_ok wit_core4" "inv_ok (c_inventory wit_core4)"
proof -
  show "core_ok wit_core4" using wit_core2_ok by (simp add: core_ok_items wit_core4_def)
  have "inv_ok (snd (inv_append_item wit_remote False wit_inv))"
    by (rule inv_append_ok [OF wit_inv_ok]) (simp add: wit_inv_get)
  then show "inv_ok (c_inventory wit_core4)" by (simp add: wit_core4_def wit_core2_def)
qed

lemma core_ok_sources: "hp_items h = hp_items (c_heap c) \<Longrightarrow> hp_next (c_heap c) \<le> hp_next h \<Longrightarrow> core_ok c \<Longrightarrow>
    core_ok (c\<lparr>c_heap := h\<rparr>)"
  using items_ok_grow [of "c_inventory c" "c_heap c" h] by (simp add: core_ok_items)

text \<open>
  What an event about a node does to the record of the node and to its items. A new node is recorded
  with the service that announced it. For a known node announced by its own service the
  record takes the new status. If the announcement comes from another service, and the
  source is not being processed, the node is forgotten and none of its items is left. The
  records of the other nodes stay, and the service of a node is always known, so that the
  unwrapping of it never fails.
\<close>

theorem mark_source_online_effect:
  assumes "node_conv L" and "nodes_ok c" and "core_ok c" and "inv_ok (c_inventory c)"
    and "n \<notin> set (c_inv_process c)"
  shows "\<exists>c'. mark_source_online L E waits n svc online info timeout c = Done c' \<and> nodes_ok c' \<and>
    (\<forall>m. m \<noteq> n \<longrightarrow> node_view c' m = node_view c m) \<and>
    (case node_view c n of
       Some (Some s, _) \<Rightarrow>
         if s = svc then node_view c' n = Some (Some svc, online)
         else node_view c' n = None \<and> (\<forall>y i. core_item c' y = Some i \<longrightarrow> item_node i \<noteq> Some n)
     | _ \<Rightarrow> node_view c' n = Some (Some svc, online))"
proof -
  have wf: "hm_wf (c_nodes c)" and svc: "\<And>m nd. hm_get (c_nodes c) m = Some nd \<Longrightarrow> nd_svc nd \<noteq> None"
    using assms(2) by (auto simp: nodes_ok_def)
  have nok: "nodes_ok c'" if "hm_wf (c_nodes c')" "\<And>m b. node_view c' m \<noteq> Some (None, b)" for c'
    using that nodes_ok_view by blast
  have nv: "node_view c m \<noteq> Some (None, b)" for m b using assms(2) nodes_ok_view by blast
  consider (new) "node_view c n = None" | (same) b where "node_view c n = Some (Some svc, b)"
    | (moved) s b where "node_view c n = Some (Some s, b)" "s \<noteq> svc"
    using nv [of n] by (cases "node_view c n") (auto, metis option.exhaust)
  then show ?thesis
  proof cases
    case new
    let ?nd = "\<lparr>nd_svc = Some svc, nd_online = online, nd_info = info, nd_timeout = timeout\<rparr>"
    define c1 where "c1 = c\<lparr>c_nodes := hm_insert n ?nd (c_nodes c)\<rparr>"
    have "mark_core_node_online L n svc online info timeout c = Some (True, c1)"
      using new by (simp add: mark_core_node_online_def node_view_def c1_def)
    then obtain c' where c': "mark_source_online L E waits n svc online info timeout c = Done c'" "c_nodes c' = c_nodes c1"
      by (simp add: mark_source_online_def Let_def)
    have v: "node_view c' m = (if m = n then Some (Some svc, online) else node_view c m)" for m
      by (simp add: node_view_def c'(2) c1_def hm.get_insert [OF wf])
    moreover have "hm_wf (c_nodes c')" by (simp add: c'(2) c1_def hm.wf_insert [OF wf])
    ultimately show ?thesis using c'(1) new nok [of c'] nv by auto
  next
    case same
    obtain c' where "mark_source_online L E waits n svc online info timeout c = Done c'" "hm_wf (c_nodes c')"
      "\<And>m. node_view c' m = (if m = n then Some (Some svc, online) else node_view c m)"
      using mark_source_same_svc [OF assms(1) same wf] by metis
    then show ?thesis using same nok [of c'] nv by auto
  next
    case moved
    obtain nd where nd: "hm_get (c_nodes c) n = Some nd" "nd_svc nd = Some s"
      using moved(1) by (auto simp: node_view_def)
    define nd1 where "nd1 = (if nd_online nd \<noteq> online then nd\<lparr>nd_online := online\<rparr> else nd)"
    define c1 where "c1 = c\<lparr>c_nodes := hm_insert n nd1 (c_nodes c)\<rparr>"
    have "mark_core_node_online L n svc online info timeout c = Some (False, c1)"
      using nd moved(2) by (cases "nd_online nd = online") (simp_all add: mark_core_node_online_def nd1_def c1_def Let_def)
    then have m: "mark_source_online L E waits n svc online info timeout c = destroy_source n waits c1"
      by (simp add: mark_source_online_def)
    define sh where "sh = get_or_create_source n '''' (c_inventory c1) (c_heap c1)"
    define c2 where "c2 = c1\<lparr>c_heap := src_mark_destroyed (fst sh) (snd sh), c_inv_process := hs_insert n (c_inv_process c1)\<rparr>"
    have w: "wait_source n waits (c1\<lparr>c_heap := src_mark_destroyed (fst sh) (snd sh)\<rparr>) = (True, c2)"
      using assms(5) by (cases waits) (simp_all add: lock_source_def c2_def c1_def)
    have h: "hp_items (snd sh) = hp_items (c_heap c)" "hp_next (c_heap c) \<le> hp_next (snd sh)"
      by (auto simp: sh_def c1_def get_or_create_source_def create_source_def Let_def split: option.split)
    have ok: "core_ok c2" "inv_ok (c_inventory c2)"
      using core_ok_sources [of "src_mark_destroyed (fst sh) (snd sh)" c] h assms(3,4)
      by (simp_all add: c2_def c1_def core_ok_items src_mark_destroyed_def)
    obtain c' where c': "destroy_source n waits c1 = Done c'"
      "\<And>y. core_item c' y =
        (case core_item c2 y of Some i \<Rightarrow> if item_node i = Some n then None else Some i | None \<Rightarrow> None)"
      "c_nodes c' = hm_remove n (c_nodes c2)"
      using destroy_source_done [OF w sh_def ok] by blast
    have n2: "c_nodes c2 = hm_insert n nd1 (c_nodes c)" by (simp add: c2_def c1_def)
    note wf2 = hm.wf_insert [OF wf, of n nd1]
    have v: "node_view c' m = (if m = n then None else node_view c m)" for m
      by (simp add: node_view_def c'(3) n2 hm.get_remove [OF wf2] hm.get_insert [OF wf])
    have "hm_wf (c_nodes c')" by (simp add: c'(3) n2 hm.wf_remove [OF wf2])
    then show ?thesis
      using m c'(1,2) v moved nok [of c'] nv by (auto split: option.splits if_splits)
  qed
qed

theorem mark_source_online_effect_witness:
  "\<exists>c'. mark_source_online std_lib wit_env [] ''n1'' ''eva.repl.2'' True None None wit_core4 = Done c' \<and>
     node_view c' ''n1'' = None \<and> (\<forall>y i. core_item c' y = Some i \<longrightarrow> item_node i \<noteq> Some ''n1'')"
proof -
  have p: "''n1'' \<notin> set (c_inv_process wit_core4)" by (simp add: wit_core4_def wit_core2_def wit_core_def)
  from mark_source_online_effect [OF std_lib_node_conv wit_core4_nodes wit_core4_ok p,
      of wit_env "[]" "''eva.repl.2''" True None None]
  show ?thesis unfolding wit_core4_view by auto
qed


subsection \<open>The sensor of a source\<close>

lemma create_item_new:
  assumes "inv_lookup_ok iv" and "cells_ok iv h" and "inv_get_item iv x = None" and "oid_kind x \<noteq> KLmacro"
    and "create_item x (Some ie) None now iv h = (r, iv', h')"
  obtains i where "r = Inr i" "it_oid i = x" "it_source i = None" "it_logic i = None"
    "item_state_of h' i = Some (state_new0 ie (oid_kind x) now)"
    "\<And>y. inv_get_item iv' y = (if y = x then Some i else inv_get_item iv y)"
    "\<And>y j. inv_get_item iv y = Some j \<Longrightarrow> item_state_of h' j = item_state_of h j"
proof -
  define d where "d = \<lparr>id_oid = x, id_state = Some (state_new0 ie (oid_kind x) now), id_meta = None, id_source = None,
      id_enabled = True, id_logic = None, id_action = None\<rparr>"
  define i where "i = fst (arc_item d h)"
  have o: "it_oid i = x" "it_source i = None" "it_logic i = None" by (simp_all add: i_def d_def arc_item_def)
  have r: "fst (inv_append_item i False iv) = Inr i"
    by (simp add: inv_append_result [OF assms(1)] o assms(3))
  have c: "create_item x (Some ie) None now iv h = (fst (inv_append_item i False iv), snd (inv_append_item i False iv), snd (arc_item d h))"
    using assms(4) by (simp add: create_item_def source_from_def Let_def i_def d_def split_beta)
  show ?thesis
  proof (rule that)
    show "r = Inr i" using assms(5) c r by simp
    show "item_state_of h' i = Some (state_new0 ie (oid_kind x) now)"
      using assms(5) c by (auto simp: i_def item_state_of_arc d_def)
    show "inv_get_item iv' y = (if y = x then Some i else inv_get_item iv y)" for y
      using inv_append_get(2) [OF assms(1) r] assms(5) c o by auto
    show "item_state_of h' j = item_state_of h j" if "inv_get_item iv y = Some j" for y j
      using cells_okD(1) [OF assms(2) that] assms(5) c by (auto simp: item_state_of_arc)
  qed (rule o)+
qed

text \<open>
  The sensor of a source. If its identifier is valid, the sensor exists afterwards with status 1
  and the value 1 or 0, and its new state has been published; it is created when it was
  missing. The states of all other items stay.
\<close>

theorem set_source_sensor_effect:
  assumes ok: "core_ok c" and x: "lib_oid_from_str L (''sensor:'' @ c_system_name c @ ''/node/'' @ n) = Inr x"
    and k: "oid_kind x = KSensor" and "set_source_sensor L E n online c = (r, c')"
  shows "r = Inr () \<and> core_ok c' \<and>
    map_option (\<lambda>st. (st_status st, st_value st)) (core_state c' x) = Some (1, VU8 (if online then 1 else 0)) \<and>
    (y \<noteq> x \<longrightarrow> core_item c' y = core_item c y \<and> core_state c' y = core_state c y) \<and>
    (core_item c x \<noteq> None \<longrightarrow> core_item c' x = core_item c x) \<and>
    length (c_bus c') = length (c_bus c) + (if is_ok (en_bus E (Suc (c_tick c))) then 1 else 0)"
proof -
  obtain q iv' h' where q: "(case inv_get_item (c_inventory c) x of
        Some item \<Rightarrow> (Inr item, c_inventory c, c_heap c)
      | None \<Rightarrow> create_item x (Some (generate_ieid E c)) None (now_of E c) (c_inventory c) (c_heap c)) = (q, iv', h')"
    (is "?q = _") by (cases "?q")
  let ?c1 = "c\<lparr>c_inventory := iv', c_heap := h'\<rparr>"
  have "\<exists>i st. q = Inr i \<and> core_ok ?c1 \<and> core_item ?c1 x = Some i \<and> it_oid i = x \<and> item_state_of h' i = Some st \<and>
      (core_item c x \<noteq> None \<longrightarrow> core_item c x = Some i) \<and>
      (\<forall>y. y \<noteq> x \<longrightarrow> core_item ?c1 y = core_item c y \<and> core_state ?c1 y = core_state c y)"
  proof (cases "inv_get_item (c_inventory c) x")
    case (Some i)
    then have "q = Inr i" "?c1 = c" using q by auto
    moreover have "item_state_of (c_heap c) i \<noteq> None"
      using core_okD(3) [OF ok] Some k by (auto simp: states_ok_def)
    ultimately show ?thesis
      using Some ok ivs.get_oid [OF core_okD(1) [OF ok] Some] q by (auto simp: core_item_def)
  next
    case None
    then have cr: "create_item x (Some (generate_ieid E c)) None (now_of E c) (c_inventory c) (c_heap c) = (q, iv', h')"
      using q by simp
    obtain i where i: "q = Inr i" "it_oid i = x" "item_state_of h' i \<noteq> None"
      "\<And>y. inv_get_item iv' y = (if y = x then Some i else inv_get_item (c_inventory c) y)"
      "\<And>y j. inv_get_item (c_inventory c) y = Some j \<Longrightarrow> item_state_of h' j = item_state_of (c_heap c) j"
      using create_item_new [OF core_okD(1,2) [OF ok] None _ cr] k by (metis item_kind.distinct(9) option.distinct(1))
    have "core_ok ?c1" using items_ok_create [OF _ cr] ok by (simp add: core_ok_items)
    moreover have "core_item ?c1 y = core_item c y \<and> core_state ?c1 y = core_state c y" if "y \<noteq> x" for y
      using i(4,5) that by (cases "inv_get_item (c_inventory c) y") (simp_all add: core_item_def core_state_def)
    ultimately show ?thesis using i None by (auto simp: core_item_def)
  qed
  then obtain i st where i: "q = Inr i" "core_ok ?c1" "core_item ?c1 (it_oid i) = Some i" "it_oid i = x"
    "item_state_of (c_heap ?c1) i = Some st" "core_item c x \<noteq> None \<Longrightarrow> core_item c x = Some i"
    "\<And>y. y \<noteq> x \<Longrightarrow> core_item ?c1 y = core_item c y \<and> core_state ?c1 y = core_state c y" by auto
  define st' where "st' = force_set_state (Some 1) (Some (VU8 (if online then 1 else 0))) (generate_ieid E c) (now_of E c) st"
  have st': "st_status st' = 1" "st_value st' = VU8 (if online then 1 else 0)"
    by (simp_all add: st'_def force_set_state_def)
  let ?c2 = "tick (?c1\<lparr>c_heap := item_write_state i st' (c_heap ?c1)\<rparr>)"
  have r: "r = Inr ()" and c': "c' = process_new_state E x (local_state_event_of st') (snd (prepare_state_data L i st' ?c2)) ?c2"
    using assms(4) x q i(1,4,5) by (auto simp: set_source_sensor_def Let_def st'_def prepare_state_data_def)
  have sn: "item_state_of (c_heap ?c1) i \<noteq> None" using i(5) by simp
  note cs = commit_state [OF i(2,3) sn c']
  show ?thesis using cs i(3,4,6,7) r st' by (auto simp: core_item_def)
qed

theorem set_source_sensor_effect_witness:
  "map_option (\<lambda>st. (st_status st, st_value st))
     (core_state (snd (set_source_sensor std_lib wit_env ''n1'' True wit_core)) (OID KSensor ''plant1/node/n1'')) =
   Some (1, VU8 1)"
proof -
  have p: "lib_oid_from_str std_lib (''sensor:'' @ c_system_name wit_core @ ''/node/'' @ ''n1'') =
      Inr (OID KSensor ''plant1/node/n1'')"
    by (simp add: wit_core_def std_oid_parse_def)
  obtain r c' where s: "set_source_sensor std_lib wit_env ''n1'' True wit_core = (r, c')" by fastforce
  show ?thesis
    using set_source_sensor_effect [OF wit_core_ok p _ s] s by simp
qed

end
