(* ===== verification/Core_Repl.thy ===== *)
theory Core_Repl
  imports Core_Nodes
begin

text \<open>
  Replication (\<open>process_remote_inventory\<close> and \<open>update_state_from_repl\<close>, \<open>eva/src/core.rs\<close>): the
  inventory of another node is merged into the core's own, and single state events of its items
  are accepted when their event identifier is newer. The flag that a source has been
  destroyed is read before every item, as in the code.
\<close>

definition check_state :: "repl_inventory_item \<Rightarrow> bool" where
  "check_state r =
     (case oid_kind (ri_oid r) of
        KLvar \<Rightarrow> \<not> (ri_act r \<noteq> None \<or> ri_ieid r = None \<or> ri_t r = None)
      | KSensor \<Rightarrow> \<not> (ri_act r \<noteq> None \<or> ri_ieid r = None \<or> ri_t r = None)
      | KLmacro \<Rightarrow>
          \<not> (ri_status r \<noteq> None \<or> ri_value r \<noteq> None \<or> ri_act r \<noteq> None \<or> ri_ieid r \<noteq> None \<or> ri_t r \<noteq> None)
      | KUnit \<Rightarrow> \<not> (ri_ieid r = None \<or> ri_t r = None))"

definition meta_eq :: "eva_lib \<Rightarrow> eva_value option \<Rightarrow> eva_value option \<Rightarrow> bool" where
  "meta_eq L a b =
     (case (a, b) of (None, None) \<Rightarrow> True | (Some v, Some w) \<Rightarrow> lib_value_eq L v w | _ \<Rightarrow> False)"

text \<open>An item that is known with the same meta data: its flag and its state are updated.\<close>

definition update_existing ::
    "eva_lib \<Rightarrow> core_env \<Rightarrow> source \<Rightarrow> bool \<Rightarrow> item \<Rightarrow> repl_inventory_item \<Rightarrow> core \<Rightarrow> core" where
  "update_existing L E source online ex remote c =
     (let c1 = (if item_enabled (c_heap c) ex \<noteq> ri_enabled remote
                then c\<lparr>c_heap := item_set_enabled ex (ri_enabled remote) (c_heap c)\<rparr> else c)
      in if check_state remote \<and> oid_kind (ri_oid remote) \<noteq> KLmacro then
           (case item_state_of (c_heap c1) ex of
              None \<Rightarrow> c1
            | Some st \<Rightarrow>
                (case lib_ri_to_rs L remote of
                   Inl e \<Rightarrow> c1
                 | Inr rs \<Rightarrow>
                     if lib_ieid_gt L (rs_ieid rs) (st_ieid st) then
                       (let st' = set_from_rs rs st;
                            ev = lib_remote_event L (local_state_event_of st') (src_node source) online
                        in snd (announce_remote_state E (it_oid ex) ev True
                             (c1\<lparr>c_heap := item_write_state ex st' (c_heap c1)\<rparr>)))
                     else c1))
         else c1)"

definition create_remote ::
    "eva_lib \<Rightarrow> core_env \<Rightarrow> source \<Rightarrow> bool \<Rightarrow> repl_inventory_item \<Rightarrow> core \<Rightarrow> core" where
  "create_remote L E source online remote c =
     (let (r, iv', h') = append_remote_item remote source (c_inventory c) (c_heap c);
          c1 = c\<lparr>c_inventory := iv', c_heap := h'\<rparr>
      in case r of
           Inl e \<Rightarrow> c1
         | Inr item \<Rightarrow>
             if oid_kind (it_oid item) \<noteq> KLmacro then
               (case item_local_state_event (c_heap c1) item of
                  Some s_state \<Rightarrow>
                    snd (announce_remote_state E (it_oid item)
                      (lib_remote_event L s_state (src_node source) online) True c1)
                | None \<Rightarrow> c1)
             else c1)"

definition process_remote_item ::
    "eva_lib \<Rightarrow> core_env \<Rightarrow> source \<Rightarrow> bool \<Rightarrow> (oid, item) hmap option \<Rightarrow> repl_inventory_item \<Rightarrow> core \<Rightarrow> core" where
  "process_remote_item L E source online existing remote c =
     (case existing of
        Some ex_items \<Rightarrow>
          (case hm_get ex_items (ri_oid remote) of
             Some ex \<Rightarrow>
               if it_source ex = None then c
               else if meta_eq L (it_meta ex) (ri_meta remote) then update_existing L E source online ex remote c
               else create_remote L E source online remote c
           | None \<Rightarrow> create_remote L E source online remote c)
      | None \<Rightarrow> if check_state remote then create_remote L E source online remote c else c)"

fun process_remote_items ::
    "eva_lib \<Rightarrow> core_env \<Rightarrow> source \<Rightarrow> bool \<Rightarrow> (oid, item) hmap option \<Rightarrow> repl_inventory_item list \<Rightarrow> core \<Rightarrow> core" where
  "process_remote_items L E source online existing [] c = c"
| "process_remote_items L E source online existing (remote # rest) c =
     (if src_is_destroyed (c_heap c) source then c
      else process_remote_items L E source online existing rest
             (process_remote_item L E source online existing remote c))"

fun remove_missing :: "source \<Rightarrow> (oid, repl_inventory_item) hmap \<Rightarrow> oid list \<Rightarrow> core \<Rightarrow> core" where
  "remove_missing source remote_inv [] c = c"
| "remove_missing source remote_inv (x # xs) c =
     (if src_is_destroyed (c_heap c) source then c
      else remove_missing source remote_inv xs
             (if \<not> hm_contains remote_inv x then remove_from_inventory x c else c))"

definition process_remote_inventory ::
    "eva_lib \<Rightarrow> core_env \<Rightarrow> (oid, repl_inventory_item) hmap \<Rightarrow> string \<Rightarrow> string \<Rightarrow> bool \<Rightarrow> core \<Rightarrow> unit result \<times> core" where
  "process_remote_inventory L E remote_inv source_id sender quick c =
     (if (case source_id of ch # _ \<Rightarrow> ch = CHR ''.'' | [] \<Rightarrow> False) then (Inl EInvalidParams, c)
      else
        (let (locked, c1) = (if quick then (True, c) else lock_source source_id c)
         in if \<not> locked then (Inr (), c1)
            else
              (let existing = get_items_by_source source_id (c_inventory c1);
                   (source, h) = get_or_create_source source_id sender (c_inventory c1) (c_heap c1);
                   c2 = c1\<lparr>c_heap := h\<rparr>;
                   online = src_online (c_heap c2) source;
                   c3 = (case existing of
                           Some ex_items \<Rightarrow>
                             if \<not> quick then remove_missing source remote_inv (map fst ex_items) c2 else c2
                         | None \<Rightarrow> c2);
                   c4 = process_remote_items L E source online existing (hm_values remote_inv) c3
               in (Inr (), if \<not> quick then unlock_source source_id c4 else c4))))"

subsection \<open>State events\<close>

datatype repl_event_ext =
    RseBasic replication_state_event
  | RseInventory repl_inventory_item string
  | RseBasicItem oid replication_state_event

definition accept_repl_state ::
    "eva_lib \<Rightarrow> core_env \<Rightarrow> oid \<Rightarrow> replication_state_event \<Rightarrow> item \<Rightarrow> core \<Rightarrow> unit result \<times> core" where
  "accept_repl_state L E x rse item c =
     (case item_state_of (c_heap c) item of
        None \<Rightarrow> (Inr (), c)
      | Some st \<Rightarrow>
          (case it_source item of
             None \<Rightarrow> (Inr (), c)
           | Some source \<Rightarrow>
               if rpe_node rse \<noteq> src_node source then (Inl EBusy, c)
               else
                 (let (ev, current, c1) =
                    (if lib_ieid_gt L (rpe_ieid rse) (st_ieid st) then
                       (let st' = set_from_rs (lib_rpe_to_rs L rse) st
                        in (lib_remote_event L (local_state_event_of st') (src_node source)
                              (src_online (c_heap c) source),
                            True, c\<lparr>c_heap := item_write_state item st' (c_heap c)\<rparr>))
                     else (lib_rpe_to_remote L rse, False, c))
                  in (Inr (), snd (announce_remote_state E x ev current c1)))))"

definition update_state_from_repl ::
    "eva_lib \<Rightarrow> core_env \<Rightarrow> oid \<Rightarrow> repl_event_ext \<Rightarrow> string \<Rightarrow> core \<Rightarrow> unit result \<times> core" where
  "update_state_from_repl L E x rsex sender c =
     (let basic = (\<lambda>rse.
        if oid_kind x = KLmacro then (Inl ENotImplemented, c)
        else if (oid_kind x = KLvar \<or> oid_kind x = KSensor) \<and> rpe_act rse \<noteq> None then (Inl EInvalidData, c)
        else
          (case inv_get_item (c_inventory c) x of
             Some item \<Rightarrow> accept_repl_state L E x rse item c
           | None \<Rightarrow>
               if rpe_force_accept rse then
                 (let (source, h) = get_or_create_source (rpe_node rse) sender (c_inventory c) (c_heap c);
                      (r, iv', h') = append_remote_item
                        \<lparr>ri_oid = x, ri_status = None, ri_value = None, ri_act = rpe_act rse,
                         ri_ieid = Some (IEID 0 0), ri_t = Some (Fin 0), ri_meta = None, ri_enabled = True\<rparr>
                        source (c_inventory c) h;
                      c1 = c\<lparr>c_inventory := iv', c_heap := h'\<rparr>
                  in case r of
                       Inl e \<Rightarrow> (Inl e, c1)
                     | Inr item \<Rightarrow> accept_repl_state L E x rse item c1)
               else (Inl ENotFound, c)))
      in case rsex of
           RseInventory item node \<Rightarrow>
             process_remote_inventory L E (hm_insert x item []) node sender True c
         | RseBasic rse \<Rightarrow> basic rse
         | RseBasicItem _ rse \<Rightarrow> basic rse)"

subsection \<open>What a step touches\<close>

definition touches :: "oid set \<Rightarrow> core \<Rightarrow> core \<Rightarrow> bool" where
  "touches X c c' \<longleftrightarrow>
     core_ok c' \<and> hp_sources (c_heap c') = hp_sources (c_heap c) \<and> c_inv_process c' = c_inv_process c \<and>
     (\<forall>y. y \<notin> X \<longrightarrow> core_item c' y = core_item c y \<and> core_state c' y = core_state c y)"

lemma touches_refl: "core_ok c \<Longrightarrow> touches X c c"
  by (simp add: touches_def)

lemma touches_trans: "touches X c d \<Longrightarrow> touches Y d e \<Longrightarrow> touches (X \<union> Y) c e"
  by (simp add: touches_def)

lemma touches_mono: "touches X c d \<Longrightarrow> X \<subseteq> Y \<Longrightarrow> touches Y c d"
  by (auto simp: touches_def)

lemma touches_same: "touches X c d \<Longrightarrow> same_items d e \<Longrightarrow> touches X c e"
  using core_item_same [of d e] core_state_same [of d e] core_ok_same [of d e]
  by (simp add: touches_def same_items_def)

lemma touchesD:
  assumes "touches X c d"
  shows "core_ok d" and "hp_sources (c_heap d) = hp_sources (c_heap c)" and "c_inv_process d = c_inv_process c"
    and "y \<notin> X \<Longrightarrow> core_item d y = core_item c y" and "y \<notin> X \<Longrightarrow> core_state d y = core_state c y"
  using assms by (auto simp: touches_def)

lemma announce_remote_same [simp]: "same_items c (snd (announce_remote_state E x ev cur c))"
  by (rule same_announce(2))

lemma touches_remove: "core_ok c \<Longrightarrow> touches {x} c (remove_from_inventory x c) \<and> core_item (remove_from_inventory x c) x = None"
  using ivs.remove_get [OF core_okD(1), of c x] items_ok_remove [of "c_inventory c" "c_heap c" x]
  by (simp add: touches_def remove_from_inventory_def core_ok_items core_item_def core_state_def)

lemma item_state_of_enabled [simp]: "item_state_of (item_set_enabled i b h) = item_state_of h"
  by (rule ext) (simp add: item_state_of_def item_set_enabled_def)

lemma item_set_enabled_heap [simp]:
  "hp_next (item_set_enabled i b h) = hp_next h" "hp_sources (item_set_enabled i b h) = hp_sources h"
  by (simp_all add: item_set_enabled_def)

lemma touches_enabled:
  assumes "core_ok c"
  shows "touches {} c (c\<lparr>c_heap := item_set_enabled i b (c_heap c)\<rparr>)"
proof -
  have "core_ok (c\<lparr>c_heap := item_set_enabled i b (c_heap c)\<rparr>)"
    using assms by (simp add: core_ok_def states_ok_def cells_ok_def)
  then show ?thesis by (simp add: touches_def core_state_def)
qed

lemma touches_write:
  assumes "core_ok c" and "core_item c (it_oid i) = Some i" and "item_state_of (c_heap c) i \<noteq> None"
  shows "touches {it_oid i} c (c\<lparr>c_heap := item_write_state i st (c_heap c)\<rparr>)"
    and "core_state (c\<lparr>c_heap := item_write_state i st (c_heap c)\<rparr>) (it_oid i) = Some st"
proof -
  have "core_ok (c\<lparr>c_heap := item_write_state i st (c_heap c)\<rparr>)"
    using items_ok_write [of "c_inventory c" "c_heap c" "it_oid i" i _ st] assms
    by (auto simp: core_ok_items core_item_def)
  then show "touches {it_oid i} c (c\<lparr>c_heap := item_write_state i st (c_heap c)\<rparr>)"
    using core_state_write [OF assms(1,2)] by (simp add: touches_def)
  show "core_state (c\<lparr>c_heap := item_write_state i st (c_heap c)\<rparr>) (it_oid i) = Some st"
    using core_state_write [OF assms(1,2)] by simp
qed

text \<open>The item a payload creates.\<close>

lemma append_remote_effect:
  assumes ok: "core_ok c" and a: "append_remote_item r src (c_inventory c) (c_heap c) = (q, iv', h')"
  defines "c1 \<equiv> c\<lparr>c_inventory := iv', c_heap := h'\<rparr>"
  shows "touches {ri_oid r} c c1"
    and "from_repl_item r src = Inl e \<Longrightarrow> q = Inl e \<and> core_item c1 y = core_item c y \<and> core_state c1 y = core_state c y"
    and "from_repl_item r src = Inr d \<Longrightarrow> \<exists>i. q = Inr i \<and> it_oid i = ri_oid r \<and> it_source i = Some src \<and>
      it_meta i = id_meta d \<and> core_item c1 (ri_oid r) = Some i \<and> core_state c1 (ri_oid r) = id_state d"
proof -
  have ok1: "core_ok c1" using items_ok_remote [OF _ a] ok by (simp add: core_ok_items c1_def)
  show fail: "q = Inl e \<and> core_item c1 y = core_item c y \<and> core_state c1 y = core_state c y"
    if "from_repl_item r src = Inl e" for e y
    using a that by (auto simp: append_remote_item_def c1_def core_item_def core_state_def)
  have new: "\<exists>i. q = Inr i \<and> it_oid i = ri_oid r \<and> it_source i = Some src \<and> it_meta i = id_meta d \<and>
      core_item c1 (ri_oid r) = Some i \<and> core_state c1 (ri_oid r) = id_state d \<and>
      (\<forall>y. y \<noteq> ri_oid r \<longrightarrow> core_item c1 y = core_item c y \<and> core_state c1 y = core_state c y) \<and>
      hp_sources h' = hp_sources (c_heap c)"
    if d: "from_repl_item r src = Inr d" for d
  proof -
    define i where "i = fst (arc_item d (c_heap c))"
    note o = from_repl_item_ok [OF d]
    have r: "fst (inv_append_item i True (c_inventory c)) = Inr i"
      by (simp add: inv_append_result [OF core_okD(1) [OF ok]])
    have e: "q = Inr i" "iv' = snd (inv_append_item i True (c_inventory c))" "h' = snd (arc_item d (c_heap c))"
      using a d r by (auto simp: append_remote_item_def i_def split: prod.splits)
    have g: "core_item c1 y = (if y = ri_oid r then Some i else core_item c y)" for y
      using inv_append_get(2) [OF core_okD(1) [OF ok] r, of y] e o by (simp add: c1_def core_item_def i_def)
    have "core_state c1 y = core_state c y" if "y \<noteq> ri_oid r" for y
    proof (cases "core_item c y")
      case (Some j)
      then show ?thesis
        using g [of y] that cells_okD(1) [OF core_okD(2) [OF ok], of y j] e(3)
        by (simp add: core_state_def core_item_def c1_def item_state_of_arc)
    qed (use g [of y] that in \<open>simp add: core_state_def\<close>)
    moreover have "core_state c1 (ri_oid r) = id_state d"
      using g [of "ri_oid r"] e(3) by (simp add: core_state_def c1_def i_def item_state_of_arc)
    ultimately show ?thesis using e g o by (simp add: i_def)
  qed
  show "\<exists>i. q = Inr i \<and> it_oid i = ri_oid r \<and> it_source i = Some src \<and>
      it_meta i = id_meta d \<and> core_item c1 (ri_oid r) = Some i \<and> core_state c1 (ri_oid r) = id_state d"
    if "from_repl_item r src = Inr d" using new [OF that] by blast
  show "touches {ri_oid r} c c1"
  proof (cases "from_repl_item r src")
    case (Inl e)
    then show ?thesis using fail [OF Inl] ok1 a by (auto simp: touches_def c1_def append_remote_item_def)
  next
    case (Inr d)
    from new [OF Inr] obtain i where "hp_sources h' = hp_sources (c_heap c)"
      "\<forall>y. y \<noteq> ri_oid r \<longrightarrow> core_item c1 y = core_item c y \<and> core_state c1 y = core_state c y" by blast
    then show ?thesis using ok1 by (simp add: touches_def) (simp add: c1_def)
  qed
qed

text \<open>
  What the merge makes of one payload item: an item of this source with the same meta data keeps
  its registration and takes the state if its event identifier is newer; anything else is
  registered anew with the state of the payload, if the payload is complete.
\<close>

definition merged_state :: "eva_lib \<Rightarrow> repl_inventory_item \<Rightarrow> item_state option \<Rightarrow> item_state option" where
  "merged_state L r s =
     (case s of
        None \<Rightarrow> None
      | Some st \<Rightarrow>
          (case lib_ri_to_rs L r of
             Inl e \<Rightarrow> Some st
           | Inr rs \<Rightarrow>
               if check_state r \<and> lib_ieid_gt L (rs_ieid rs) (st_ieid st) then Some (set_from_rs rs st) else Some st))"

definition remote_created :: "source \<Rightarrow> repl_inventory_item \<Rightarrow> core \<Rightarrow> core \<Rightarrow> bool" where
  "remote_created src r c c' =
     (case from_repl_item r src of
        Inl e \<Rightarrow> core_item c' (ri_oid r) = core_item c (ri_oid r) \<and> core_state c' (ri_oid r) = core_state c (ri_oid r)
      | Inr d \<Rightarrow> (\<exists>i. core_item c' (ri_oid r) = Some i \<and> it_source i = Some src \<and> it_meta i = id_meta d \<and>
          core_state c' (ri_oid r) = id_state d))"

definition remote_merged ::
    "eva_lib \<Rightarrow> source \<Rightarrow> (oid, item) hmap option \<Rightarrow> repl_inventory_item \<Rightarrow> core \<Rightarrow> core \<Rightarrow> bool" where
  "remote_merged L src existing r c c' =
     (case existing of
        None \<Rightarrow>
          if check_state r then remote_created src r c c'
          else core_item c' (ri_oid r) = core_item c (ri_oid r) \<and> core_state c' (ri_oid r) = core_state c (ri_oid r)
      | Some items \<Rightarrow>
          (case hm_get items (ri_oid r) of
             Some ex \<Rightarrow>
               if meta_eq L (it_meta ex) (ri_meta r) then
                 core_item c' (ri_oid r) = Some ex \<and>
                 core_state c' (ri_oid r) = merged_state L r (core_state c (ri_oid r))
               else remote_created src r c c'
           | None \<Rightarrow> remote_created src r c c'))"

lemma create_remote_effect:
  assumes "core_ok c"
  shows "touches {ri_oid r} c (create_remote L E src online r c)"
    and "remote_created src r c (create_remote L E src online r c)"
proof -
  obtain q iv' h' where a: "append_remote_item r src (c_inventory c) (c_heap c) = (q, iv', h')"
    by (cases "append_remote_item r src (c_inventory c) (c_heap c)")
  let ?c1 = "c\<lparr>c_inventory := iv', c_heap := h'\<rparr>"
  have same: "same_items ?c1 (create_remote L E src online r c)"
    by (auto simp: create_remote_def a Let_def split: sum.split option.split)
  note ef = append_remote_effect [OF assms a]
  show "touches {ri_oid r} c (create_remote L E src online r c)" by (rule touches_same [OF ef(1) same])
  show "remote_created src r c (create_remote L E src online r c)"
    using ef(2,3) core_item_same [OF same] core_state_same [OF same]
    by (auto simp: remote_created_def split: sum.split)
qed

text \<open>After the flag has been set, the state is left as it is or written and announced.\<close>

definition flag_set :: "item \<Rightarrow> repl_inventory_item \<Rightarrow> core \<Rightarrow> core" where
  "flag_set ex r c = (if item_enabled (c_heap c) ex \<noteq> ri_enabled r
     then c\<lparr>c_heap := item_set_enabled ex (ri_enabled r) (c_heap c)\<rparr> else c)"

lemma update_existing_cases:
  assumes "s = item_state_of (c_heap (flag_set ex r c)) ex" and "s = None \<longleftrightarrow> oid_kind (ri_oid r) = KLmacro"
  obtains (keep) "update_existing L E src online ex r c = flag_set ex r c" "merged_state L r s = s"
  | (written) st rs where "s = Some st" "merged_state L r s = Some (set_from_rs rs st)"
      "same_items ((flag_set ex r c)\<lparr>c_heap := item_write_state ex (set_from_rs rs st) (c_heap (flag_set ex r c))\<rparr>)
        (update_existing L E src online ex r c)"
proof -
  have u: "update_existing L E src online ex r c =
      (if check_state r \<and> oid_kind (ri_oid r) \<noteq> KLmacro then
         (case s of
            None \<Rightarrow> flag_set ex r c
          | Some st \<Rightarrow>
              (case lib_ri_to_rs L r of
                 Inl e \<Rightarrow> flag_set ex r c
               | Inr rs \<Rightarrow>
                   if lib_ieid_gt L (rs_ieid rs) (st_ieid st) then
                     snd (announce_remote_state E (it_oid ex)
                       (lib_remote_event L (local_state_event_of (set_from_rs rs st)) (src_node src) online) True
                       ((flag_set ex r c)\<lparr>c_heap := item_write_state ex (set_from_rs rs st) (c_heap (flag_set ex r c))\<rparr>))
                   else flag_set ex r c))
       else flag_set ex r c)"
    unfolding update_existing_def assms(1) flag_set_def Let_def by (rule refl)
  show thesis
  proof (cases s)
    case None
    then show thesis using that(1) assms(2) by (simp add: u merged_state_def)
  next
    case st: (Some st)
    show thesis
    proof (cases "lib_ri_to_rs L r")
      case (Inl e)
      then show thesis using that(1) st by (simp add: u merged_state_def)
    next
      case (Inr rs)
      show thesis
      proof (cases "check_state r \<and> lib_ieid_gt L (rs_ieid rs) (st_ieid st)")
        case True
        then show thesis using that(2) [of st rs] st Inr assms(2) by (simp add: u merged_state_def)
      next
        case False
        then show thesis using that(1) st Inr by (auto simp: u merged_state_def)
      qed
    qed
  qed
qed

lemma update_existing_effect:
  assumes ok: "core_ok c" and ex: "core_item c (ri_oid r) = Some ex" and o: "it_oid ex = ri_oid r"
  shows "touches {ri_oid r} c (update_existing L E src online ex r c) \<and>
    core_item (update_existing L E src online ex r c) (ri_oid r) = Some ex \<and>
    core_state (update_existing L E src online ex r c) (ri_oid r) = merged_state L r (core_state c (ri_oid r))"
proof -
  let ?c1 = "flag_set ex r c"
  have t1: "touches {} c ?c1" using touches_enabled [OF ok] touches_refl [OF ok] by (simp add: flag_set_def)
  have ex1: "core_item ?c1 (it_oid ex) = Some ex" and s1: "core_state ?c1 (ri_oid r) = core_state c (ri_oid r)"
    using touchesD(4,5) [OF t1, of "ri_oid r"] ex o by simp_all
  have st1: "core_state c (ri_oid r) = item_state_of (c_heap ?c1) ex" using s1 ex1 o by (simp add: core_state_def)
  have none: "core_state c (ri_oid r) = None \<longleftrightarrow> oid_kind (ri_oid r) = KLmacro"
    using core_okD(3) [OF ok] ex by (auto simp: states_ok_def core_state_def core_item_def)
  show ?thesis
  proof (rule update_existing_cases [OF st1 none, of L E src online])
    assume "update_existing L E src online ex r c = ?c1"
      "merged_state L r (core_state c (ri_oid r)) = core_state c (ri_oid r)"
    then show ?thesis using touches_mono [OF t1] ex1 s1 o by auto
  next
    fix st rs
    assume w: "core_state c (ri_oid r) = Some st"
      "merged_state L r (core_state c (ri_oid r)) = Some (set_from_rs rs st)"
      "same_items (?c1\<lparr>c_heap := item_write_state ex (set_from_rs rs st) (c_heap ?c1)\<rparr>)
        (update_existing L E src online ex r c)" (is "same_items ?w ?u")
    have n: "item_state_of (c_heap ?c1) ex \<noteq> None" unfolding st1 [symmetric] w(1) by simp
    note t = touches_write [OF touchesD(1) [OF t1] ex1 n, of "set_from_rs rs st"]
    have "touches {ri_oid r} c ?u" using touches_same [OF touches_trans [OF t1 t(1)] w(3)] o by simp
    then show ?thesis
      using core_item_same [OF w(3)] core_state_same [OF w(3)] t(2) w(2) ex1 o by simp
  qed
qed

lemma process_remote_item_effect:
  assumes ok: "core_ok c"
    and ex: "\<And>items i. existing = Some items \<Longrightarrow> hm_get items (ri_oid r) = Some i \<Longrightarrow>
      core_item c (ri_oid r) = Some i \<and> it_source i \<noteq> None"
  shows "touches {ri_oid r} c (process_remote_item L E src online existing r c)"
    and "remote_merged L src existing r c (process_remote_item L E src online existing r c)"
proof -
  have oid: "it_oid i = y" if "core_item c y = Some i" for i y
    using ivs.get_oid [OF core_okD(1) [OF ok]] that by (simp add: core_item_def)
  have "touches {ri_oid r} c (process_remote_item L E src online existing r c) \<and>
      remote_merged L src existing r c (process_remote_item L E src online existing r c)"
  proof (cases existing)
    case None
    then show ?thesis
      using touches_refl [OF ok] create_remote_effect [OF ok] by (simp add: process_remote_item_def remote_merged_def)
  next
    case items: (Some items)
    show ?thesis
    proof (cases "hm_get items (ri_oid r)")
      case None
      then show ?thesis
        using items create_remote_effect [OF ok] by (simp add: process_remote_item_def remote_merged_def)
    next
      case (Some i)
      note ci = ex [OF items Some, THEN conjunct1] ex [OF items Some, THEN conjunct2]
      obtain s where "it_source i = Some s" using ci(2) by blast
      then show ?thesis
        using items Some create_remote_effect [OF ok] update_existing_effect [OF ok ci(1) oid [OF ci(1)]]
        by (simp add: process_remote_item_def remote_merged_def)
    qed
  qed
  then show "touches {ri_oid r} c (process_remote_item L E src online existing r c)"
    "remote_merged L src existing r c (process_remote_item L E src online existing r c)" by blast+
qed

text \<open>The two loops.\<close>

lemma remote_merged_eq:
  assumes "core_item c (ri_oid r) = core_item d (ri_oid r)" "core_state c (ri_oid r) = core_state d (ri_oid r)"
    and "core_item c' (ri_oid r) = core_item d' (ri_oid r)" "core_state c' (ri_oid r) = core_state d' (ri_oid r)"
  shows "remote_merged L src existing r c c' = remote_merged L src existing r d d'"
  unfolding remote_merged_def remote_created_def assms by (rule refl)

lemma process_remote_items_effect:
  assumes "core_ok c" and "distinct (map ri_oid rs)" and "\<not> src_is_destroyed (c_heap c) src"
    and "\<And>items r i. existing = Some items \<Longrightarrow> r \<in> set rs \<Longrightarrow> hm_get items (ri_oid r) = Some i \<Longrightarrow>
      core_item c (ri_oid r) = Some i \<and> it_source i \<noteq> None"
  shows "touches (ri_oid ` set rs) c (process_remote_items L E src online existing rs c) \<and>
    (\<forall>r \<in> set rs. remote_merged L src existing r c (process_remote_items L E src online existing rs c))"
  using assms
proof (induction rs arbitrary: c)
  case Nil
  then show ?case by (simp add: touches_refl)
next
  case (Cons r rs)
  let ?d = "process_remote_item L E src online existing r c"
  have kn: "core_item c (ri_oid r) = Some i \<and> it_source i \<noteq> None"
    if "existing = Some items" "hm_get items (ri_oid r) = Some i" for items i
    by (rule Cons.prems(4) [OF that(1) _ that(2)]) simp
  have e: "touches {ri_oid r} c ?d" by (rule process_remote_item_effect(1) [OF Cons.prems(1)]) (rule kn)
  have m: "remote_merged L src existing r c ?d" by (rule process_remote_item_effect(2) [OF Cons.prems(1)]) (rule kn)
  have nd: "\<not> src_is_destroyed (c_heap ?d) src"
    using touchesD(2) [OF e] Cons.prems(3) by (simp add: src_is_destroyed_def)
  have other: "core_item ?d (ri_oid q) = core_item c (ri_oid q)" "core_state ?d (ri_oid q) = core_state c (ri_oid q)"
    if "q \<in> set rs" for q
  proof -
    have "ri_oid q \<in> ri_oid ` set rs" using that by simp
    then have "ri_oid q \<notin> {ri_oid r}" using Cons.prems(2) by auto
    then show "core_item ?d (ri_oid q) = core_item c (ri_oid q)" "core_state ?d (ri_oid q) = core_state c (ri_oid q)"
      using touchesD(4,5) [OF e] by blast+
  qed
  let ?f = "process_remote_items L E src online existing rs ?d"
  have kn': "core_item ?d (ri_oid q) = Some i \<and> it_source i \<noteq> None"
    if "existing = Some items" "q \<in> set rs" "hm_get items (ri_oid q) = Some i" for items q i
    unfolding other(1) [OF that(2)] by (rule Cons.prems(4) [OF that(1) _ that(3)]) (simp add: that(2))
  have di: "distinct (map ri_oid rs)" using Cons.prems(2) by simp
  have IH: "touches (ri_oid ` set rs) ?d ?f \<and> (\<forall>q \<in> set rs. remote_merged L src existing q ?d ?f)"
    by (rule Cons.IH [OF touchesD(1) [OF e] di nd]) (rule kn')
  have ih: "touches (ri_oid ` set rs) ?d ?f" "\<And>q. q \<in> set rs \<Longrightarrow> remote_merged L src existing q ?d ?f"
    using IH by blast+
  have "remote_merged L src existing q c ?f" if "q \<in> set rs" for q
    using ih(2) [OF that] remote_merged_eq [of ?d q c ?f ?f] other [OF that] by simp
  moreover have "ri_oid r \<notin> ri_oid ` set rs" using Cons.prems(2) by simp
  then have "remote_merged L src existing r c ?f"
    using m remote_merged_eq [of c r c ?d ?f] touchesD(4,5) [OF ih(1), of "ri_oid r"] by simp
  moreover have "touches (ri_oid ` set (r # rs)) c ?f"
    using touches_trans [OF e ih(1)] by simp
  moreover have eq: "process_remote_items L E src online existing (r # rs) c = ?f" using Cons.prems(3) by simp
  ultimately show ?case unfolding eq by (auto simp del: process_remote_items.simps)
qed

lemma remove_missing_effect:
  assumes "core_ok c" and "\<not> src_is_destroyed (c_heap c) src"
  shows "touches {x \<in> set xs. \<not> hm_contains ri x} c (remove_missing src ri xs c) \<and>
    (\<forall>x \<in> set xs. \<not> hm_contains ri x \<longrightarrow> core_item (remove_missing src ri xs c) x = None)"
  using assms
proof (induction xs arbitrary: c)
  case Nil
  then show ?case by (simp add: touches_refl)
next
  case (Cons x xs)
  let ?d = "if \<not> hm_contains ri x then remove_from_inventory x c else c"
  have t: "touches {y. y = x \<and> \<not> hm_contains ri x} c ?d"
    using touches_remove [OF Cons.prems(1), of x] touches_refl [OF Cons.prems(1)] by auto
  have nd: "\<not> src_is_destroyed (c_heap ?d) src"
    using touchesD(2) [OF t] Cons.prems(2) by (simp add: src_is_destroyed_def)
  let ?f = "remove_missing src ri xs ?d"
  note ih = Cons.IH [OF touchesD(1) [OF t] nd]
  have gone: "core_item ?f x = None" if x: "\<not> hm_contains ri x"
  proof (cases "x \<in> set xs")
    case True
    then show ?thesis using ih x by blast
  next
    case False
    have "x \<notin> {y \<in> set xs. \<not> hm_contains ri y}" using False by simp
    then have "core_item ?f x = core_item ?d x" by (rule touchesD(4) [OF ih [THEN conjunct1]])
    then show ?thesis using touches_remove [OF Cons.prems(1), of x] x by simp
  qed
  have "touches {y \<in> set (x # xs). \<not> hm_contains ri y} c ?f"
    by (rule touches_mono [OF touches_trans [OF t ih [THEN conjunct1]]]) auto
  moreover have "remove_missing src ri (x # xs) c = ?f" using Cons.prems(2) by simp
  ultimately show ?case using gone ih by (auto simp del: remove_missing.simps)
qed

subsection \<open>The merge\<close>

definition rinv_ok :: "(oid, repl_inventory_item) hmap \<Rightarrow> bool" where
  "rinv_ok ri \<longleftrightarrow> hm_wf ri \<and> (\<forall>(x, r) \<in> set ri. ri_oid r = x)"

lemma rinv_values:
  assumes "rinv_ok ri"
  shows "distinct (map ri_oid (hm_values ri))" and "r \<in> set (hm_values ri) \<longleftrightarrow> hm_get ri (ri_oid r) = Some r"
    and "ri_oid ` set (hm_values ri) = {x. hm_contains ri x}"
proof -
  have e: "map ri_oid (hm_values ri) = map fst ri" using assms by (auto simp: rinv_ok_def hm_values_def)
  then show "distinct (map ri_oid (hm_values ri))" using assms by (simp add: rinv_ok_def hm_wf_def)
  have "(x, r) \<in> set ri \<Longrightarrow> ri_oid r = x" for x using assms by (auto simp: rinv_ok_def)
  then show "r \<in> set (hm_values ri) \<longleftrightarrow> hm_get ri (ri_oid r) = Some r"
    using assms hm.entries_get [of ri, symmetric] by (auto simp: rinv_ok_def in_hm_values)
  have "set (map ri_oid (hm_values ri)) = set (map fst ri)" by (simp only: e)
  then show "ri_oid ` set (hm_values ri) = {x. hm_contains ri x}"
    using hm_contains_iff [of ri] assms by (auto simp: rinv_ok_def)
qed

lemma get_or_create_source_effect:
  assumes "core_ok c" and "get_or_create_source n svc (c_inventory c) (c_heap c) = (src, h)" and "inv_ok (c_inventory c)"
  shows "core_ok (c\<lparr>c_heap := h\<rparr>)" and "core_state (c\<lparr>c_heap := h\<rparr>) y = core_state c y" and "src_node src = n"
    and "hm_get (inv_sources (c_inventory c)) n = None \<Longrightarrow> \<not> src_is_destroyed h src"
    and "hm_get (inv_sources (c_inventory c)) n = Some s \<Longrightarrow> src = s \<and> h = c_heap c"
proof -
  have h: "hp_items h = hp_items (c_heap c)" "hp_next (c_heap c) \<le> hp_next h"
    using assms(2) by (auto simp: get_or_create_source_def create_source_def Let_def split: option.splits)
  then show "core_ok (c\<lparr>c_heap := h\<rparr>)" using core_ok_sources assms(1) by blast
  show "core_state (c\<lparr>c_heap := h\<rparr>) y = core_state c y"
    using h by (cases "core_item c y") (simp_all add: core_state_def item_state_of_def)
  show "src_node src = n"
    using assms(2) inv_okD(8) [OF assms(3)]
    by (auto simp: get_or_create_source_def create_source_def Let_def split: option.splits)
  show "hm_get (inv_sources (c_inventory c)) n = None \<Longrightarrow> \<not> src_is_destroyed h src"
    using assms(2) by (auto simp: get_or_create_source_def create_source_def Let_def src_is_destroyed_def)
  show "hm_get (inv_sources (c_inventory c)) n = Some s \<Longrightarrow> src = s \<and> h = c_heap c"
    using assms(2) by (auto simp: get_or_create_source_def)
qed

text \<open>The items of the source that a full payload does not name any more.\<close>

definition missing :: "string \<Rightarrow> (oid, repl_inventory_item) hmap \<Rightarrow> bool \<Rightarrow> core \<Rightarrow> oid set" where
  "missing n ri quick c =
     {x. \<not> hm_contains ri x \<and> \<not> quick \<and> (\<exists>i. core_item c x = Some i \<and> item_node i = Some n)}"

lemma merge_removal:
  assumes ok: "core_ok c" "inv_ok (c_inventory c)" and nd: "\<not> src_is_destroyed (c_heap c) src"
    and ex: "ex = get_items_by_source n (c_inventory c)"
    and c3: "c3 = (case ex of Some items \<Rightarrow> if \<not> quick then remove_missing src ri (map fst items) c else c | None \<Rightarrow> c)"
  shows "touches (missing n ri quick c) c c3 \<and> (\<forall>x \<in> missing n ri quick c. core_item c3 x = None)"
proof (cases ex)
  case None
  have "item_node i \<noteq> Some n" if "core_item c x = Some i" for x i
    using source_index_None [OF ok(2)] that None by (simp add: ex get_items_by_source_def core_item_def)
  then show ?thesis using touches_refl [OF ok(1)] None by (auto simp: c3 missing_def)
next
  case (Some items)
  have "x \<in> set (map fst items) \<longleftrightarrow> (\<exists>i. core_item c x = Some i \<and> item_node i = Some n)" for x
    using source_index [OF ok(2)] Some by (simp add: ex get_items_by_source_def core_item_def)
  then have "missing n ri quick c = (if quick then {} else {x \<in> set (map fst items). \<not> hm_contains ri x})"
    by (auto simp: missing_def)
  then show ?thesis
    using remove_missing_effect [OF ok(1) nd, of "map fst items" ri] touches_refl [OF ok(1)] Some by (auto simp: c3)
qed

lemma merge_items:
  assumes ok: "core_ok c" "inv_ok (c_inventory c)" and ri: "rinv_ok ri" and nd: "\<not> src_is_destroyed (c_heap c) src"
    and ex: "ex = get_items_by_source n (c_inventory c)"
    and c3: "c3 = (case ex of Some items \<Rightarrow> if \<not> quick then remove_missing src ri (map fst items) c else c | None \<Rightarrow> c)"
    and c4: "c4 = process_remote_items L E src online ex (hm_values ri) c3"
  shows "core_ok c4 \<and> c_inv_process c4 = c_inv_process c \<and>
    (\<forall>r. hm_get ri (ri_oid r) = Some r \<longrightarrow> remote_merged L src ex r c c4) \<and>
    (\<forall>y \<in> missing n ri quick c. core_item c4 y = None) \<and>
    (\<forall>y. hm_get ri y = None \<and> y \<notin> missing n ri quick c \<longrightarrow>
      core_item c4 y = core_item c y \<and> core_state c4 y = core_state c y)"
proof -
  have t3: "touches (missing n ri quick c) c c3" and gone: "\<And>x. x \<in> missing n ri quick c \<Longrightarrow> core_item c3 x = None"
    using merge_removal [OF ok nd ex c3] by blast+
  have keep: "core_item c3 (ri_oid r) = core_item c (ri_oid r)" "core_state c3 (ri_oid r) = core_state c (ri_oid r)"
    if "hm_get ri (ri_oid r) = Some r" for r
  proof -
    have "ri_oid r \<notin> missing n ri quick c" using that by (simp add: missing_def hm_contains_def)
    then show "core_item c3 (ri_oid r) = core_item c (ri_oid r)" "core_state c3 (ri_oid r) = core_state c (ri_oid r)"
      using touchesD(4,5) [OF t3] by blast+
  qed
  have kn: "core_item c3 (ri_oid r) = Some i \<and> it_source i \<noteq> None"
    if "ex = Some items" "r \<in> set (hm_values ri)" "hm_get items (ri_oid r) = Some i" for items r i
  proof -
    have "indexed (c_inventory c) (Some n) (ri_oid r) = Some i"
      using that(1,3) by (simp add: indexed_def ex get_items_by_source_def)
    then have "core_item c (ri_oid r) = Some i \<and> item_node i = Some n"
      using inv_okD(6) [OF ok(2)] by (simp add: core_item_def)
    then show ?thesis using keep(1) rinv_values(2) [OF ri] that(2) by (auto simp: item_node_def)
  qed
  have nd3: "\<not> src_is_destroyed (c_heap c3) src" using touchesD(2) [OF t3] nd by (simp add: src_is_destroyed_def)
  have p: "touches (ri_oid ` set (hm_values ri)) c3 c4 \<and> (\<forall>r \<in> set (hm_values ri). remote_merged L src ex r c3 c4)"
    unfolding c4 by (rule process_remote_items_effect [OF touchesD(1) [OF t3] rinv_values(1) [OF ri] nd3]) (rule kn)
  have t4: "touches {x. hm_contains ri x} c3 c4" using p rinv_values(3) [OF ri] by simp
  have "remote_merged L src ex r c c4" if r: "hm_get ri (ri_oid r) = Some r" for r
  proof -
    have "remote_merged L src ex r c3 c4" using p rinv_values(2) [OF ri] r by blast
    then show ?thesis using remote_merged_eq [of c3 r c c4 c4] keep [OF r] by simp
  qed
  moreover have "core_item c4 y = None" if y: "y \<in> missing n ri quick c" for y
    using gone [OF y] touchesD(4) [OF t4, of y] y by (simp add: missing_def)
  moreover have "core_item c4 y = core_item c y \<and> core_state c4 y = core_state c y"
    if "hm_get ri y = None \<and> y \<notin> missing n ri quick c" for y
    using touchesD(4,5) [OF t4, of y] touchesD(4,5) [OF t3, of y] that by (simp add: hm_contains_def)
  ultimately show ?thesis
    using touchesD(1,3) [OF t4] touchesD(3) [OF t3] by (simp add: touchesD(1) [OF t4])
qed

lemma process_remote_inventory_result:
  assumes ok: "core_ok c" "inv_ok (c_inventory c)" and ri: "rinv_ok ri" and dot: "take 1 n \<noteq> ''.''"
    and free: "quick \<or> n \<notin> set (c_inv_process c)"
    and src: "get_or_create_source n sender (c_inventory c) (c_heap c) = (src, h)" and nd: "\<not> src_is_destroyed h src"
    and p: "process_remote_inventory L E ri n sender quick c = (r, c')"
  shows "r = Inr () \<and> core_ok c' \<and> set (c_inv_process c') = set (c_inv_process c) \<and>
    (\<forall>q. hm_get ri (ri_oid q) = Some q \<longrightarrow> remote_merged L src (get_items_by_source n (c_inventory c)) q c c') \<and>
    (\<forall>y \<in> missing n ri quick c. core_item c' y = None) \<and>
    (\<forall>y. hm_get ri y = None \<and> y \<notin> missing n ri quick c \<longrightarrow>
      core_item c' y = core_item c y \<and> core_state c' y = core_state c y)"
proof -
  define c1 where "c1 = (if quick then c else c\<lparr>c_inv_process := hs_insert n (c_inv_process c)\<rparr>)"
  define c2 where "c2 = c1\<lparr>c_heap := h\<rparr>"
  define c3 where "c3 = (case get_items_by_source n (c_inventory c2) of
    Some items \<Rightarrow> if \<not> quick then remove_missing src ri (map fst items) c2 else c2 | None \<Rightarrow> c2)"
  define c4 where "c4 = process_remote_items L E src (src_online h src) (get_items_by_source n (c_inventory c2)) (hm_values ri) c3"
  have i1: "c_inventory c1 = c_inventory c" "c_heap c1 = c_heap c" by (simp_all add: c1_def)
  have i2: "c_inventory c2 = c_inventory c" "c_heap c2 = h" by (simp_all add: c2_def i1)
  have d: "\<not> (case n of ch # _ \<Rightarrow> ch = CHR ''.'' | [] \<Rightarrow> False)" using dot by (auto split: list.split)
  have l: "(if quick then (True, c) else lock_source n c) = (True, c1)" using free by (auto simp: lock_source_def c1_def)
  have "process_remote_inventory L E ri n sender quick c = (Inr (), if \<not> quick then unlock_source n c4 else c4)"
    unfolding c4_def c3_def c2_def using d l src by (simp add: process_remote_inventory_def i1 Let_def)
  then have r: "r = Inr ()" and c': "c' = (if \<not> quick then unlock_source n c4 else c4)" using p by simp_all
  note g = get_or_create_source_effect [OF ok(1) src ok(2)]
  have ok2: "core_ok c2" "inv_ok (c_inventory c2)" "\<not> src_is_destroyed (c_heap c2) src"
    using g(1) ok(2) nd by (simp_all add: core_ok_items i2)
  have it2: "core_item c2 y = core_item c y" for y by (simp add: core_item_def i2)
  have st2: "core_state c2 y = core_state c y" for y using g(2) [of y] by (simp add: core_state_def core_item_def i2)
  have m2: "missing n ri quick c2 = missing n ri quick c" by (simp add: missing_def it2)
  note m = merge_items [OF ok2(1,2) ri ok2(3) refl c3_def c4_def]
  have i4: "core_item c' y = core_item c4 y" "core_state c' y = core_state c4 y" for y
    by (simp_all add: c' core_item_def core_state_def unlock_source_def)
  have "core_ok c'" using m by (simp add: c' core_ok_items unlock_source_def)
  moreover have "set (c_inv_process c') = set (c_inv_process c)"
    using m free by (auto simp: c' unlock_source_def c2_def c1_def)
  moreover have "remote_merged L src (get_items_by_source n (c_inventory c)) q c c'" if "hm_get ri (ri_oid q) = Some q" for q
    using m that remote_merged_eq [of c q c2 c' c4] by (simp add: it2 st2 i4 i2)
  ultimately show ?thesis using m r by (simp add: m2 it2 st2 i4)
qed

subsection \<open>Properties\<close>



text \<open>
  A payload with a reserved source name is refused, and a full payload of a source that is
  being processed is ignored; both leave the core as it is.
\<close>

theorem process_remote_inventory_refused:
  "(take 1 n = ''.'' \<longrightarrow> process_remote_inventory L E ri n sender quick c = (Inl EInvalidParams, c)) \<and>
   (take 1 n \<noteq> ''.'' \<and> \<not> quick \<and> n \<in> set (c_inv_process c) \<longrightarrow>
     process_remote_inventory L E ri n sender quick c = (Inr (), c))"
  by (cases n) (auto simp: process_remote_inventory_def lock_source_def)

theorem process_remote_inventory_refused_witness:
  "process_remote_inventory std_lib wit_env [] ''.local'' ''s'' False wit_core = (Inl EInvalidParams, wit_core)"
  using process_remote_inventory_refused [of "''.local''" std_lib wit_env "[]" "''s''" False wit_core] by simp

text \<open>
  The payload of a remote node takes over a local item: a local item that the payload of a
  source names, with a complete state, is registered as an item of this source
  afterwards. The check that is to prevent it compares with the items of the source only, among which
  there are no local items.
\<close>

theorem remote_inventory_takes_over_local:
  assumes "core_ok c" and "inv_ok (c_inventory c)" and "rinv_ok ri" and "take 1 n \<noteq> ''.''"
    and "quick \<or> n \<notin> set (c_inv_process c)"
    and "get_or_create_source n sender (c_inventory c) (c_heap c) = (src, h)" and "\<not> src_is_destroyed h src"
    and "process_remote_inventory L E ri n sender quick c = (r, c')"
    and "core_item c x = Some i" and "it_source i = None" and "hm_get ri x = Some q" and "ri_oid q = x"
    and "oid_kind x \<noteq> KLmacro" and "check_state q"
  shows "\<exists>j. core_item c' x = Some j \<and> it_source j = Some src"
proof -
  have m: "remote_merged L src (get_items_by_source n (c_inventory c)) q c c'"
    using process_remote_inventory_result [OF assms(1-8)] assms(11,12) by blast
  have "hm_get items x = None" if items: "get_items_by_source n (c_inventory c) = Some items" for items
  proof (rule ccontr)
    assume "hm_get items x \<noteq> None"
    then obtain k where "indexed (c_inventory c) (Some n) x = Some k"
      using items by (auto simp: indexed_def get_items_by_source_def)
    then have "core_item c x = Some k \<and> item_node k = Some n" using inv_okD(6) [OF assms(2)] by (simp add: core_item_def)
    then show False using assms(9,10) by (simp add: item_node_def)
  qed
  then have "remote_created src q c c'"
    using m assms(12,14) by (auto simp: remote_merged_def split: option.splits)
  moreover obtain d where "from_repl_item q src = Inr d"
    using assms(12,13,14) by (cases "oid_kind x") (auto simp: from_repl_item_def check_state_def Let_def)
  ultimately show ?thesis using assms(12) by (auto simp: remote_created_def)
qed

definition wit_payload :: "(oid, repl_inventory_item) hmap" where
  "wit_payload = [(OID KSensor ''a/c'', \<lparr>ri_oid = OID KSensor ''a/c'', ri_status = Some 1, ri_value = Some (VU8 3),
     ri_act = None, ri_ieid = Some (IEID 4 4), ri_t = Some (Fin 4), ri_meta = None, ri_enabled = True\<rparr>)]"

theorem remote_inventory_takes_over_local_witness:
  "\<exists>j src. core_item (snd (process_remote_inventory std_lib wit_env wit_payload ''n2'' ''eva.repl.1'' False wit_core))
     (OID KSensor ''a/c'') = Some j \<and> it_source j = Some src"
proof -
  let ?x = "OID KSensor ''a/c''"
  obtain r c' where p: "process_remote_inventory std_lib wit_env wit_payload ''n2'' ''eva.repl.1'' False wit_core = (r, c')" by fastforce
  obtain src h where s: "get_or_create_source ''n2'' ''eva.repl.1'' (c_inventory wit_core) (c_heap wit_core) = (src, h)" by fastforce
  have iv: "inv_ok (c_inventory wit_core)" by (simp add: wit_inv_ok)
  have "hm_get (inv_sources wit_inv) ''n2'' = None" by code_simp
  then have nd: "\<not> src_is_destroyed h src" using get_or_create_source_effect(4) [OF wit_core_ok s iv] by simp
  obtain q where q: "hm_get wit_payload ?x = Some q" "ri_oid q = ?x" "check_state q"
    by (simp add: wit_payload_def hm_get_def check_state_def)
  have ri: "rinv_ok wit_payload" by (simp add: rinv_ok_def wit_payload_def hm_wf_def)
  have ci: "core_item wit_core ?x = Some (wit_item KSensor ''a/c'' 0)" by (simp add: wit_core_item)
  have ip: "c_inv_process wit_core = []" by (simp add: wit_core_def)
  have "\<exists>j. core_item c' ?x = Some j \<and> it_source j = Some src"
    using remote_inventory_takes_over_local [OF wit_core_ok iv ri _ _ s nd p ci _ q(1,2) _ q(3)] ip
    by (simp add: wit_item_def)
  then show ?thesis using p by auto
qed

text \<open>One state event for a registered item.\<close>

lemma repl_event_effect:
  assumes ok: "core_ok c" and i: "core_item c x = Some i" and st: "core_state c x = Some st"
    and a: "oid_kind x = KUnit \<or> oid_kind x \<noteq> KLmacro \<and> rpe_act rse = None"
    and u: "update_state_from_repl L E x (RseBasic rse) sender c = (r, c')"
  shows "core_ok c' \<and> core_item c' y = core_item c y \<and>
    (case it_source i of
       None \<Rightarrow> r = Inr () \<and> c' = c
     | Some src \<Rightarrow>
         if rpe_node rse \<noteq> src_node src then r = Inl EBusy \<and> c' = c
         else
           let newer = lib_ieid_gt L (rpe_ieid rse) (st_ieid st); st' = set_from_rs (lib_rpe_to_rs L rse) st
           in r = Inr () \<and> core_state c' y = (if y = x \<and> newer then Some st' else core_state c y) \<and>
              c_bus c' = c_bus c @ (if is_ok (en_bus E (c_tick c)) then
                [if newer then Frame (REMOTE_STATE_TOPIC @ oid_as_path x) None
                     (RemoteStatePl (lib_remote_event L (local_state_event_of st') (src_node src) (src_online (c_heap c) src)))
                 else Frame (REMOTE_ARCHIVE_STATE_TOPIC @ oid_as_path x) None (RemoteStatePl (lib_rpe_to_remote L rse))]
                else []))"
proof -
  have x: "it_oid i = x" using ivs.get_oid [OF core_okD(1) [OF ok]] i by (simp add: core_item_def)
  have s: "item_state_of (c_heap c) i = Some st" using i st by (simp add: core_state_def)
  have eq: "(r, c') = accept_repl_state L E x rse i c"
    using u a i by (auto simp: update_state_from_repl_def core_item_def Let_def)
  show ?thesis
  proof (cases "it_source i")
    case None
    then show ?thesis using eq s ok by (simp add: accept_repl_state_def)
  next
    case (Some src)
    show ?thesis
    proof (cases "rpe_node rse = src_node src")
      case False
      then show ?thesis using eq s ok Some by (simp add: accept_repl_state_def)
    next
      case node: True
      let ?st' = "set_from_rs (lib_rpe_to_rs L rse) st"
      let ?c1 = "c\<lparr>c_heap := item_write_state i ?st' (c_heap c)\<rparr>"
      have ci: "core_item c (it_oid i) = Some i" "item_state_of (c_heap c) i \<noteq> None" using i x s by simp_all
      note w = touches_write [OF ok ci, of ?st']
      have bus: "c_bus (snd (announce_remote_state E x ev cur d)) = c_bus d @ (if is_ok (en_bus E (c_tick d)) then
          [Frame ((if cur then REMOTE_STATE_TOPIC else REMOTE_ARCHIVE_STATE_TOPIC) @ oid_as_path x) None (RemoteStatePl ev)] else [])" for ev cur d
        by (simp add: announce_remote_state_def publish_def tick_def split: sum.split)
      have same: "core_ok (snd (announce_remote_state E x ev cur d)) = core_ok d"
        "core_item (snd (announce_remote_state E x ev cur d)) y = core_item d y"
        "core_state (snd (announce_remote_state E x ev cur d)) y = core_state d y" for ev cur d
        using core_ok_same [OF announce_remote_same] core_item_same [OF announce_remote_same]
          core_state_same [OF announce_remote_same] by blast+
      show ?thesis
      proof (cases "lib_ieid_gt L (rpe_ieid rse) (st_ieid st)")
        case True
        then show ?thesis
          using eq s Some node touchesD(1) [OF w(1)] touchesD(5) [OF w(1), of y] w(2) x
          by (auto simp: accept_repl_state_def Let_def same bus)
      next
        case False
        then show ?thesis using eq s Some node ok by (auto simp: accept_repl_state_def Let_def same bus)
      qed
    qed
  qed
qed

text \<open>
  C26: a state event of another node for a registered item. It never changes a local item; it is refused as
  busy if it comes from a node the item does not belong to. Otherwise, if its event identifier is
  newer, the item takes the state and the current state is published; if it is not, the
  state stays and the event is published as an archive one. No other item changes.
\<close>

theorem update_state_from_repl_effect:
  assumes "core_ok c" and "core_item c x = Some i" and "core_state c x = Some st"
    and "oid_kind x = KUnit \<or> oid_kind x \<noteq> KLmacro \<and> rpe_act rse = None"
    and "update_state_from_repl L E x (RseBasic rse) sender c = (r, c')"
  shows "core_item c' y = core_item c y \<and>
    (case it_source i of
       None \<Rightarrow> r = Inr () \<and> c' = c
     | Some src \<Rightarrow>
         if rpe_node rse \<noteq> src_node src then r = Inl EBusy \<and> c' = c
         else
           let newer = lib_ieid_gt L (rpe_ieid rse) (st_ieid st); st' = set_from_rs (lib_rpe_to_rs L rse) st
           in r = Inr () \<and> core_state c' y = (if y = x \<and> newer then Some st' else core_state c y) \<and>
              c_bus c' = c_bus c @ (if is_ok (en_bus E (c_tick c)) then
                [if newer then Frame (REMOTE_STATE_TOPIC @ oid_as_path x) None
                     (RemoteStatePl (lib_remote_event L (local_state_event_of st') (src_node src) (src_online (c_heap c) src)))
                 else Frame (REMOTE_ARCHIVE_STATE_TOPIC @ oid_as_path x) None (RemoteStatePl (lib_rpe_to_remote L rse))]
                else []))"
  using repl_event_effect [OF assms] by blast

theorem update_state_from_repl_effect_witness:
  "map fr_topic (c_bus (snd (update_state_from_repl std_lib wit_env (OID KUnit ''b/u'')
     (RseBasic \<lparr>rpe_status = 1, rpe_value = VU8 1, rpe_act = Some 0, rpe_ieid = IEID 1 4, rpe_t = Fin 1,
        rpe_node = ''n1'', rpe_force_accept = False\<rparr>) ''s'' wit_core2))) = [''ST/RAR/unit/b/u'']"
proof -
  let ?rse = "\<lparr>rpe_status = 1, rpe_value = VU8 1, rpe_act = Some 0, rpe_ieid = IEID 1 4, rpe_t = Fin 1,
    rpe_node = ''n1'', rpe_force_accept = False\<rparr>"
  let ?x = "OID KUnit ''b/u''"
  obtain r c' where u: "update_state_from_repl std_lib wit_env ?x (RseBasic ?rse) ''s'' wit_core2 = (r, c')" by fastforce
  have i: "core_item wit_core2 ?x = Some wit_remote" by (simp add: wit_core2_item)
  have st: "core_state wit_core2 ?x = Some (state_new 1 (VU8 7) None (IEID 1 5) (Fin 2))"
    by (simp add: core_state_def i item_state_of_def) (simp add: wit_core2_def wit_heap_def)
  have gt: "\<not> lib_ieid_gt std_lib (rpe_ieid ?rse) (st_ieid (state_new 1 (VU8 7) None (IEID 1 5) (Fin 2)))"
    by (simp add: std_ieid_gt_def state_new_def)
  have "oid_as_path ?x = ''unit/b/u''" by code_simp
  then show ?thesis
    using update_state_from_repl_effect [OF wit_core2_ok i st _ u, of ?x] gt u
    by (simp add: wit_source_def wit_env_def wit_core2_def REMOTE_ARCHIVE_STATE_TOPIC_def)
qed

text \<open>
  C3: replication converges. However the state events of a remote item are ordered, repeated or
  delayed, after all of them the item holds an event identifier that none of theirs is newer
  than, and the identifier never goes back on the way.
\<close>

definition replay :: "eva_lib \<Rightarrow> core_env \<Rightarrow> oid \<Rightarrow> string \<Rightarrow> replication_state_event list \<Rightarrow> core \<Rightarrow> core" where
  "replay L E x sender evs c = fold (\<lambda>e c. snd (update_state_from_repl L E x (RseBasic e) sender c)) evs c"



end
