(* ===== verification/Core_Announce.thy ===== *)
theory Core_Announce
  imports Core_Repl "HOL-Library.List_Lexorder" "HOL-Library.Char_ord"
begin

text \<open>
  The remaining operations on items (\<open>eva/src/core.rs\<close>): enabling and disabling local items, the
  initial announcement of the local states, the forced announcements, and the listing of
  items. The order of item identifiers, by which a listing is sorted, is the parameter \<open>le\<close>.
\<close>

definition enable_one :: "core_env \<Rightarrow> bool \<Rightarrow> item \<Rightarrow> (oid \<times> eva_value) list \<times> core \<Rightarrow> (oid \<times> eva_value) list \<times> core" where
  "enable_one E val i p =
     (case p of (configs, c) \<Rightarrow>
        let c1 = c\<lparr>c_heap := item_set_enabled i val (c_heap c)\<rparr>
        in case item_config (en_ser E) (c_heap c1) i of
             Inr config \<Rightarrow> (configs @ [(it_oid i, config)], c1)
           | Inl e \<Rightarrow> (configs, c1))"

definition set_local_items_enabled ::
    "eva_lib \<Rightarrow> core_env \<Rightarrow> oid_mask \<Rightarrow> bool \<Rightarrow> core \<Rightarrow> unit result \<times> core" where
  "set_local_items_enabled L E msk val c =
     (let items = filter (\<lambda>i. it_source i = None) (inv_get_items_by_mask L (c_inventory c) msk filter_default True);
          (configs, c1) = fold (enable_one E val) items ([], c)
      in (Inr (), fold (\<lambda>(x, config) c. snd (save_item_config E x config c)) configs c1))"

fun announce_initial_items :: "core_env \<Rightarrow> item list \<Rightarrow> core \<Rightarrow> core" where
  "announce_initial_items E [] c = c"
| "announce_initial_items E (i # rest) c =
     (if \<not> c_active c then c
      else announce_initial_items E rest
             (case item_local_state_event (c_heap c) i of
                Some s_state \<Rightarrow> snd (announce_local_state E (it_oid i) s_state c)
              | None \<Rightarrow> c))"

definition announce_local_initial :: "core_env \<Rightarrow> core \<Rightarrow> core" where
  "announce_local_initial E c =
     (announce_initial_items E (list_local_items (c_inventory c)) c)\<lparr>c_initial_announced := True\<rparr>"

definition announce_one :: "eva_lib \<Rightarrow> core_env \<Rightarrow> string option \<Rightarrow> item \<Rightarrow> core \<Rightarrow> unit result \<times> core" where
  "announce_one L E receiver i c =
     (case item_local_state_event (c_heap c) i of
        None \<Rightarrow> (Inr (), c)
      | Some st \<Rightarrow>
          (case it_source i of
             Some src \<Rightarrow>
               (let ev = lib_remote_event L st (src_node src) (src_online (c_heap c) src)
                in case receiver of
                     None \<Rightarrow> announce_remote_state E (it_oid i) ev True c
                   | Some rcv \<Rightarrow> announce_remote_state_for E (it_oid i) ev True rcv c)
           | None \<Rightarrow>
               (case receiver of
                  None \<Rightarrow> announce_local_state E (it_oid i) st c
                | Some rcv \<Rightarrow> announce_local_state_for E (it_oid i) st rcv c)))"

fun announce_items :: "eva_lib \<Rightarrow> core_env \<Rightarrow> string option \<Rightarrow> item list \<Rightarrow> core \<Rightarrow> unit result \<times> core" where
  "announce_items L E receiver [] c = (Inr (), c)"
| "announce_items L E receiver (i # rest) c =
     (case announce_one L E receiver i c of
        (Inl e, c1) \<Rightarrow> (Inl e, c1)
      | (Inr _, c1) \<Rightarrow> announce_items L E receiver rest c1)"

definition force_announce_state ::
    "eva_lib \<Rightarrow> core_env \<Rightarrow> oid_mask list \<Rightarrow> node_filter option \<Rightarrow> core \<Rightarrow> unit result \<times> core" where
  "force_announce_state L E mask_list source_id c =
     (if \<not> c_initial_announced c then (Inr (), c)
      else announce_items L E None (list_items_with_states L mask_list source_id (c_inventory c)) c)"

definition force_announce_state_for ::
    "eva_lib \<Rightarrow> core_env \<Rightarrow> oid_mask list \<Rightarrow> node_filter option \<Rightarrow> string \<Rightarrow> core \<Rightarrow> unit result \<times> core" where
  "force_announce_state_for L E mask_list source_id receiver c =
     (if \<not> c_initial_announced c then (Inr (), c)
      else announce_items L E (Some receiver) (list_items_with_states L mask_list source_id (c_inventory c)) c)"

fun insert_by :: "(oid \<Rightarrow> oid \<Rightarrow> bool) \<Rightarrow> item \<Rightarrow> item list \<Rightarrow> item list" where
  "insert_by le i [] = [i]"
| "insert_by le i (j # js) = (if le (it_oid i) (it_oid j) then i # j # js else j # insert_by le i js)"

definition sort_items :: "(oid \<Rightarrow> oid \<Rightarrow> bool) \<Rightarrow> item list \<Rightarrow> item list" where
  "sort_items le is = foldr (insert_by le) is []"

definition list_filter ::
    "oid_mask list option \<Rightarrow> oid_mask list option \<Rightarrow> node_filter option \<Rightarrow> (string \<Rightarrow> bool) option \<Rightarrow> item_filter" where
  "list_filter include exclude source_id regex =
     (let f0 = filter_default;
          f1 = (case include of Some v \<Rightarrow> filter_include v f0 | None \<Rightarrow> f0);
          f2 = (case exclude of Some v \<Rightarrow> filter_exclude v f1 | None \<Rightarrow> f1);
          f3 = (case source_id of Some v \<Rightarrow> filter_node v f2 | None \<Rightarrow> f2)
      in case regex of Some v \<Rightarrow> filter_set_pattern v f3 | None \<Rightarrow> f3)"

definition list_items ::
    "eva_lib \<Rightarrow> (oid \<Rightarrow> oid \<Rightarrow> bool) \<Rightarrow> oid_mask list \<Rightarrow> oid_mask list option \<Rightarrow> oid_mask list option \<Rightarrow>
     node_filter option \<Rightarrow> (string \<Rightarrow> bool) option \<Rightarrow> bool \<Rightarrow> core \<Rightarrow> item list" where
  "list_items L le mask_list include exclude source_id regex include_stateless c =
     (let f = list_filter include exclude source_id regex;
          h = fold (\<lambda>msk h.
                fold (\<lambda>i h. if hm_contains h (it_oid i) then h else hm_insert (it_oid i) i h)
                  (inv_get_items_by_mask L (c_inventory c) msk f include_stateless) h)
                mask_list []
      in sort_items le (hm_values h))"

subsection \<open>Lemmas\<close>

lemma set_insert_by [simp]: "set (insert_by le i js) = insert i (set js)"
  by (induction js) auto

lemma length_insert_by [simp]: "length (insert_by le i js) = Suc (length js)"
  by (induction js) auto

lemma set_sort_items [simp]: "set (sort_items le is) = set is"
  by (induction "is") (auto simp: sort_items_def)

definition oid_order :: "(oid \<Rightarrow> oid \<Rightarrow> bool) \<Rightarrow> bool" where
  "oid_order le \<longleftrightarrow> (\<forall>x y. le x y \<or> le y x) \<and> (\<forall>x y z. le x y \<longrightarrow> le y z \<longrightarrow> le x z) \<and>
     (\<forall>x y. le x y \<longrightarrow> le y x \<longrightarrow> x = y)"

lemma sorted_insert_by:
  assumes "oid_order le" and "sorted_wrt (\<lambda>i j. le (it_oid i) (it_oid j)) js"
  shows "sorted_wrt (\<lambda>i j. le (it_oid i) (it_oid j)) (insert_by le i js)"
  using assms(2)
proof (induction js)
  case (Cons j js)
  then show ?case using assms(1) unfolding oid_order_def by (auto; blast)
qed simp

lemma sorted_sort_items:
  "oid_order le \<Longrightarrow> sorted_wrt (\<lambda>i j. le (it_oid i) (it_oid j)) (sort_items le is)"
  by (induction "is") (simp_all add: sort_items_def sorted_insert_by)

lemma distinct_insert_by: "distinct (map it_oid (insert_by le i js)) \<longleftrightarrow> it_oid i \<notin> it_oid ` set js \<and> distinct (map it_oid js)"
  by (induction js) auto

lemma distinct_sort_items: "distinct (map it_oid (sort_items le is)) \<longleftrightarrow> distinct (map it_oid is)"
proof (induction "is")
  case (Cons i "is")
  have "sort_items le (i # is) = insert_by le i (sort_items le is)" by (simp add: sort_items_def)
  then show ?case using Cons by (simp add: distinct_insert_by)
qed (simp add: sort_items_def)

lemma enable_fold:
  "\<exists>cs. fold (enable_one E v) is (cs0, c) =
     (cs, c\<lparr>c_heap := fold (\<lambda>i h. item_set_enabled i v h) is (c_heap c)\<rparr>)"
proof (induction "is" arbitrary: cs0 c)
  case (Cons i "is")
  obtain cs1 where "enable_one E v i (cs0, c) = (cs1, c\<lparr>c_heap := item_set_enabled i v (c_heap c)\<rparr>)"
    by (cases "item_config (en_ser E) (item_set_enabled i v (c_heap c)) i") (auto simp: enable_one_def Let_def)
  then show ?case using Cons.IH [of cs1 "c\<lparr>c_heap := item_set_enabled i v (c_heap c)\<rparr>"] by simp
qed simp

lemma item_enabled_set: "item_enabled (item_set_enabled i v h) j = (if it_cell j = it_cell i then v else item_enabled h j)"
  by (simp add: item_enabled_def item_set_enabled_def)

lemma enabled_fold_heap:
  "hp_next (fold (\<lambda>i h. item_set_enabled i v h) is h) = hp_next h"
  "item_state_of (fold (\<lambda>i h. item_set_enabled i v h) is h) = item_state_of h"
  "item_enabled (fold (\<lambda>i h. item_set_enabled i v h) is h) j =
     (if it_cell j \<in> it_cell ` set is then v else item_enabled h j)"
  by (induction "is" arbitrary: h) (simp_all add: item_enabled_set)

lemma same_save_configs: "same_items c (fold (\<lambda>(x, config) c. snd (save_item_config E x config c)) cs c)"
  by (rule same_fold) (simp add: split_beta)

lemma local_selected:
  assumes "core_ok c"
  shows "i \<in> set (filter (\<lambda>i. it_source i = None) (inv_get_items_by_mask L (c_inventory c) msk filter_default True)) \<longleftrightarrow>
    core_item c (it_oid i) = Some i \<and> local_match L msk c (it_oid i)"
  using assms mask_selects [of "inv_items (c_inventory c)" i L msk filter_default True]
  by (auto simp: inv_get_items_by_mask_def core_item_def inv_get_item_def core_ok_def inv_lookup_ok_def local_match_def
      filter_matches_def filter_default_def)

subsection \<open>Properties\<close>

text \<open>
  Enabling or disabling by a mask sets the flag of exactly the local items the mask matches,
  macros included. Items of other nodes and items the mask does not match keep their flag,
  and no registration and no state changes.
\<close>

theorem set_local_items_enabled_effect:
  assumes ok: "core_ok c" and s: "set_local_items_enabled L E msk v c = (r, c')" and j: "core_item c y = Some j"
  shows "r = Inr () \<and> core_ok c' \<and> core_item c' y = Some j \<and> core_state c' y = core_state c y \<and>
    item_enabled (c_heap c') j = (if local_match L msk c y then v else item_enabled (c_heap c) j)"
proof -
  let ?is = "filter (\<lambda>i. it_source i = None) (inv_get_items_by_mask L (c_inventory c) msk filter_default True)"
  let ?c1 = "c\<lparr>c_heap := fold (\<lambda>i h. item_set_enabled i v h) ?is (c_heap c)\<rparr>"
  obtain cs where cs: "fold (enable_one E v) ?is ([], c) = (cs, ?c1)" using enable_fold by blast
  have r: "r = Inr ()" and same: "same_items ?c1 c'"
    using s same_save_configs [of ?c1 E cs] by (auto simp: set_local_items_enabled_def cs)
  have ok1: "core_ok ?c1" using ok by (simp add: core_ok_def cells_ok_def states_ok_def enabled_fold_heap)
  have sel: "i \<in> set ?is \<longleftrightarrow> core_item c (it_oid i) = Some i \<and> local_match L msk c (it_oid i)" for i
    by (rule local_selected [OF ok])
  have oj: "it_oid j = y" using ivs.get_oid [OF core_okD(1) [OF ok]] j by (simp add: core_item_def)
  have "it_cell j \<in> it_cell ` set ?is \<longleftrightarrow> local_match L msk c y"
  proof
    assume "it_cell j \<in> it_cell ` set ?is"
    then obtain i where i: "i \<in> set ?is" "it_cell i = it_cell j" by force
    then have i2: "core_item c (it_oid i) = Some i" "local_match L msk c (it_oid i)" using sel by blast+
    have "it_oid i = y"
      using cells_okD(2) [OF core_okD(2) [OF ok], of "it_oid i" i y j] i2(1) i(2) j by (simp add: core_item_def)
    then show "local_match L msk c y" using i2(2) by simp
  next
    assume "local_match L msk c y"
    then show "it_cell j \<in> it_cell ` set ?is" using sel [of j] j oj by blast
  qed
  then have "item_enabled (c_heap c') j = (if local_match L msk c y then v else item_enabled (c_heap c) j)"
    using same_itemsD(2) [OF same] by (simp add: enabled_fold_heap del: set_filter)
  then show ?thesis
    using r core_ok_same [OF same] ok1 core_item_same [OF same, of y] core_state_same [OF same, of y] j
    by (simp add: core_state_def core_item_def enabled_fold_heap)
qed

theorem set_local_items_enabled_effect_witness:
  "item_enabled (c_heap (snd (set_local_items_enabled std_lib wit_env \<lparr>mask_kind = None, mask_chunks = None\<rparr> False wit_core2)))
     (wit_item KSensor ''a/c'' 0) = False \<and>
   item_enabled (c_heap (snd (set_local_items_enabled std_lib wit_env \<lparr>mask_kind = None, mask_chunks = None\<rparr> False wit_core2)))
     wit_remote = True"
proof -
  let ?m = "\<lparr>mask_kind = None, mask_chunks = None\<rparr>"
  obtain r c' where s: "set_local_items_enabled std_lib wit_env ?m False wit_core2 = (r, c')" by fastforce
  have i: "core_item wit_core2 (OID KSensor ''a/c'') = Some (wit_item KSensor ''a/c'' 0)"
    "core_item wit_core2 (OID KUnit ''b/u'') = Some wit_remote" by (simp_all add: wit_core2_item)
  have "local_match std_lib ?m wit_core2 (OID KSensor ''a/c'')" "\<not> local_match std_lib ?m wit_core2 (OID KUnit ''b/u'')"
    by (simp_all add: local_match_def i mask_matches_def wit_item_def)
  then show ?thesis
    using set_local_items_enabled_effect [OF wit_core2_ok s i(1)] set_local_items_enabled_effect [OF wit_core2_ok s i(2)] s
    by (simp add: item_enabled_def wit_core2_def wit_heap_def)
qed

text \<open>Collecting registered items into a hash set that is keyed by the identifier.\<close>

definition collected :: "core \<Rightarrow> item set \<Rightarrow> (oid, item) hmap \<Rightarrow> bool" where
  "collected c S h \<longleftrightarrow> hm_wf h \<and> (\<forall>x i. (x, i) \<in> set h \<longleftrightarrow> i \<in> S \<and> core_item c x = Some i)"

lemma collected_values:
  assumes ok: "core_ok c" and "collected c S h" and S: "\<And>i. i \<in> S \<Longrightarrow> core_item c (it_oid i) = Some i"
  shows "set (hm_values h) = S" and "distinct (map it_oid (hm_values h))"
proof -
  have oid: "it_oid i = x" if "(x, i) \<in> set h" for x i
    using assms(2) that ivs.get_oid [OF core_okD(1) [OF ok]] by (auto simp: collected_def core_item_def)
  show "set (hm_values h) = S"
    using assms(2) S unfolding set_eq_iff in_hm_values collected_def by blast
  have "map it_oid (hm_values h) = map fst h" using oid by (auto simp: hm_values_def)
  then show "distinct (map it_oid (hm_values h))" using assms(2) by (simp add: collected_def hm_wf_def)
qed

lemma collected_add:
  assumes "core_ok c" and "collected c S h" and "core_item c (it_oid i) = Some i"
  shows "collected c (insert i S) (if hm_contains h (it_oid i) then h else hm_insert (it_oid i) i h)"
proof (cases "hm_contains h (it_oid i)")
  case True
  have wf: "hm_wf h" using assms(2) by (simp add: collected_def)
  obtain j where j: "(it_oid i, j) \<in> set h" using True hm_contains_iff [OF wf] by force
  then have "j = i" using assms(2,3) by (auto simp: collected_def)
  then have "i \<in> S" using assms(2) j by (auto simp: collected_def)
  then show ?thesis using True assms(2) by (simp add: insert_absorb)
next
  case False
  have wf: "hm_wf h" using assms(2) by (simp add: collected_def)
  have new: "(it_oid i, j) \<notin> set h" for j using False hm_contains_iff [OF wf] by force
  have "(x, j) \<in> set (hm_insert (it_oid i) i h) \<longleftrightarrow> j \<in> insert i S \<and> core_item c x = Some j" for x j
  proof -
    have "x = it_oid i" if "core_item c x = Some i"
      using ivs.get_oid [OF core_okD(1) [OF assms(1)]] that by (simp add: core_item_def)
    then show ?thesis
      using assms(2,3) new by (auto simp: hm.entries_insert [OF wf] collected_def)
  qed
  then show ?thesis using False hm.wf_insert [OF wf] by (simp add: collected_def)
qed

lemma collected_fold:
  assumes "core_ok c" and "collected c S h" and "\<forall>i \<in> set is. core_item c (it_oid i) = Some i"
  shows "collected c (S \<union> set is)
    (fold (\<lambda>i h. if hm_contains h (it_oid i) then h else hm_insert (it_oid i) i h) is h)"
  using assms(2,3)
proof (induction "is" arbitrary: S h)
  case (Cons i "is")
  let ?h = "if hm_contains h (it_oid i) then h else hm_insert (it_oid i) i h"
  have "collected c (insert i S) ?h" using collected_add [OF assms(1) Cons.prems(1)] Cons.prems(2) by simp
  from Cons.IH [OF this] show ?case using Cons.prems(2) by simp
qed simp

lemma collected_masks:
  assumes "core_ok c" and "collected c S h" and "\<And>msk i. i \<in> set (pick msk) \<Longrightarrow> core_item c (it_oid i) = Some i"
  shows "collected c (S \<union> (\<Union>msk \<in> set ml. set (pick msk)))
    (fold (\<lambda>msk h. fold (\<lambda>i h. if hm_contains h (it_oid i) then h else hm_insert (it_oid i) i h) (pick msk) h) ml h)"
  using assms(2)
proof (induction ml arbitrary: S h)
  case (Cons msk ml)
  have "collected c (S \<union> set (pick msk))
      (fold (\<lambda>i h. if hm_contains h (it_oid i) then h else hm_insert (it_oid i) i h) (pick msk) h)"
    by (rule collected_fold [OF assms(1) Cons.prems]) (use assms(3) in blast)
  from Cons.IH [OF this] show ?case by (simp add: Un_assoc)
qed simp

text \<open>
  A listing is sorted by identifier, names no item twice, and consists of exactly the registered
  items that match one of the masks and pass all the filters; macros are listed on request only.
\<close>

theorem list_items_exact:
  assumes ok: "core_ok c" and le: "oid_order le"
    and l: "l = list_items L le ml inc exc sid rx stateless c"
    and f: "f = \<lparr>fl_include = inc, fl_exclude = exc, fl_node = sid, fl_pattern = rx\<rparr>"
  shows "sorted_wrt (\<lambda>i j. le (it_oid i) (it_oid j)) l \<and> distinct (map it_oid l) \<and>
    set l = {i. core_item c (it_oid i) = Some i \<and> (\<exists>msk \<in> set ml. mask_matches L msk (it_oid i)) \<and>
      filter_matches L f i \<and> (oid_kind (it_oid i) = KLmacro \<longrightarrow> stateless)}"
proof -
  let ?pick = "\<lambda>msk. inv_get_items_by_mask L (c_inventory c) msk f stateless"
  define h where "h = fold (\<lambda>msk h. fold (\<lambda>i h. if hm_contains h (it_oid i) then h else hm_insert (it_oid i) i h) (?pick msk) h) ml []"
  have "list_filter inc exc sid rx = f"
    by (simp add: f list_filter_def Let_def filter_default_def filter_include_def filter_exclude_def filter_node_def
        filter_set_pattern_def split: option.split)
  then have lh: "l = sort_items le (hm_values h)" unfolding l list_items_def Let_def h_def by simp
  have reg: "i \<in> set (?pick msk) \<longleftrightarrow> core_item c (it_oid i) = Some i \<and> mask_matches L msk (it_oid i) \<and>
      filter_matches L f i \<and> (oid_kind (it_oid i) = KLmacro \<longrightarrow> stateless)" for i msk
    using ok mask_selects [of "inv_items (c_inventory c)" i L msk f stateless]
    by (simp add: inv_get_items_by_mask_def core_item_def inv_get_item_def core_ok_def inv_lookup_ok_def)
  have "collected c ({} \<union> (\<Union>msk \<in> set ml. set (?pick msk))) h"
    unfolding h_def by (rule collected_masks [OF ok]) (use reg in \<open>auto simp: collected_def\<close>)
  then have col: "collected c (\<Union>msk \<in> set ml. set (?pick msk)) h" by simp
  note v = collected_values [OF ok col]
  have vs: "set (hm_values h) = (\<Union>msk \<in> set ml. set (?pick msk))" "distinct (map it_oid (hm_values h))"
    by (rule v; use reg in blast)+
  have "set l = (\<Union>msk \<in> set ml. set (?pick msk))" by (simp add: lh vs)
  then have "set l = {i. core_item c (it_oid i) = Some i \<and> (\<exists>msk \<in> set ml. mask_matches L msk (it_oid i)) \<and>
      filter_matches L f i \<and> (oid_kind (it_oid i) = KLmacro \<longrightarrow> stateless)}" using reg by blast
  then show ?thesis using sorted_sort_items [OF le] distinct_sort_items vs(2) by (simp add: lh)
qed

fun kind_rank :: "item_kind \<Rightarrow> nat" where
  "kind_rank KUnit = 0" | "kind_rank KSensor = 1" | "kind_rank KLvar = 2" | "kind_rank KLmacro = 3"

definition std_oid_le :: "oid \<Rightarrow> oid \<Rightarrow> bool" where
  "std_oid_le x y \<longleftrightarrow> kind_rank (oid_kind x) < kind_rank (oid_kind y) \<or>
     kind_rank (oid_kind x) = kind_rank (oid_kind y) \<and> oid_full_id x \<le> oid_full_id y"

lemma std_oid_order: "oid_order std_oid_le"
proof -
  have "k = k'" if "kind_rank k = kind_rank k'" for k k' using that by (cases k; cases k') simp_all
  then show ?thesis unfolding oid_order_def std_oid_le_def by (auto intro: oid.expand)
qed

theorem list_items_exact_witness:
  "set (list_items std_lib std_oid_le [\<lparr>mask_kind = None, mask_chunks = None\<rparr>] None None (Some NF_Local) None True wit_core2) =
     {wit_item KSensor ''a/c'' 0}"
proof -
  let ?f = "\<lparr>fl_include = None, fl_exclude = None, fl_node = Some NF_Local, fl_pattern = None\<rparr>"
  have "{i. core_item wit_core2 (it_oid i) = Some i \<and>
      (\<exists>msk \<in> set [\<lparr>mask_kind = None, mask_chunks = None\<rparr>]. mask_matches std_lib msk (it_oid i)) \<and>
      filter_matches std_lib ?f i \<and> (oid_kind (it_oid i) = KLmacro \<longrightarrow> True)} = {wit_item KSensor ''a/c'' 0}"
    by (auto simp: wit_core2_item mask_matches_def filter_matches_def node_filter_passes_def wit_item_def split: if_splits)
  then show ?thesis using list_items_exact [OF wit_core2_ok std_oid_order refl refl] by blast
qed

subsection \<open>Announcements\<close>

definition announcement :: "eva_lib \<Rightarrow> string option \<Rightarrow> core \<Rightarrow> item \<Rightarrow> frame list" where
  "announcement L receiver c i =
     (case core_state c (it_oid i) of
        None \<Rightarrow> []
      | Some st \<Rightarrow>
          (case it_source i of
             None \<Rightarrow> [Frame (LOCAL_STATE_TOPIC @ oid_as_path (it_oid i)) receiver (LocalStatePl (local_state_event_of st))]
           | Some src \<Rightarrow> [Frame (REMOTE_STATE_TOPIC @ oid_as_path (it_oid i)) receiver
               (RemoteStatePl (lib_remote_event L (local_state_event_of st) (src_node src) (src_online (c_heap c) src)))]))"

lemma announcement_same: "same_items c c' \<Longrightarrow> announcement L rcv c' i = announcement L rcv c i"
  using core_state_same [of c c'] same_itemsD(2) [of c c'] by (auto simp: announcement_def split: option.split)

lemma announce_one_effect:
  assumes "core_item c (it_oid i) = Some i" and "announce_one L E rcv i c = (r, c')"
  shows "same_items c c'"
    and "(\<forall>n. en_bus E n = Inr ()) \<Longrightarrow> r = Inr () \<and> c_bus c' = c_bus c @ announcement L rcv c i"
proof -
  have s: "item_state_of (c_heap c) i = core_state c (it_oid i)" using assms(1) by (simp add: core_state_def)
  show "same_items c c'"
  proof -
    have "same_items c (snd (announce_one L E rcv i c))" by (simp add: announce_one_def Let_def split: option.split)
    then show ?thesis using assms(2) by simp
  qed
  show "r = Inr () \<and> c_bus c' = c_bus c @ announcement L rcv c i" if "\<forall>n. en_bus E n = Inr ()"
    using assms(2) that
    by (auto simp: announce_one_def item_local_state_event_def s announcement_def announce_remote_state_def
        announce_remote_state_for_def announce_local_state_def announce_local_state_for_def publish_def tick_def Let_def
        split: option.splits)
qed

lemma announce_items_effect:
  assumes "\<forall>i \<in> set is. core_item c (it_oid i) = Some i" and "\<forall>n. en_bus E n = Inr ()"
    and "announce_items L E rcv is c = (r, c')"
  shows "r = Inr () \<and> same_items c c' \<and> c_bus c' = c_bus c @ concat (map (announcement L rcv c) is)"
  using assms(1,3)
proof (induction "is" arbitrary: c)
  case (Cons i "is")
  obtain r1 c1 where o: "announce_one L E rcv i c = (r1, c1)" by fastforce
  have i: "core_item c (it_oid i) = Some i" using Cons.prems(1) by simp
  note e = announce_one_effect(1) [OF i o] announce_one_effect(2) [OF i o assms(2)]
  have "\<forall>i \<in> set is. core_item c1 (it_oid i) = Some i" using Cons.prems(1) core_item_same [OF e(1)] by simp
  moreover have "announce_items L E rcv is c1 = (r, c')" using Cons.prems(2) o e(2) by simp
  ultimately have "r = Inr () \<and> same_items c1 c' \<and> c_bus c' = c_bus c1 @ concat (map (announcement L rcv c1) is)"
    by (rule Cons.IH)
  moreover have "announcement L rcv c1 = announcement L rcv c" by (rule ext) (rule announcement_same [OF e(1)])
  ultimately show ?case using e same_items_trans [OF e(1)] by simp
qed simp

text \<open>
  A forced announcement publishes, when the bus accepts the frames, exactly the states of the
  registered items it lists, each once and on the topic of its kind: local items on the local
  topic, items of other nodes on the remote one, to everyone or to the receiver who asked. It
  changes nothing else, and before the initial announcement it does nothing.
\<close>

theorem force_announce_exact:
  assumes "core_ok c" and "\<forall>n. en_bus E n = Inr ()"
    and "force_announce_state L E ml sid c = (r, c')" and "force_announce_state_for L E ml sid rcv c = (r2, c2)"
    and "l = (if c_initial_announced c then list_items_with_states L ml sid (c_inventory c) else [])"
  shows "r = Inr () \<and> same_items c c' \<and> c_bus c' = c_bus c @ concat (map (announcement L None c) l) \<and>
    r2 = Inr () \<and> same_items c c2 \<and> c_bus c2 = c_bus c @ concat (map (announcement L (Some rcv) c) l) \<and>
    distinct (map it_oid l) \<and>
    (c_initial_announced c \<longrightarrow> set l = {i. core_item c (it_oid i) = Some i \<and> oid_kind (it_oid i) \<noteq> KLmacro \<and>
      (\<exists>msk \<in> set ml. mask_matches L msk (it_oid i)) \<and>
      (case sid of None \<Rightarrow> True | Some v \<Rightarrow> node_filter_passes v i)})"
proof -
  let ?f = "case sid of Some v \<Rightarrow> filter_node v filter_default | None \<Rightarrow> filter_default"
  let ?pick = "\<lambda>msk. inv_get_items_by_mask L (c_inventory c) msk ?f False"
  have fm: "filter_matches L ?f i \<longleftrightarrow> (case sid of None \<Rightarrow> True | Some v \<Rightarrow> node_filter_passes v i)" for i
    by (simp add: filter_matches_def filter_node_def filter_default_def split: option.split)
  have reg: "i \<in> set (?pick msk) \<longleftrightarrow> core_item c (it_oid i) = Some i \<and> mask_matches L msk (it_oid i) \<and>
      filter_matches L ?f i \<and> oid_kind (it_oid i) \<noteq> KLmacro" for i msk
    using assms(1) mask_selects [of "inv_items (c_inventory c)" i L msk ?f False]
    by (simp add: inv_get_items_by_mask_def core_item_def inv_get_item_def core_ok_def inv_lookup_ok_def)
  define h where "h = fold (\<lambda>msk h. fold (\<lambda>i h. if hm_contains h (it_oid i) then h else hm_insert (it_oid i) i h) (?pick msk) h) ml []"
  have "collected c ({} \<union> (\<Union>msk \<in> set ml. set (?pick msk))) h"
    unfolding h_def by (rule collected_masks [OF assms(1)]) (use reg in \<open>auto simp: collected_def\<close>)
  then have col: "collected c (\<Union>msk \<in> set ml. set (?pick msk)) h" by simp
  have h: "set (hm_values h) = (\<Union>msk \<in> set ml. set (?pick msk))" "distinct (map it_oid (hm_values h))"
    by (rule collected_values [OF assms(1) col]; use reg in blast)+
  have l: "l = (if c_initial_announced c then hm_values h else [])"
    unfolding assms(5) list_items_with_states_def h_def Let_def by (rule refl)
  have lr: "\<forall>i \<in> set l. core_item c (it_oid i) = Some i" using h(1) reg by (auto simp: l)
  have a: "announce_items L E None l c = (r, c')" "announce_items L E (Some rcv) l c = (r2, c2)"
    using assms(3,4,5) by (simp_all add: force_announce_state_def force_announce_state_for_def split: if_splits)
  have "set l = {i. core_item c (it_oid i) = Some i \<and> oid_kind (it_oid i) \<noteq> KLmacro \<and>
      (\<exists>msk \<in> set ml. mask_matches L msk (it_oid i)) \<and>
      (case sid of None \<Rightarrow> True | Some v \<Rightarrow> node_filter_passes v i)}" if "c_initial_announced c"
    using that h(1) reg unfolding fm by (auto simp: l)
  then show ?thesis
    using announce_items_effect [OF lr assms(2) a(1)] announce_items_effect [OF lr assms(2) a(2)] h(2) l by simp
qed

theorem force_announce_exact_witness:
  "\<exists>f \<in> set (c_bus (snd (force_announce_state std_lib wit_env [\<lparr>mask_kind = None, mask_chunks = None\<rparr>] None wit_core2))).
     fr_topic f = ''ST/REM/unit/b/u''"
proof -
  let ?ml = "[\<lparr>mask_kind = None, mask_chunks = None\<rparr>]"
  obtain r c' where a: "force_announce_state std_lib wit_env ?ml None wit_core2 = (r, c')" by fastforce
  obtain r2 c2 where b: "force_announce_state_for std_lib wit_env ?ml None ''s'' wit_core2 = (r2, c2)" by fastforce
  define l where "l = (if c_initial_announced wit_core2 then list_items_with_states std_lib ?ml None (c_inventory wit_core2) else [])"
  have bus: "\<forall>n. en_bus wit_env n = Inr ()" by (simp add: wit_env_def)
  have init: "c_initial_announced wit_core2" by (simp add: wit_core2_def wit_core_def)
  note e = force_announce_exact [OF wit_core2_ok bus a b l_def]
  have "wit_remote \<in> set l"
    using e init by (simp add: wit_core2_item mask_matches_def)
  moreover have "core_state wit_core2 (OID KUnit ''b/u'') \<noteq> None"
    by (simp add: core_state_def wit_core2_item item_state_of_def) (simp add: wit_core2_def wit_heap_def)
  moreover have "oid_as_path (OID KUnit ''b/u'') = ''unit/b/u''" by code_simp
  ultimately have "\<exists>f \<in> set (announcement std_lib None wit_core2 wit_remote). fr_topic f = ''ST/REM/unit/b/u''"
    by (auto simp: announcement_def REMOTE_STATE_TOPIC_def)
  moreover have "set (announcement std_lib None wit_core2 wit_remote) \<subseteq> set (c_bus c')"
    using e \<open>wit_remote \<in> set l\<close> by auto
  ultimately show ?thesis using a by auto
qed

end
