(* ===== verification/Core_Action.thy ===== *)
theory Core_Action
  imports Core_Announce
begin

text \<open>
  Actions (\<open>action\<close>, \<open>kill_actions\<close>, \<open>terminate_action\<close> and \<open>action_result_serialized\<close>,
  \<open>eva/src/core.rs\<close>). A request is checked and the counter of active actions of the unit is
  incremented (\<open>action_prepare\<close>); a task launches the action, waits for its completion or its
  time-out and decrements the counter (\<open>action_launch\<close>, \<open>action_end\<close>); meanwhile the request
  reads the result (\<open>action_answer\<close>). What the other tasks do in between, the answers of the
  services and the outcome of the wait are arguments.
\<close>

record action_env =
  av_uuid :: uuid
  av_started :: nat
  av_pack :: "action \<Rightarrow> unit result"
  av_perform :: "string \<Rightarrow> string \<Rightarrow> unit result"
  av_perform_remote :: "string \<Rightarrow> string \<Rightarrow> action_info_owned result"
  av_fetch_remote :: "remote_action_data \<Rightarrow> action_info_owned result"
  av_during :: "manager \<Rightarrow> manager"
  av_others :: "core \<Rightarrow> core"
  av_others_end :: "core \<Rightarrow> core"
  av_timed_out :: bool

datatype action_launch_result =
    AL_State bool
  | AL_Local "action_info + action_info_owned"
  | AL_Remote action_info_owned

text \<open>
  \<open>Duration::from_secs_f64\<close>, in nanoseconds: it panics on a negative, infinite or undefined number
  and on one that does not fit; otherwise the nearest number of nanoseconds is taken.
\<close>

definition round_even :: "rat \<Rightarrow> int" where
  "round_even q =
     (let n = \<lfloor>q\<rfloor>; d = q - of_int n
      in if d < 1 / 2 then n else if 1 / 2 < d then n + 1 else if even n then n else n + 1)"

definition duration_from_secs_f64 :: "f64 \<Rightarrow> nat option" where
  "duration_from_secs_f64 x =
     (case x of
        Fin q \<Rightarrow> if q < 0 \<or> 2 ^ 64 \<le> q then None else Some (nat (round_even (q * 1000000000)))
      | _ \<Rightarrow> None)"

definition params_fit :: "oid \<Rightarrow> action_params option \<Rightarrow> bool" where
  "params_fit x params =
     (case params of
        Some (ParamsUnit _) \<Rightarrow> oid_kind x = KUnit
      | Some (ParamsLmacro _) \<Rightarrow> oid_kind x = KLmacro
      | None \<Rightarrow> oid_kind x = KUnit)"

definition toggle_value :: "eva_lib \<Rightarrow> item_state \<Rightarrow> eva_value" where
  "toggle_value L st =
     (case lib_to_i64 L (st_value st) of
        Some n \<Rightarrow> VU8 (if sint n \<le> 0 then 1 else 0)
      | None \<Rightarrow> VU8 1)"

definition action_parameters ::
    "eva_lib \<Rightarrow> action_params option \<Rightarrow> item \<Rightarrow> heap \<Rightarrow> action_params result" where
  "action_parameters L params i h =
     (case params of
        Some p \<Rightarrow> Inr p
      | None \<Rightarrow>
          (case item_state_of h i of
             Some st \<Rightarrow> Inr (ParamsUnit (toggle_value L st))
           | None \<Rightarrow> Inl EAccess))"

definition act_announce :: "core_env \<Rightarrow> (ieid \<Rightarrow> f64 \<Rightarrow> item_state \<Rightarrow> item_state) \<Rightarrow> item \<Rightarrow> core \<Rightarrow> unit result \<times> core" where
  "act_announce E counter i c =
     (case item_state_of (c_heap c) i of
        None \<Rightarrow> (Inr (), c)
      | Some st \<Rightarrow>
          (let st' = counter (generate_ieid E c) (now_of E c) st;
               c1 = tick (c\<lparr>c_heap := item_write_state i st' (c_heap c)\<rparr>)
           in announce_local_state E (it_oid i) (local_state_event_of st') c1))"

text \<open>\<open>None\<close> stands for a panic of the request.\<close>

definition local_timeout :: "core \<Rightarrow> action_config \<Rightarrow> nat option" where
  "local_timeout c ap =
     (case ac_timeout ap of
        None \<Rightarrow> Some (c_timeout c)
      | Some t \<Rightarrow> duration_from_secs_f64 t)"

definition action_prepare ::
    "eva_lib \<Rightarrow> core_env \<Rightarrow> action_env \<Rightarrow> uuid option \<Rightarrow> oid \<Rightarrow> action_params option \<Rightarrow> 8 word \<Rightarrow> f64 option \<Rightarrow>
     core \<Rightarrow> (action \<times> nat option) result option \<times> core" where
  "action_prepare L E A u x params priority wait c =
     (if \<not> params_fit x params then (Some (Inl EInvalidData), c)
      else
        (case inv_get_item (c_inventory c) x of
           None \<Rightarrow> (Some (Inl ENotFound), c)
         | Some item \<Rightarrow>
             if \<not> item_enabled (c_heap c) item then (Some (Inl EAccess), c)
             else
               (case action_parameters L params item (c_heap c) of
                  Inl e \<Rightarrow> (Some (Inl e), c)
                | Inr p \<Rightarrow>
                    (case it_source item of
                       Some source \<Rightarrow>
                         (Some (Inr (action_create
                            \<lparr>aa_uuid = u, aa_oid = x, aa_params = p, aa_timeout = None,
                             aa_priority = priority, aa_config = None, aa_node = Some (src_node source),
                             aa_target = src_svc source, aa_wait = wait\<rparr> (av_uuid A) (now_of E c) (av_started A),
                            case hm_get (c_nodes c) (src_node source) of Some n \<Rightarrow> nd_timeout n | None \<Rightarrow> None)), c)
                     | None \<Rightarrow>
                         (case it_action item of
                            None \<Rightarrow> (Some (Inl EFailed), c)
                          | Some ap \<Rightarrow>
                              (case local_timeout c ap of
                                 None \<Rightarrow> (None, c)
                               | Some timeout \<Rightarrow>
                                   (let act = action_create
                                      \<lparr>aa_uuid = u, aa_oid = x, aa_params = p, aa_timeout = Some timeout,
                                       aa_priority = priority, aa_config = ac_config ap, aa_node = None,
                                       aa_target = ac_svc ap, aa_wait = None\<rparr> (av_uuid A) (now_of E c) (av_started A)
                                    in case act_announce E act_incr item c of
                                         (Inl e, c1) \<Rightarrow> (Some (Inl e), c1)
                                       | (Inr _, c1) \<Rightarrow> (Some (Inr (act, None)), c1))))))))"

text \<open>The task of a local action: its launch and its end.\<close>

definition action_launch ::
    "eva_lib \<Rightarrow> core_env \<Rightarrow> action_env \<Rightarrow> action \<Rightarrow> core \<Rightarrow> action_info_owned option result \<times> core" where
  "action_launch L E A act c =
     (let (r, m) = launch_action L (av_pack A) (av_perform A) (av_perform_remote A) (av_during A)
            (now_of E c) (av_started A) act (c_action_manager c)
      in (r, c\<lparr>c_action_manager := m\<rparr>))"

definition action_end :: "eva_lib \<Rightarrow> core_env \<Rightarrow> action_env \<Rightarrow> uuid \<Rightarrow> oid \<Rightarrow> core \<Rightarrow> core" where
  "action_end L E A u x c =
     (let c1 = (if av_timed_out A
                then c\<lparr>c_action_manager := mark_action_timed_out L u (now_of E c) (c_action_manager c)\<rparr> else c)
      in if oid_kind x = KUnit then
           (case inv_get_item (c_inventory c1) x of
              Some unit_item \<Rightarrow>
                if it_source unit_item = None then snd (act_announce E act_decr unit_item c1) else c1
            | None \<Rightarrow> c1)
         else c1)"

definition action_result_serialized ::
    "action_env \<Rightarrow> uuid \<Rightarrow> core \<Rightarrow> (action_info + action_info_owned) result" where
  "action_result_serialized A u c =
     (case get_action_info (av_fetch_remote A) u (c_system_name c) (c_action_manager c) of
        Inl e \<Rightarrow> Inl e
      | Inr (Some info) \<Rightarrow> Inr info
      | Inr None \<Rightarrow> Inl ENotFound)"

definition action_answer :: "action_env \<Rightarrow> uuid \<Rightarrow> bool \<Rightarrow> core \<Rightarrow> action_launch_result result" where
  "action_answer A u state_only_result c =
     (if state_only_result then Inr (AL_State (fst (must_be_completed (av_perform A) u (c_action_manager c))))
      else (case action_result_serialized A u c of Inl e \<Rightarrow> Inl e | Inr info \<Rightarrow> Inr (AL_Local info)))"

definition core_action ::
    "eva_lib \<Rightarrow> core_env \<Rightarrow> action_env \<Rightarrow> uuid option \<Rightarrow> oid \<Rightarrow> action_params option \<Rightarrow> 8 word \<Rightarrow> f64 option \<Rightarrow> bool \<Rightarrow>
     core \<Rightarrow> action_launch_result result option \<times> core" where
  "core_action L E A u x params priority wait state_only_result c =
     (case action_prepare L E A u x params priority wait c of
        (None, c1) \<Rightarrow> (None, c1)
      | (Some (Inl e), c1) \<Rightarrow> (Some (Inl e), c1)
      | (Some (Inr (act, action_timeout)), c1) \<Rightarrow>
          if a_node act = None then
            (case a_uuid act of
               None \<Rightarrow> (Some (Inl ECore), c1)
             | Some uuid \<Rightarrow>
                 (let c2 = av_others A (snd (action_launch L E A act c1));
                      c3 = av_others_end A c2
                  in (Some (action_answer A uuid state_only_result c2), action_end L E A uuid x c3)))
          else
            (case action_launch L E A act c1 of
               (Inl e, c2) \<Rightarrow> (Some (Inl e), c2)
             | (Inr None, c2) \<Rightarrow> (Some (Inl EInvalidData), c2)
             | (Inr (Some res), c2) \<Rightarrow>
                 (Some (Inr (if state_only_result then AL_State (check_completed res) else AL_Remote res)), c2)))"

definition core_terminate_action :: "action_env \<Rightarrow> uuid \<Rightarrow> core \<Rightarrow> unit result" where
  "core_terminate_action A u c = terminate_action (av_perform A) u (c_action_manager c)"

definition kill_actions :: "action_env \<Rightarrow> oid \<Rightarrow> core \<Rightarrow> unit result" where
  "kill_actions A x c =
     (case inv_get_item (c_inventory c) x of
        Some unit_item \<Rightarrow>
          (case it_action unit_item of
             Some ap \<Rightarrow> am_kill_actions (av_perform A) (ac_svc ap)
           | None \<Rightarrow> Inl EFailed)
      | None \<Rightarrow> Inl ENotFound)"

subsection \<open>The counter of active actions\<close>

definition act_count :: "core \<Rightarrow> oid \<Rightarrow> nat" where
  "act_count c x = (case core_state c x of Some st \<Rightarrow> unwrap_or 0 (st_act st) | None \<Rightarrow> 0)"

lemma act_announce_effect:
  assumes ok: "core_ok c" and i: "core_item c (it_oid i) = Some i" and a: "act_announce E f i c = (r, c')"
  shows "core_ok c'" and "core_item c' y = core_item c y"
    and "core_state c' y =
      (if y = it_oid i then map_option (f (generate_ieid E c) (now_of E c)) (core_state c y) else core_state c y)"
    and "core_state c (it_oid i) \<noteq> None \<Longrightarrow> r = en_bus E (Suc (c_tick c))"
    and "core_state c (it_oid i) = None \<Longrightarrow> r = Inr ()"
    and "core_state c (it_oid i) = Some st \<Longrightarrow> en_bus E (Suc (c_tick c)) = Inr () \<Longrightarrow>
      c_bus c' = c_bus c @ [Frame (LOCAL_STATE_TOPIC @ oid_as_path (it_oid i)) None
        (LocalStatePl (local_state_event_of (f (generate_ieid E c) (now_of E c) st)))]"
proof -
  have st: "item_state_of (c_heap c) i = core_state c (it_oid i)"
    using i by (simp add: core_state_def core_item_def)
  have "core_ok c' \<and> core_item c' y = core_item c y \<and> core_state c' y =
      (if y = it_oid i then map_option (f (generate_ieid E c) (now_of E c)) (core_state c y) else core_state c y)"
  proof (cases "core_state c (it_oid i)")
    case None
    then show ?thesis using a st ok by (simp add: act_announce_def)
  next
    case (Some s)
    let ?c0 = "c\<lparr>c_heap := item_write_state i (f (generate_ieid E c) (now_of E c) s) (c_heap c)\<rparr>"
    have "c' = snd (announce_local_state E (it_oid i)
        (local_state_event_of (f (generate_ieid E c) (now_of E c) s)) (tick ?c0))"
      using a st Some by (simp add: act_announce_def Let_def split: prod.splits)
    then have same: "same_items ?c0 c'" using same_items_trans [OF same_tick same_announce(1)] by simp
    have "core_ok ?c0"
      using items_ok_write [of "c_inventory c" "c_heap c" "it_oid i" i s] ok i st Some
      by (simp add: core_ok_items core_item_def)
    then show ?thesis
      using core_ok_same [OF same] core_item_same [OF same] core_state_same [OF same] core_state_write [OF ok i] Some
      by simp
  qed
  then show "core_ok c'" and "core_item c' y = core_item c y"
    and "core_state c' y =
      (if y = it_oid i then map_option (f (generate_ieid E c) (now_of E c)) (core_state c y) else core_state c y)"
    by blast+
  show "core_state c (it_oid i) = None \<Longrightarrow> r = Inr ()" using a st by (simp add: act_announce_def)
  show "core_state c (it_oid i) \<noteq> None \<Longrightarrow> r = en_bus E (Suc (c_tick c))"
    using a st by (auto simp: act_announce_def announce_local_state_def publish_def Let_def tick_def split: sum.splits)
  show "c_bus c' = c_bus c @ [Frame (LOCAL_STATE_TOPIC @ oid_as_path (it_oid i)) None
        (LocalStatePl (local_state_event_of (f (generate_ieid E c) (now_of E c) st)))]"
    if "core_state c (it_oid i) = Some st" "en_bus E (Suc (c_tick c)) = Inr ()"
    using a st that by (auto simp: act_announce_def announce_local_state_def publish_def Let_def tick_def)
qed

lemma act_incr_count: "unwrap_or 0 (st_act (act_incr ieid now st)) = Suc (unwrap_or 0 (st_act st))"
  by (cases "st_act st") (simp_all add: act_incr_def)

lemma act_decr_count: "unwrap_or 0 (st_act (act_decr ieid now st)) = unwrap_or 0 (st_act st) - 1"
  by (cases "st_act st") (simp_all add: act_decr_def Let_def)

lemma core_item_oid: "core_ok c \<Longrightarrow> core_item c x = Some i \<Longrightarrow> it_oid i = x"
  using ivs.get_oid [OF core_okD(1)] by (simp add: core_item_def)

text \<open>The manager of the actions is no part of the items.\<close>

lemma core_manager [simp]:
  "core_ok (c\<lparr>c_action_manager := m\<rparr>) = core_ok c" "core_item (c\<lparr>c_action_manager := m\<rparr>) = core_item c"
  "core_state (c\<lparr>c_action_manager := m\<rparr>) = core_state c"
  by (simp_all add: core_ok_def core_item_def core_state_def fun_eq_iff)

lemma action_launch_core:
  "core_ok (snd (action_launch L E A act c)) = core_ok c" "core_item (snd (action_launch L E A act c)) = core_item c"
  "core_state (snd (action_launch L E A act c)) = core_state c"
  by (simp_all add: action_launch_def split_beta)

text \<open>
  The requests and the tasks of local actions interleaved with state events and saves. The second
  component holds the items of the tasks that have not ended. The rules are the calls of the code that
  take the state processor lock, with arbitrary answers of the services.
\<close>

inductive act_step :: "eva_lib \<Rightarrow> core_env \<Rightarrow> core \<times> oid list \<Rightarrow> core \<times> oid list \<Rightarrow> bool" for L E where
  launched: "action_prepare L E A u x params priority wait c = (Some (Inr (act, t)), c1) \<Longrightarrow> a_node act = None \<Longrightarrow>
    act_step L E (c, run) (snd (action_launch L E A act c1), x # run)"
| forwarded: "action_prepare L E A u x params priority wait c = (Some (Inr (act, t)), c1) \<Longrightarrow> a_node act \<noteq> None \<Longrightarrow>
    act_step L E (c, run) (snd (action_launch L E A act c1), run)"
| refused: "action_prepare L E A u x params priority wait c = (Some (Inl e), c1) \<Longrightarrow> act_step L E (c, run) (c1, run)"
| panicked: "action_prepare L E A u x params priority wait c = (None, c1) \<Longrightarrow> act_step L E (c, run) (c1, run)"
| ended: "x \<in> set run \<Longrightarrow> act_step L E (c, run) (action_end L E A u x c, remove1 x run)"
| raw: "act_step L E (c, run) (snd (update_state_from_raw L E y raw sender c), run)"
| bulk: "act_step L E (c, run) (update_state_from_raw_bulk L E raws sender c, run)"
| saved: "act_step L E (c, run) (core_save E c, run)"

text \<open>A request that gets as far as the announcement of the unit.\<close>

lemma action_prepare_local:
  assumes "params_fit x params" and "core_item c x = Some i" and "item_enabled (c_heap c) i"
    and "action_parameters L params i (c_heap c) = Inr p" and "it_source i = None" and "it_action i = Some ap"
    and "local_timeout c ap = Some timeout" and "act_announce E act_incr i c = (rb, d)"
  shows "action_prepare L E A u x params priority wait c =
    (Some (case rb of Inl e \<Rightarrow> Inl e | Inr _ \<Rightarrow> Inr (action_create
       \<lparr>aa_uuid = u, aa_oid = x, aa_params = p, aa_timeout = Some timeout, aa_priority = priority,
        aa_config = ac_config ap, aa_node = None, aa_target = ac_svc ap, aa_wait = None\<rparr>
       (av_uuid A) (now_of E c) (av_started A), None)), d)"
  using assms by (simp add: action_prepare_def core_item_def Let_def split: sum.splits)

text \<open>The outcome of a request: what was launched, and how the unit changed.\<close>

lemma action_prepare_cases:
  assumes "core_ok c" and "action_prepare L E A u x params priority wait c = (r, c1)"
  obtains (remote) act t i where "r = Some (Inr (act, t))" "a_node act \<noteq> None" "c1 = c" "core_item c x = Some i" "it_source i \<noteq> None"
  | (local) act i ap timeout p rb where "core_item c x = Some i" "it_source i = None" "it_action i = Some ap"
      "params_fit x params" "item_enabled (c_heap c) i" "action_parameters L params i (c_heap c) = Inr p"
      "local_timeout c ap = Some timeout" "act_announce E act_incr i c = (rb, c1)"
      "a_node act = None" "a_params act = p" "a_target act = ac_svc ap" "a_timeout act = Some timeout"
      "a_uuid act = Some (unwrap_or (av_uuid A) u)"
      "r = Some (case rb of Inl e \<Rightarrow> Inl e | Inr _ \<Rightarrow> Inr (act, None))"
  | (no) "c1 = c" "r = None \<or> (\<exists>e. r = Some (Inl e))"
proof (cases "params_fit x params")
  case fit: True
  show ?thesis
  proof (cases "inv_get_item (c_inventory c) x")
    case None
    then show ?thesis using assms(2) fit by (intro no) (auto simp: action_prepare_def)
  next
    case (Some i)
    then have ci: "core_item c x = Some i" by (simp add: core_item_def)
    show ?thesis
    proof (cases "item_enabled (c_heap c) i \<and> is_ok (action_parameters L params i (c_heap c))")
      case False
      then show ?thesis using assms(2) fit Some
        by (intro no) (auto simp: action_prepare_def split: sum.splits if_splits)
    next
      case True
      then obtain p where p: "action_parameters L params i (c_heap c) = Inr p"
        by (cases "action_parameters L params i (c_heap c)") auto
      show ?thesis
      proof (cases "it_source i")
        case (Some s)
        then show ?thesis
          using assms(2) fit \<open>inv_get_item (c_inventory c) x = Some i\<close> True p ci
          by (intro remote [of _ _ i]) (auto simp: action_prepare_def action_create_def Let_def)
      next
        case None
        show ?thesis
        proof (cases "it_action i")
          case None
          then show ?thesis
            using assms(2) fit Some True p \<open>it_source i = None\<close> by (intro no) (auto simp: action_prepare_def)
        next
          case (Some ap)
          show ?thesis
          proof (cases "local_timeout c ap")
            case None
            then show ?thesis
              using assms(2) fit \<open>inv_get_item (c_inventory c) x = Some i\<close> True p \<open>it_source i = None\<close> Some
              by (intro no) (auto simp: action_prepare_def)
          next
            case (Some timeout)
            obtain rb d where b: "act_announce E act_incr i c = (rb, d)" by fastforce
            let ?act = "action_create \<lparr>aa_uuid = u, aa_oid = x, aa_params = p, aa_timeout = Some timeout,
              aa_priority = priority, aa_config = ac_config ap, aa_node = None, aa_target = ac_svc ap, aa_wait = None\<rparr>
              (av_uuid A) (now_of E c) (av_started A)"
            have "(r, c1) = (Some (case rb of Inl e \<Rightarrow> Inl e | Inr _ \<Rightarrow> Inr (?act, None)), d)"
              using assms(2) action_prepare_local [OF fit ci _ p \<open>it_source i = None\<close> \<open>it_action i = Some ap\<close> Some b] True
              by simp
            then show ?thesis
              using fit ci True p \<open>it_source i = None\<close> \<open>it_action i = Some ap\<close> Some b
              by (intro local [of i ap p timeout rb ?act]) (auto simp: action_create_def Let_def)
          qed
        qed
      qed
    qed
  qed
next
  case False
  then show ?thesis using assms(2) by (intro no) (auto simp: action_prepare_def)
qed

definition balanced :: "oid \<Rightarrow> item \<Rightarrow> core \<times> oid list \<Rightarrow> bool" where
  "balanced x i s \<longleftrightarrow>
     (case s of (c, run) \<Rightarrow>
        core_ok c \<and> core_item c x = Some i \<and> core_state c x \<noteq> None \<and> act_count c x = count_list run x)"

lemma count_list_remove1: "count_list (remove1 y xs) x = count_list xs x - (if x = y \<and> x \<in> set xs then 1 else 0)"
proof (induction xs)
  case (Cons z zs)
  have "x \<in> set zs \<Longrightarrow> 0 < count_list zs x" using count_list_0_iff [of zs x] by simp
  then show ?case using Cons.IH by simp
qed simp

text \<open>A step of the counter of item \<open>y\<close> leaves the other items alone.\<close>

lemma act_announce_count:
  assumes "core_ok c" and "core_item c y = Some j" and "act_announce E f j c = (r, c')"
  shows "core_ok c'" and "core_item c' x = core_item c x" and "core_state c' x = None \<longleftrightarrow> core_state c x = None"
    and "x \<noteq> y \<Longrightarrow> act_count c' x = act_count c x"
    and "f = act_incr \<Longrightarrow> core_state c y \<noteq> None \<Longrightarrow> act_count c' y = Suc (act_count c y)"
    and "f = act_decr \<Longrightarrow> act_count c' y = act_count c y - 1"
proof -
  have y: "it_oid j = y" by (rule core_item_oid [OF assms(1,2)])
  note e = act_announce_effect [OF assms(1) _ assms(3), unfolded y, OF assms(2)]
  show "core_ok c'" and "core_item c' x = core_item c x" by (rule e(1), rule e(2))
  show "core_state c' x = None \<longleftrightarrow> core_state c x = None" using e(3) [of x] by simp
  show "x \<noteq> y \<Longrightarrow> act_count c' x = act_count c x" using e(3) [of x] by (simp add: act_count_def)
  show "f = act_incr \<Longrightarrow> core_state c y \<noteq> None \<Longrightarrow> act_count c' y = Suc (act_count c y)"
    using e(3) [of y] by (auto simp: act_count_def act_incr_count)
  show "f = act_decr \<Longrightarrow> act_count c' y = act_count c y - 1"
    using e(3) [of y] by (simp add: act_count_def act_decr_count split: option.split)
qed

lemma balanced_raw:
  assumes "raw_rel L c c'" and "balanced x i (c, run)"
  shows "balanced x i (c', run)"
proof -
  have i: "core_item c x = Some i" using assms(2) by (simp add: balanced_def)
  have "map_option st_act (core_state c' x) = map_option st_act (core_state c x)"
    by (rule raw_relD(6) [OF assms(1) i])
  then have "act_count c' x = act_count c x" "core_state c' x = None \<longleftrightarrow> core_state c x = None"
    by (auto simp: act_count_def split: option.splits)
  then show ?thesis using assms(2) raw_relD(1) [OF assms(1)] raw_relD(3) [OF assms(1) i]
    by (simp add: balanced_def del: not_None_eq)
qed

lemma balanced_prepare:
  assumes "\<forall>n. is_ok (en_bus E n)" and b: "balanced x i (c, run)"
    and p: "action_prepare L E A u y params priority wait c = (r, c1)"
  shows "balanced x i (c1, (case r of Some (Inr (act, t)) \<Rightarrow> if a_node act = None then y # run else run | _ \<Rightarrow> run))"
proof -
  have ok: "core_ok c" using b by (simp add: balanced_def)
  show ?thesis
    using ok p
  proof (cases rule: action_prepare_cases)
    case (local act j ap timeout q rb)
    note k = act_announce_count [OF ok local(1,8)]
    show ?thesis
    proof (cases "y = x")
      case True
      have "core_state c x \<noteq> None" using b by (simp add: balanced_def)
      then have "is_ok rb"
        using act_announce_effect(4) [OF ok _ local(8)] core_item_oid [OF ok local(1)] local(1) assms(1) True by auto
      then obtain z where "rb = Inr z" by (cases rb) auto
      then show ?thesis using b k local(9,14) True by (simp add: balanced_def del: not_None_eq)
    next
      case False
      then show ?thesis using b k(1-4) local(9,14) by (cases rb) (simp_all add: balanced_def del: not_None_eq)
    qed
  qed (use b in \<open>auto simp: balanced_def split: option.splits sum.splits\<close>)
qed

lemma balanced_end:
  assumes b: "balanced x i (c, run)" and i: "it_source i = None" "oid_kind x = KUnit" and y: "y \<in> set run"
  shows "balanced x i (action_end L E A u y c, remove1 y run)"
proof -
  define c1 where "c1 = (if av_timed_out A
    then c\<lparr>c_action_manager := mark_action_timed_out L u (now_of E c) (c_action_manager c)\<rparr> else c)"
  have b1: "balanced x i (c1, run)" using b by (simp add: balanced_def act_count_def c1_def)
  then have ok: "core_ok c1" and x: "core_item c1 x = Some i" by (simp_all add: balanced_def)
  note e = action_end_def [of L E A u y c, folded c1_def, unfolded Let_def, folded core_item_def]
  show ?thesis
  proof (cases "x = y")
    case True
    obtain r c2 where a: "act_announce E act_decr i c1 = (r, c2)" by fastforce
    have "action_end L E A u y c = c2" using e True i x a by simp
    then show ?thesis
      using act_announce_count [OF ok x a] b1 True y by (simp add: balanced_def count_list_remove1 del: not_None_eq)
  next
    case False
    have "balanced x i (snd (act_announce E act_decr j c1), run)" if j: "core_item c1 y = Some j" for j
    proof -
      obtain r c2 where a: "act_announce E act_decr j c1 = (r, c2)" by fastforce
      then show ?thesis using act_announce_count(1-4) [OF ok j a] b1 False by (simp add: balanced_def del: not_None_eq)
    qed
    then show ?thesis
      using b1 False unfolding e by (auto simp: balanced_def count_list_remove1 split: option.split)
  qed
qed


text \<open>A core with one local unit \<open>u\<close> whose actions a service performs.\<close>

definition wit_unit :: item where
  "wit_unit = (wit_item KUnit ''u'' 1)\<lparr>it_action := Some \<lparr>ac_svc = ''svc'', ac_timeout = None, ac_config = None\<rparr>\<rparr>"

definition wit_core5 :: core where
  "wit_core5 = wit_core\<lparr>c_inventory := snd (inv_append_item wit_unit False wit_inv)\<rparr>"

definition wit_action_env :: action_env where
  "wit_action_env = \<lparr>av_uuid = 7, av_started = 10, av_pack = (\<lambda>_. Inr ()), av_perform = (\<lambda>_ _. Inr ()),
     av_perform_remote = (\<lambda>_ _. Inl EBus), av_fetch_remote = (\<lambda>_. Inl EBus), av_during = id, av_others = id,
     av_others_end = id, av_timed_out = False\<rparr>"

lemma wit_unit_fields [simp]:
  "it_oid wit_unit = OID KUnit ''u''" "it_source wit_unit = None" "it_cell wit_unit = 1" "it_logic wit_unit = None"
  "it_action wit_unit = Some \<lparr>ac_svc = ''svc'', ac_timeout = None, ac_config = None\<rparr>"
  by (simp_all add: wit_unit_def wit_item_def)

lemma wit_core5_get:
  "inv_get_item (c_inventory wit_core5) x =
     (if x = OID KUnit ''u'' then Some wit_unit
      else if x = OID KSensor ''a/c'' then Some (wit_item KSensor ''a/c'' 0) else None)"
proof -
  note ok = inv_okD(1) [OF wit_inv_ok]
  have "fst (inv_append_item wit_unit False wit_inv) = Inr wit_unit"
    by (simp add: inv_append_result [OF ok] wit_inv_get)
  from inv_append_get(2) [OF ok this, of x] show ?thesis by (simp add: wit_core5_def wit_inv_get)
qed

lemma wit_core5_fields [simp]: "c_heap wit_core5 = wit_heap" "c_bus wit_core5 = []" "c_tick wit_core5 = 0"
  by (simp_all add: wit_core5_def wit_core_def)

lemma wit_core5_item:
  "core_item wit_core5 (OID KUnit ''u'') = Some wit_unit"
  "core_state wit_core5 (OID KUnit ''u'') = Some (state_new 1 (VU8 7) None (IEID 1 5) (Fin 2))"
  "item_state_of wit_heap wit_unit = Some (state_new 1 (VU8 7) None (IEID 1 5) (Fin 2))"
  by (simp_all add: core_item_def core_state_def wit_core5_get item_state_of_def wit_heap_def)

lemma wit_core5_ok: "core_ok wit_core5"
proof -
  have "inv_lookup_ok (c_inventory wit_core5)"
    by (simp add: wit_core5_def inv_append_lookup_ok [OF inv_okD(1) [OF wit_inv_ok]])
  then show ?thesis
    by (auto simp: core_ok_def cells_ok_def states_ok_def wit_core5_get item_state_of_def wit_heap_def wit_item_def
        split: if_splits)
qed

lemma wit_core5_count: "act_count wit_core5 (OID KUnit ''u'') = 0"
  by (simp add: act_count_def wit_core5_item state_new_def)



lemma wit_core5_action:
  "item_enabled (c_heap wit_core5) wit_unit"
  "local_timeout wit_core5 \<lparr>ac_svc = ''svc'', ac_timeout = None, ac_config = None\<rparr> = Some (c_timeout wit_core5)"
  by (simp_all add: local_timeout_def)

lemmas wit_core5_ready = wit_core5_ok wit_core5_item(1) wit_unit_fields(2) wit_core5_action(1) wit_unit_fields(5)
  wit_core5_action(2)


text \<open>
  A request that is refused leaves the core as it is: parameters that do not fit the kind of the item are
  invalid data, an unknown item is not found, a disabled one inaccessible, a local item
  without an action configuration fails; a negative configured time-out panics.
\<close>

theorem action_refusals:
  shows "(\<not> params_fit x params \<longrightarrow> core_action L E A u x params priority wait so c = (Some (Inl EInvalidData), c)) \<and>
    (params_fit x params \<longrightarrow> core_item c x = None \<longrightarrow>
      core_action L E A u x params priority wait so c = (Some (Inl ENotFound), c)) \<and>
    (params_fit x params \<longrightarrow> core_item c x = Some i \<longrightarrow>
      (\<not> item_enabled (c_heap c) i \<longrightarrow> core_action L E A u x params priority wait so c = (Some (Inl EAccess), c)) \<and>
      (item_enabled (c_heap c) i \<longrightarrow> params \<noteq> None \<longrightarrow> it_source i = None \<longrightarrow>
        (it_action i = None \<longrightarrow> core_action L E A u x params priority wait so c = (Some (Inl EFailed), c)) \<and>
        (\<forall>ap q. it_action i = Some ap \<longrightarrow> ac_timeout ap = Some (Fin q) \<longrightarrow> q < 0 \<longrightarrow>
          core_action L E A u x params priority wait so c = (None, c))))"
  by (auto simp: core_action_def action_prepare_def core_item_def action_parameters_def local_timeout_def
      duration_from_secs_f64_def)

theorem action_refusals_witness:
  "core_action std_lib wit_env wit_action_env None (OID KUnit ''z'') None 100 None True wit_core5 =
     (Some (Inl ENotFound), wit_core5)"
  using action_refusals [of "OID KUnit ''z''" None std_lib wit_env wit_action_env None 100 None True wit_core5]
  by (simp add: params_fit_def core_item_def wit_core5_get)

text \<open>
  The counter of a unit leaks. If the announcement of the incremented counter fails, the request
  returns the error and launches no action, and the counter stays incremented: no task is left to
  decrement it.
\<close>

theorem action_counter_leaks:
  assumes "core_ok c" and "core_item c x = Some i" and "it_source i = None" and "item_enabled (c_heap c) i"
    and "it_action i = Some ap" and "local_timeout c ap = Some timeout" and "core_state c x \<noteq> None"
    and "oid_kind x = KUnit" and "en_bus E (Suc (c_tick c)) = Inl e"
  shows "\<exists>c1. core_action L E A u x (Some (ParamsUnit v)) priority wait so c = (Some (Inl e), c1) \<and>
    act_count c1 x = Suc (act_count c x) \<and> c_action_manager c1 = c_action_manager c"
proof -
  obtain rb c1 where b: "act_announce E act_incr i c = (rb, c1)" by fastforce
  have "rb = Inl e"
    using act_announce_effect(4) [OF assms(1) _ b] core_item_oid [OF assms(1,2)] assms(2,7,9) by simp
  then have "core_action L E A u x (Some (ParamsUnit v)) priority wait so c = (Some (Inl e), c1)"
    using action_prepare_local [OF _ assms(2,4) _ assms(3,5,6) b] assms(8)
    by (simp add: core_action_def params_fit_def action_parameters_def)
  moreover have "c_action_manager c1 = c_action_manager c"
    using b by (auto simp: act_announce_def announce_local_state_def publish_def Let_def tick_def split: option.splits sum.splits)
  ultimately show ?thesis using act_announce_count(5) [OF assms(1,2) b] assms(7) by blast
qed

theorem action_counter_leaks_witness:
  "\<exists>c1. core_action std_lib (wit_env\<lparr>en_bus := \<lambda>_. Inl EBus\<rparr>) wit_action_env None (OID KUnit ''u'')
      (Some (ParamsUnit VUnit)) 100 None True wit_core5 = (Some (Inl EBus), c1) \<and> act_count c1 (OID KUnit ''u'') = 1"
  using action_counter_leaks [OF wit_core5_ready, of "wit_env\<lparr>en_bus := \<lambda>_. Inl EBus\<rparr>" EBus
      std_lib wit_action_env None VUnit 100 None True]
  by (auto simp: wit_core5_item wit_core5_count)

end
