(* ===== verification/Core_Keeps.thy ===== *)
theory Core_Keeps
  imports Core_Action
begin

text \<open>
  Every operation of the core keeps its invariant \<open>core_ok\<close>: the registered items can be looked
  up under their identifiers, have cells of their own, and have a state exactly if they are not
  macros. No consistency of the index by source is assumed, since the code can lose it when an item of
  another source is replaced.
\<close>

named_theorems keeps \<open>operations that keep the invariant of the core\<close>

interpretation keeping: state_relation core_ok "\<lambda>_ c. core_ok c"
  by unfold_locales

lemmas keeps_same = core_ok_via

lemma keeps_write:
  assumes "core_ok c" and "item_state_of (c_heap c) i \<noteq> None"
  shows "core_ok (c\<lparr>c_heap := item_write_state i st (c_heap c)\<rparr>)"
proof -
  have "item_state_of (item_write_state i st (c_heap c)) j = None \<longleftrightarrow> item_state_of (c_heap c) j = None" for j
    using assms(2) by (auto simp: item_state_of_write) (simp add: item_state_of_def)
  then show ?thesis
    using assms(1) by (simp add: core_ok_def states_ok_def cells_ok_def item_write_state_def)
qed

lemma keeps_enabled: "core_ok c \<Longrightarrow> core_ok (c\<lparr>c_heap := item_set_enabled i b (c_heap c)\<rparr>)"
  using touches_enabled touchesD(1) by blast

lemma keeps_parts:
  "core_ok (c\<lparr>c_nodes := n\<rparr>) = core_ok c" "core_ok (c\<lparr>c_inv_process := s\<rparr>) = core_ok c"
  "core_ok (unlock_source x c) = core_ok c" "core_ok (snd (lock_source x c)) = core_ok c"
  "core_ok (tick c) = core_ok c"
  by (simp_all add: core_ok_def unlock_source_def lock_source_def)

lemma keeps_remove: "core_ok c \<Longrightarrow> core_ok (remove_from_inventory x c)"
  using touches_remove touchesD(1) by blast

lemma keeps_heap_sources:
  assumes "core_ok c" and "hp_items h = hp_items (c_heap c)" and "hp_next (c_heap c) \<le> hp_next h"
  shows "core_ok (c\<lparr>c_heap := h\<rparr>)"
  using assms items_ok_grow by (simp add: core_ok_items)

lemma source_heap:
  assumes "get_or_create_source n svc iv h = (src, h')"
  shows "hp_items h' = hp_items h" "hp_next h \<le> hp_next h'"
  using assms by (auto simp: get_or_create_source_def create_source_def Let_def split: option.splits)

subsection \<open>Replication\<close>

lemma keeps_update_existing: "core_ok c \<Longrightarrow> core_ok (update_existing L E src online ex r c)"
proof -
  assume ok: "core_ok c"
  define c1 where "c1 = (if item_enabled (c_heap c) ex \<noteq> ri_enabled r
    then c\<lparr>c_heap := item_set_enabled ex (ri_enabled r) (c_heap c)\<rparr> else c)"
  have ok1: "core_ok c1" using ok keeps_enabled by (simp add: c1_def)
  have "core_ok (snd (announce_remote_state E x ev True (c1\<lparr>c_heap := item_write_state ex st' (c_heap c1)\<rparr>)))"
    if "item_state_of (c_heap c1) ex = Some st" for x ev st st'
    using keeps_same [OF keeps_write [OF ok1] announce_remote_same] that by simp
  then show ?thesis
    using ok1 unfolding update_existing_def c1_def [symmetric] Let_def by (simp split: option.split sum.split)
qed

lemma keeps_create_remote:
  assumes "core_ok c"
  shows "core_ok (create_remote L E src online r c)"
  using touchesD(1) [OF create_remote_effect(1) [OF assms]] .

lemma keeps_remote_item: "core_ok c \<Longrightarrow> core_ok (process_remote_item L E src online ex r c)"
  by (simp add: process_remote_item_def keeps_update_existing keeps_create_remote split: option.split)

lemma keeps_remote_items: "core_ok c \<Longrightarrow> core_ok (process_remote_items L E src online ex rs c)"
  by (induction rs arbitrary: c) (simp_all add: keeps_remote_item)

lemma keeps_remove_missing: "core_ok c \<Longrightarrow> core_ok (remove_missing src ri xs c)"
  by (induction xs arbitrary: c) (simp_all add: keeps_remove)

lemma keeps_remote_inventory [keeps]:
  assumes "core_ok c"
  shows "core_ok (snd (process_remote_inventory L E ri n sender quick c))"
proof -
  obtain ok' c1 where l: "(if quick then (True, c) else lock_source n c) = (ok', c1)" by fastforce
  have ok1: "core_ok c1" using assms l keeps_parts(4) [of n c] by (auto split: if_splits)
  obtain src h where s: "get_or_create_source n sender (c_inventory c1) (c_heap c1) = (src, h)" by fastforce
  have ok2: "core_ok (c1\<lparr>c_heap := h\<rparr>)" by (rule keeps_heap_sources [OF ok1 source_heap [OF s]])
  have "core_ok (process_remote_items L E src on ex rs
      (case ex of Some items \<Rightarrow> if \<not> quick then remove_missing src ri (map fst items) (c1\<lparr>c_heap := h\<rparr>) else c1\<lparr>c_heap := h\<rparr>
       | None \<Rightarrow> c1\<lparr>c_heap := h\<rparr>))" for on ex rs
    by (rule keeps_remote_items) (simp add: ok2 keeps_remove_missing split: option.split)
  then show ?thesis
    using assms ok1 by (simp add: process_remote_inventory_def l s keeps_parts Let_def)
qed

lemma keeps_accept_repl: "core_ok c \<Longrightarrow> core_ok (snd (accept_repl_state L E x rse i c))"
  using keeps_same [OF _ announce_remote_same] keeps_write [of c i]
  by (simp add: accept_repl_state_def Let_def split: option.split)

lemma keeps_update_repl [keeps]:
  assumes "core_ok c"
  shows "core_ok (snd (update_state_from_repl L E x ev sender c))"
proof -
  have "core_ok (c\<lparr>c_inventory := iv', c_heap := h'\<rparr>)"
    if "get_or_create_source n sender (c_inventory c) (c_heap c) = (src, h)"
      "append_remote_item ri src (c_inventory c) h = (r, iv', h')" for n src h ri r iv' h'
  proof -
    have "items_ok (c_inventory c) h"
      using keeps_heap_sources [OF assms source_heap [OF that(1)]] by (simp add: core_ok_items)
    then show ?thesis using items_ok_remote [OF _ that(2)] by (simp add: core_ok_items)
  qed
  then show ?thesis
    using assms keeps_accept_repl keeps_remote_inventory
    by (auto simp: update_state_from_repl_def Let_def split: repl_event_ext.split option.split sum.split prod.split)
qed

subsection \<open>Nodes and sources\<close>

text \<open>What the other tasks do while a call waits.\<close>

definition waits_ok :: "(core \<Rightarrow> core) list \<Rightarrow> bool" where
  "waits_ok ws \<longleftrightarrow> (\<forall>w \<in> set ws. \<forall>c. core_ok c \<longrightarrow> core_ok (w c))"

lemma keeps_wait_source:
  assumes "core_ok c" and "waits_ok ws"
  shows "core_ok (snd (wait_source n ws c))"
  using assms
proof (induction ws arbitrary: c)
  case (Cons w ws)
  obtain l c1 where l: "lock_source n c = (l, c1)" by fastforce
  have "core_ok c1" using keeps_parts(4) [of n c] l Cons.prems(1) by simp
  then show ?case using l Cons by (cases l) (simp_all add: waits_ok_def)
qed (simp add: keeps_parts)

text \<open>An outcome that, if the call returned, is a consistent core.\<close>

fun outcome_ok :: "outcome \<Rightarrow> bool" where
  "outcome_ok (Done c) = core_ok c"
| "outcome_ok (Waiting c) = core_ok c"
| "outcome_ok Panicked = True"

lemma keeps_destroy_source [keeps]:
  assumes "core_ok c" and "waits_ok ws"
  shows "outcome_ok (destroy_source n ws c)"
proof -
  obtain src h where s: "get_or_create_source n '''' (c_inventory c) (c_heap c) = (src, h)" by fastforce
  have "core_ok (c\<lparr>c_heap := src_mark_destroyed src h\<rparr>)"
    using source_heap [OF s] by (intro keeps_heap_sources [OF assms(1)]) (simp_all add: src_mark_destroyed_def)
  then have "core_ok (snd (wait_source n ws (c\<lparr>c_heap := src_mark_destroyed src h\<rparr>)))"
    using assms(2) by (rule keeps_wait_source)
  moreover have "core_ok (fold (\<lambda>(x, _) c. remove_from_inventory x c) items d)" if "core_ok d" for d and items :: "(oid, item) hmap"
    by (rule keeping.rel_fold [OF that]) (simp add: keeps_remove split: prod.split)
  ultimately show ?thesis
    by (auto simp: destroy_source_def s Let_def keeps_parts split: prod.split bool.split option.split)
qed

lemma keeps_source_sensor:
  assumes "core_ok c"
  shows "core_ok (snd (set_source_sensor L E n online c))"
proof (cases "lib_oid_from_str L (''sensor:'' @ c_system_name c @ ''/node/'' @ n)")
  case (Inr x)
  obtain r iv' h' where p: "(case inv_get_item (c_inventory c) x of
      Some item \<Rightarrow> (Inr item, c_inventory c, c_heap c)
    | None \<Rightarrow> create_item x (Some (generate_ieid E c)) None (now_of E c) (c_inventory c) (c_heap c)) = (r, iv', h')"
    by (metis prod_cases3)
  define c1 where "c1 = c\<lparr>c_inventory := iv', c_heap := h'\<rparr>"
  have ok1: "core_ok c1"
    using p assms items_ok_create [of "c_inventory c" "c_heap c"] by (auto simp: core_ok_items c1_def split: option.splits)
  have "core_ok (process_new_state E y s db (tick (c1\<lparr>c_heap := item_write_state item st (c_heap c1)\<rparr>)))"
    if "item_state_of (c_heap c1) item \<noteq> None" for y s db item st
    using keeps_same [OF keeps_write [OF ok1 that]] same_items_trans [OF same_tick same_process_new_state] by blast
  then show ?thesis
    using ok1 unfolding set_source_sensor_def Inr
    by (simp add: p c1_def [symmetric] keeps_parts prepare_state_data_def Let_def split: sum.split option.split)
qed (simp add: set_source_sensor_def assms)

lemma mark_core_node_items:
  assumes "mark_core_node_online L n svc online info timeout c = Some (b, c1)"
  shows "c_inventory c1 = c_inventory c" "c_heap c1 = c_heap c"
  using assms by (auto simp: mark_core_node_online_def Let_def split: option.splits if_splits)

lemma keeps_mark_source_online [keeps]:
  assumes "core_ok c" and "waits_ok ws"
  shows "outcome_ok (mark_source_online L E ws n svc online info timeout c)"
proof (cases "mark_core_node_online L n svc online info timeout c")
  case (Some p)
  obtain b c1 where p: "p = (b, c1)" by (cases p)
  note i = mark_core_node_items [OF Some [unfolded p]]
  have ok1: "core_ok c1" using assms(1) by (simp add: core_ok_items i)
  have "core_ok (c1\<lparr>c_heap := inv_mark_source_online n online (c_inventory c1) (c_heap c1)\<rparr>)"
    by (rule keeps_heap_sources [OF ok1])
      (simp_all add: inv_mark_source_online_def src_mark_online_def split: option.split)
  then show ?thesis
    using Some p keeps_source_sensor keeps_destroy_source [OF ok1 assms(2)]
    by (cases b) (simp_all add: mark_source_online_def Let_def)
qed (simp add: mark_source_online_def)

subsection \<open>Local items, variables and actions\<close>

lemma keeps_undeploy [keeps]:
  assumes "core_ok c"
  shows "core_ok (snd (undeploy_local_items E oids c))"
proof (cases oids)
  case (Inr xs)
  have "core_ok (snd (fold undeploy_one_db xs (acc, d)))" if "core_ok d" for acc d
    using that
  proof (induction xs arbitrary: acc d)
    case (Cons x xs)
    have "core_ok (snd (undeploy_one_db x (acc, d)))"
      using Cons.prems items_ok_remove [of "c_inventory d" "c_heap d" x] same_itemsD(1,2) [OF same_schedule(2)]
      by (simp add: undeploy_one_db_def core_ok_items split_beta Let_def)
    then show ?case using Cons.IH by (metis fold_simps(2) prod.collapse)
  qed simp
  then have "core_ok (snd (store_write E ops (snd (fold undeploy_one_db xs ([], c)))))" for ops
    using keeps_same [OF _ same_store_write] assms by blast
  then show ?thesis
    using Inr undeploy_fold_ok [OF assms] by (simp add: undeploy_local_items_def split_beta)
qed (simp add: undeploy_local_items_def assms)

lemma keeps_lvar_op [keeps]:
  assumes "core_ok c"
  shows "core_ok (snd (lvar_op L E call x op m source c))"
proof -
  obtain r c1 where g: "get_or_crete_lvar L E x source c = (r, c1)" by fastforce
  have "core_ok (snd (get_or_crete_lvar L E x source c))"
    using assms create_local_item_ok [OF assms]
    by (auto simp: get_or_crete_lvar_def split: option.split sum.split prod.split) (metis snd_conv)+
  then have ok1: "core_ok c1" using g by simp
  have "core_ok (process_new_state E y s db (tick (c1\<lparr>c_heap := item_write_state i st (c_heap c1)\<rparr>)))"
    if "item_state_of (c_heap c1) i \<noteq> None" for y s db i st
    using keeps_same [OF keeps_write [OF ok1 that]] same_items_trans [OF same_tick same_process_new_state] by blast
  then show ?thesis
    using assms ok1
    by (simp add: lvar_op_def g keeps_parts prepare_state_data_def Let_def split: option.split sum.split)
qed

lemma keeps_set_enabled [keeps]:
  assumes "core_ok c"
  shows "core_ok (snd (set_local_items_enabled L E msk v c))"
proof -
  have "core_ok (c\<lparr>c_heap := fold (\<lambda>i h. item_set_enabled i v h) is (c_heap c)\<rparr>)" for "is"
    using assms by (simp add: core_ok_def states_ok_def cells_ok_def enabled_fold_heap)
  then have k: "core_ok (snd (fold (enable_one E v) is ([], c)))" for "is"
    using enable_fold [of E v "is" "[]" c] by (metis snd_conv)
  then show ?thesis
    using keeps_same [OF k same_save_configs] by (simp add: set_local_items_enabled_def Let_def split_beta)
qed

lemma same_announce_items: "same_items c (snd (announce_items L E rcv is c))"
proof (induction "is" arbitrary: c)
  case (Cons i "is")
  obtain r c1 where a: "announce_one L E rcv i c = (r, c1)" by fastforce
  have "same_items c (snd (announce_one L E rcv i c))"
    by (simp add: announce_one_def Let_def split: option.split)
  then have "same_items c c1" using a by simp
  then show ?case using a Cons.IH [of c1] same_items_trans by (cases r) auto
qed simp

lemma keeps_announce [keeps]:
  "core_ok c \<Longrightarrow> core_ok (snd (force_announce_state L E ml nf c))"
  "core_ok c \<Longrightarrow> core_ok (snd (force_announce_state_for L E ml nf rcv c))"
  using keeps_same [OF _ same_announce_items]
  by (simp_all add: force_announce_state_def force_announce_state_for_def)

lemma keeps_action_prepare:
  assumes "core_ok c" and "action_prepare L E A u x params priority wait c = (r, c1)"
  shows "core_ok c1"
  using assms
proof (cases rule: action_prepare_cases)
  case (local act i ap timeout p rb)
  show ?thesis by (rule act_announce_count(1) [OF assms(1) local(1,8)])
qed (use assms(1) in simp_all)

lemma keeps_action_end:
  assumes "core_ok c"
  shows "core_ok (action_end L E A u x c)"
proof -
  define c1 where "c1 = (if av_timed_out A
    then c\<lparr>c_action_manager := mark_action_timed_out L u (now_of E c) (c_action_manager c)\<rparr> else c)"
  have ok: "core_ok c1" using assms by (simp add: c1_def)
  have "core_ok (snd (act_announce E act_decr i c1))" if "inv_get_item (c_inventory c1) x = Some i" for i
  proof -
    obtain r d where d: "act_announce E act_decr i c1 = (r, d)" by fastforce
    have "core_item c1 x = Some i" using that by (simp add: core_item_def)
    from act_announce_count(1) [OF ok this d] show ?thesis using d by simp
  qed
  then show ?thesis
    using ok unfolding action_end_def c1_def [symmetric] Let_def by (simp split: option.split)
qed

lemma keeps_action [keeps]:
  assumes "core_ok c" and "\<And>d. core_ok d \<Longrightarrow> core_ok (av_others A d)" "\<And>d. core_ok d \<Longrightarrow> core_ok (av_others_end A d)"
  shows "core_ok (snd (core_action L E A u x params priority wait so c))"
proof -
  obtain r c1 where p: "action_prepare L E A u x params priority wait c = (r, c1)" by fastforce
  have ok1: "core_ok c1" by (rule keeps_action_prepare [OF assms(1) p])
  have ok2: "core_ok (snd (action_launch L E A act c1))" for act using ok1 by (simp add: action_launch_core)
  have ok3: "core_ok d" if "action_launch L E A act c1 = (q, d)" for act q d using ok2 [of act] that by simp
  have "core_ok (action_end L E A v x (av_others_end A (av_others A (snd (action_launch L E A act c1)))))" for v act
    by (rule keeps_action_end [OF assms(3) [OF assms(2) [OF ok2]]])
  then show ?thesis
    using ok1 ok3 by (auto simp: core_action_def p Let_def split: option.split sum.split prod.split)
qed

lemmas keeps_raw [keeps] = raw_relD(1) [OF raw_rel_update] raw_relD(1) [OF raw_rel_bulk]

lemma keeps_local [keeps]:
  assumes "core_ok c"
  shows "core_ok (destroy_local_items L E msk c)" and "core_ok (core_save E c)"
    and "core_ok (auto_create_item_from_raw_empty L E x sender c)"
  using assms destroy_fold [OF assms] deploy_local_items_ok [OF assms] keeps_same [OF assms same_core_save]
  by (simp_all add: destroy_local_items_def auto_create_item_from_raw_empty_def)

lemmas keeps_deploy [keeps] = deploy_local_items_ok create_local_item_ok

end
