(* ===== verification/Eapi_Frames.thy ===== *)
theory Eapi_Frames
  imports Core_Keeps
begin

text \<open>
  The handlers of published frames (\<open>eva/src/eapi.rs\<close>) and the data objects of the core
  (\<open>dobj_push\<close> and \<open>dobj_error\<close>, \<open>eva/src/core.rs\<close>). A handler takes one frame from its channel; it
  ignores the frame while the core is not active. The decoders of payloads, the accessors of the
  decoded events and the map of data objects belong to the \<open>eva_common\<close> crate: they are the
  fields of \<open>api_env\<close>.
\<close>

type_synonym bytes = "8 word list"

record publication =
  pb_subtopic :: string
  pb_sender :: string
  pb_payload :: bytes
  pb_handler :: nat

datatype node_status = NS_Online | NS_Offline | NS_Removed

record node_state_event =
  ns_status :: node_status
  ns_info :: "eva_value option"
  ns_timeout :: "nat option"

datatype endianess = Little_Endian | Big_Endian

record api_env =
  ap_raw :: "bytes \<Rightarrow> raw_event result"
  ap_raw_bulk :: "bytes \<Rightarrow> (oid \<times> raw_event) list result"
  ap_action_event :: "bytes \<Rightarrow> action_event result"
  ap_repl :: "bytes \<Rightarrow> repl_event_ext result"
  ap_repl_bulk :: "bytes \<Rightarrow> repl_event_ext list result"
  ap_repl_oid :: "repl_event_ext \<Rightarrow> oid option"
  ap_repl_inv :: "bytes \<Rightarrow> repl_inventory_item list result"
  ap_node_state :: "bytes \<Rightarrow> node_state_event result"
  ap_raw_new :: "item_status \<Rightarrow> eva_value \<Rightarrow> raw_event"
  ap_raw_new0 :: "item_status \<Rightarrow> raw_event"
  ap_dobj_values :: "string \<Rightarrow> bytes \<Rightarrow> endianess \<Rightarrow> (oid \<times> eva_value) list result"
  ap_dobj_oids :: "string \<Rightarrow> oid list result"

definition HANDLER_ID_RAW_STATE :: nat where
  "HANDLER_ID_RAW_STATE = 1"

definition HANDLER_ID_RAW_STATE_BULK :: nat where
  "HANDLER_ID_RAW_STATE_BULK = 2"

definition HANDLER_ID_ACTION :: nat where
  "HANDLER_ID_ACTION = 10"

subsection \<open>Raw states and action events\<close>

definition handle_raw_state_event :: "eva_lib \<Rightarrow> core_env \<Rightarrow> api_env \<Rightarrow> publication \<Rightarrow> core \<Rightarrow> core" where
  "handle_raw_state_event L E P f c =
     (if c_active c then
        (case lib_oid_from_path L (pb_subtopic f) of
           Inl e \<Rightarrow> c
         | Inr x \<Rightarrow>
             if pb_payload f = [] then auto_create_item_from_raw_empty L E x (pb_sender f) c
             else
               (case ap_raw P (pb_payload f) of
                  Inl e \<Rightarrow> c
                | Inr raw \<Rightarrow> snd (update_state_from_raw L E x raw (pb_sender f) c)))
      else c)"

definition handle_raw_state_event_bulk :: "eva_lib \<Rightarrow> core_env \<Rightarrow> api_env \<Rightarrow> publication \<Rightarrow> core \<Rightarrow> core" where
  "handle_raw_state_event_bulk L E P f c =
     (if c_active c then
        (case ap_raw_bulk P (pb_payload f) of
           Inl e \<Rightarrow> c
         | Inr raws \<Rightarrow> update_state_from_raw_bulk L E raws (pb_sender f) c)
      else c)"

definition handle_action_state :: "eva_lib \<Rightarrow> core_env \<Rightarrow> api_env \<Rightarrow> publication \<Rightarrow> core \<Rightarrow> core" where
  "handle_action_state L E P f c =
     (if c_active c then
        (case lib_oid_from_path L (pb_subtopic f) of
           Inl e \<Rightarrow> c
         | Inr _ \<Rightarrow>
             (case ap_action_event P (pb_payload f) of
                Inl e \<Rightarrow> c
              | Inr ev \<Rightarrow> c\<lparr>c_action_manager := snd (process_event L ev (now_of E c) (c_action_manager c))\<rparr>))
      else c)"

definition raw_state_and_action_handler :: "eva_lib \<Rightarrow> core_env \<Rightarrow> api_env \<Rightarrow> publication \<Rightarrow> core \<Rightarrow> core" where
  "raw_state_and_action_handler L E P f c =
     (if pb_handler f = HANDLER_ID_RAW_STATE then handle_raw_state_event L E P f c
      else if pb_handler f = HANDLER_ID_RAW_STATE_BULK then handle_raw_state_event_bulk L E P f c
      else if pb_handler f = HANDLER_ID_ACTION then handle_action_state L E P f c
      else c)"

subsection \<open>Replication\<close>

definition replication_state_handler :: "eva_lib \<Rightarrow> core_env \<Rightarrow> api_env \<Rightarrow> publication \<Rightarrow> core \<Rightarrow> core" where
  "replication_state_handler L E P f c =
     (if c_active c then
        (case lib_oid_from_path L (pb_subtopic f) of
           Inl e \<Rightarrow> c
         | Inr x \<Rightarrow>
             (case ap_repl P (pb_payload f) of
                Inl e \<Rightarrow> c
              | Inr rpl \<Rightarrow> snd (update_state_from_repl L E x rpl (pb_sender f) c)))
      else c)"

text \<open>
  An entry of a bulk frame: an inventory entry is collected under its identifier, with the node of the
  first one as the source; any other entry is applied at once.
\<close>

definition repl_bulk_entry ::
    "eva_lib \<Rightarrow> core_env \<Rightarrow> api_env \<Rightarrow> string \<Rightarrow> repl_event_ext \<Rightarrow>
     (oid, repl_inventory_item) hmap \<times> string option \<times> core \<Rightarrow> (oid, repl_inventory_item) hmap \<times> string option \<times> core" where
  "repl_bulk_entry L E P sender r s =
     (case s of (inv_map, source_id, c) \<Rightarrow>
        case ap_repl_oid P r of
          None \<Rightarrow> (inv_map, source_id, c)
        | Some x \<Rightarrow>
            (case r of
               RseInventory item node \<Rightarrow>
                 (hm_insert x item inv_map, (case source_id of Some n \<Rightarrow> Some n | None \<Rightarrow> Some node), c)
             | _ \<Rightarrow> (inv_map, source_id, snd (update_state_from_repl L E x r sender c))))"

definition replication_bulk_state_handler :: "eva_lib \<Rightarrow> core_env \<Rightarrow> api_env \<Rightarrow> publication \<Rightarrow> core \<Rightarrow> core" where
  "replication_bulk_state_handler L E P f c =
     (if c_active c then
        (let (inv_map, source_id, c1) =
           (case ap_repl_bulk P (pb_payload f) of
              Inl e \<Rightarrow> ([], None, c)
            | Inr rpl \<Rightarrow> fold (repl_bulk_entry L E P (pb_sender f)) rpl ([], None, c))
         in case source_id of
              Some source \<Rightarrow> snd (process_remote_inventory L E inv_map source (pb_sender f) True c1)
            | None \<Rightarrow> c1)
      else c)"

definition collect_remote_inv :: "repl_inventory_item list \<Rightarrow> (oid, repl_inventory_item) hmap" where
  "collect_remote_inv items = fold (\<lambda>item m. hm_insert (ri_oid item) item m) items []"

definition replication_inventory_handler :: "eva_lib \<Rightarrow> core_env \<Rightarrow> api_env \<Rightarrow> publication \<Rightarrow> core \<Rightarrow> core" where
  "replication_inventory_handler L E P f c =
     (if c_active c then
        (case ap_repl_inv P (pb_payload f) of
           Inl e \<Rightarrow> c
         | Inr remote_items \<Rightarrow>
             snd (process_remote_inventory L E (collect_remote_inv remote_items) (pb_subtopic f) (pb_sender f) False c))
      else c)"

definition replication_node_state_handler ::
    "eva_lib \<Rightarrow> core_env \<Rightarrow> api_env \<Rightarrow> (core \<Rightarrow> core) list \<Rightarrow> publication \<Rightarrow> core \<Rightarrow> outcome" where
  "replication_node_state_handler L E P waits f c =
     (if c_active c then
        (case ap_node_state P (pb_payload f) of
           Inl e \<Rightarrow> Done c
         | Inr nse \<Rightarrow>
             (case ns_status nse of
                NS_Online \<Rightarrow>
                  mark_source_online L E waits (pb_subtopic f) (pb_sender f) True (ns_info nse) (ns_timeout nse) c
              | NS_Offline \<Rightarrow>
                  mark_source_online L E waits (pb_subtopic f) (pb_sender f) False None (ns_timeout nse) c
              | NS_Removed \<Rightarrow> destroy_source (pb_subtopic f) waits c))
      else Done c)"

subsection \<open>Data objects\<close>

definition dobj_push ::
    "eva_lib \<Rightarrow> core_env \<Rightarrow> api_env \<Rightarrow> string \<Rightarrow> bytes \<Rightarrow> endianess \<Rightarrow> string \<Rightarrow> core \<Rightarrow> unit result \<times> core" where
  "dobj_push L E P name buf en sender c =
     (case ap_dobj_values P name buf en of
        Inl e \<Rightarrow> (Inl e, c)
      | Inr vals \<Rightarrow>
          (Inr (), update_state_from_raw_bulk L E (map (\<lambda>(x, v). (x, ap_raw_new P 1 v)) vals) sender c))"

definition dobj_error ::
    "eva_lib \<Rightarrow> core_env \<Rightarrow> api_env \<Rightarrow> string \<Rightarrow> item_status option \<Rightarrow> string \<Rightarrow> core \<Rightarrow> unit result \<times> core" where
  "dobj_error L E P name status_opt sender c =
     (let status = unwrap_or ITEM_STATUS_ERROR status_opt
      in if 0 \<le> status then (Inl EInvalidParams, c)
         else
           (case ap_dobj_oids P name of
              Inl e \<Rightarrow> (Inl e, c)
            | Inr oids \<Rightarrow>
                (Inr (), update_state_from_raw_bulk L E (map (\<lambda>x. (x, ap_raw_new0 P status)) oids) sender c)))"

end
