(* ===== verification/Eapi_Calls.thy ===== *)
theory Eapi_Calls
  imports Eapi_Frames
begin

text \<open>
  The calls of the bus API that read or change the items, the variables, the nodes and the actions
  (\<open>handle_call\<close>, \<open>eva/src/eapi.rs\<close>), one definition per method. A call returns a
  packed result, nothing, or an error; \<open>None\<close> is a panic of the handler. The decoders of the
  parameters and the encoder of the results are the fields of \<open>call_env\<close>; the methods of
  the other components (logs, services, sequences, the process) are its field \<open>ce_other\<close>.
\<close>

subsection \<open>Parameters and results\<close>

record params_list =
  pl_i :: "eva_value option"
  pl_node :: "string option"
  pl_regex :: "string option"
  pl_include :: "oid_mask list option"
  pl_exclude :: "oid_mask list option"
  pl_full :: bool
  pl_include_binary :: bool

record params_announce =
  pn_i :: "oid_mask list option"
  pn_node :: "string option"
  pn_broadcast :: bool

record params_action =
  pc_u :: "uuid option"
  pc_i :: string
  pc_params :: "action_params option"
  pc_priority :: "8 word option"
  pc_wait :: "f64 option"

record params_set =
  pt_i :: string
  pt_status :: "item_status option"
  pt_value :: "eva_value option"

record params_dobj_push =
  pd_name :: string
  pd_data :: bytes
  pd_endianess :: endianess

record params_dobj_error =
  pe_name :: string
  pe_status :: "item_status option"

record node_list_entry =
  nl_name :: string
  nl_svc :: "string option"
  nl_remote :: bool
  nl_online :: bool
  nl_info :: "eva_value option"
  nl_timeout :: "nat option"

datatype rpc_value =
    RV_Value eva_value
  | RV_Stats inventory_stats
  | RV_Items "item_state_and_info list"
  | RV_FullItems "full_item_state_and_info list"
  | RV_Action action_launch_result
  | RV_ActionInfo "action_info + action_info_owned"
  | RV_Actions "action_info list"
  | RV_Node node_data
  | RV_LocalNode
  | RV_Nodes "node_list_entry list"

datatype rpc_error = RE_NotReady | RE_Params | RE_Method | RE_Error error

type_synonym rpc_result = "rpc_error + bytes option"

record call_env =
  ce_id :: "bytes \<Rightarrow> string result"
  ce_mask :: "string \<Rightarrow> oid_mask result"
  ce_masks :: "eva_value \<Rightarrow> oid_mask list result"
  ce_strings :: "eva_value \<Rightarrow> string list result"
  ce_regex :: "string \<Rightarrow> (string \<Rightarrow> bool) result"
  ce_oid_mask :: "oid \<Rightarrow> oid_mask list"
  ce_any :: "oid_mask list"
  ce_deploy :: "bytes \<Rightarrow> item_config_data list result"
  ce_undeploy :: "bytes \<Rightarrow> oid list result"
  ce_list :: "bytes \<Rightarrow> params_list result"
  ce_announce :: "bytes \<Rightarrow> params_announce result"
  ce_action :: "bytes \<Rightarrow> params_action result"
  ce_uuid :: "bytes \<Rightarrow> uuid result"
  ce_act_filter :: "bytes \<Rightarrow> act_filter result"
  ce_set :: "bytes \<Rightarrow> params_set result"
  ce_dobj_push :: "bytes \<Rightarrow> params_dobj_push result"
  ce_dobj_error :: "bytes \<Rightarrow> params_dobj_error result"
  ce_priority :: "8 word"
  ce_new_lmacro :: action_params
  ce_pack :: "rpc_value \<Rightarrow> bytes result"
  ce_oid_le :: "oid \<Rightarrow> oid \<Rightarrow> bool"
  ce_sort_nodes :: "node_list_entry list \<Rightarrow> node_list_entry list"
  ce_local_info :: eva_value
  ce_lvar_call :: "string \<Rightarrow> string \<Rightarrow> lvar_remote_op \<Rightarrow> eva_value option result"
  ce_other :: "string \<Rightarrow> bytes \<Rightarrow> string \<Rightarrow> core \<Rightarrow> rpc_result option \<times> core"

definition reply_error :: "error \<Rightarrow> rpc_result option" where
  "reply_error e = Some (Inl (RE_Error e))"

definition reply_none :: "rpc_result option" where
  "reply_none = Some (Inr None)"

definition reply_packed :: "call_env \<Rightarrow> rpc_value \<Rightarrow> rpc_result option" where
  "reply_packed Q v = (case ce_pack Q v of Inl e \<Rightarrow> reply_error e | Inr b \<Rightarrow> Some (Inr (Some b)))"

text \<open>The \<open>?\<close> operator on the way to a reply.\<close>

definition reply_try :: "'a result \<Rightarrow> core \<Rightarrow> ('a \<Rightarrow> rpc_result option \<times> core) \<Rightarrow> rpc_result option \<times> core" where
  "reply_try r c k = (case r of Inl e \<Rightarrow> (reply_error e, c) | Inr v \<Rightarrow> k v)"

definition reply_done :: "unit result \<times> core \<Rightarrow> rpc_result option \<times> core" where
  "reply_done p = (case p of (Inl e, c) \<Rightarrow> (reply_error e, c) | (Inr _, c) \<Rightarrow> (reply_none, c))"

definition need_payload :: "bytes \<Rightarrow> core \<Rightarrow> (unit \<Rightarrow> rpc_result option \<times> core) \<Rightarrow> rpc_result option \<times> core" where
  "need_payload payload c k = (if payload = [] then (Some (Inl RE_Params), c) else k ())"

definition no_payload :: "bytes \<Rightarrow> core \<Rightarrow> (unit \<Rightarrow> rpc_result option \<times> core) \<Rightarrow> rpc_result option \<times> core" where
  "no_payload payload c k = (if payload = [] then k () else (Some (Inl RE_Params), c))"

definition need_ready :: "core \<Rightarrow> (unit \<Rightarrow> rpc_result option \<times> core) \<Rightarrow> rpc_result option \<times> core" where
  "need_ready c k = (if \<not> c_active c then (Some (Inl RE_NotReady), c) else k ())"

subsection \<open>Items\<close>

definition rpc_save :: "core_env \<Rightarrow> bytes \<Rightarrow> core \<Rightarrow> rpc_result option \<times> core" where
  "rpc_save E payload c = need_ready c (\<lambda>_. no_payload payload c (\<lambda>_. (reply_none, core_save E c)))"

definition rpc_item_summary :: "call_env \<Rightarrow> bytes \<Rightarrow> core \<Rightarrow> rpc_result option \<times> core" where
  "rpc_item_summary Q payload c =
     need_ready c (\<lambda>_. no_payload payload c (\<lambda>_. (reply_packed Q (RV_Stats (inv_stats (c_inventory c))), c)))"

definition rpc_item_create :: "eva_lib \<Rightarrow> core_env \<Rightarrow> call_env \<Rightarrow> bytes \<Rightarrow> core \<Rightarrow> rpc_result option \<times> core" where
  "rpc_item_create L E Q payload c =
     need_ready c (\<lambda>_. need_payload payload c (\<lambda>_.
       reply_try (ce_id Q payload) c (\<lambda>i. reply_try (lib_oid_from_str L i) c (\<lambda>x.
         case create_local_item L E x c of
           (Inl e, c1) \<Rightarrow> (reply_error e, c1)
         | (Inr _, c1) \<Rightarrow> (reply_none, c1)))))"

definition rpc_item_destroy :: "eva_lib \<Rightarrow> core_env \<Rightarrow> call_env \<Rightarrow> bytes \<Rightarrow> core \<Rightarrow> rpc_result option \<times> core" where
  "rpc_item_destroy L E Q payload c =
     need_ready c (\<lambda>_. need_payload payload c (\<lambda>_.
       reply_try (ce_id Q payload) c (\<lambda>i. reply_try (ce_mask Q i) c (\<lambda>msk.
         (reply_none, destroy_local_items L E msk c)))))"

definition rpc_item_deploy :: "eva_lib \<Rightarrow> core_env \<Rightarrow> call_env \<Rightarrow> bytes \<Rightarrow> core \<Rightarrow> rpc_result option \<times> core" where
  "rpc_item_deploy L E Q payload c =
     need_ready c (\<lambda>_. need_payload payload c (\<lambda>_.
       reply_try (ce_deploy Q payload) c (\<lambda>items. reply_done (deploy_local_items L E items c))))"

definition rpc_item_undeploy :: "core_env \<Rightarrow> call_env \<Rightarrow> bytes \<Rightarrow> core \<Rightarrow> rpc_result option \<times> core" where
  "rpc_item_undeploy E Q payload c =
     need_ready c (\<lambda>_. need_payload payload c (\<lambda>_. reply_done (undeploy_local_items E (ce_undeploy Q payload) c)))"

definition rpc_item_get_config :: "eva_lib \<Rightarrow> core_env \<Rightarrow> call_env \<Rightarrow> bytes \<Rightarrow> core \<Rightarrow> rpc_result option \<times> core" where
  "rpc_item_get_config L E Q payload c =
     need_ready c (\<lambda>_. need_payload payload c (\<lambda>_.
       reply_try (ce_id Q payload) c (\<lambda>i. reply_try (lib_oid_from_str L i) c (\<lambda>x.
         case list_items L (ce_oid_le Q) (ce_oid_mask Q x) None None (Some NF_Local) None True c of
           [] \<Rightarrow> (reply_error ENotFound, c)
         | item # _ \<Rightarrow>
             reply_try (item_config (en_ser E) (c_heap c) item) c (\<lambda>v. (reply_packed Q (RV_Value v), c))))))"

definition LOCAL_NODE_ALIAS :: string where
  "LOCAL_NODE_ALIAS = ''.local''"

definition REMOTE_ANY_NODE_ALIAS :: string where
  "REMOTE_ANY_NODE_ALIAS = ''.remote-any''"

definition list_node_filter :: "core \<Rightarrow> string \<Rightarrow> node_filter" where
  "list_node_filter c v =
     (if v = LOCAL_NODE_ALIAS \<or> v = c_system_name c then NF_Local
      else if v = REMOTE_ANY_NODE_ALIAS then NF_RemoteAny else NF_Remote v)"

definition opt_regex :: "call_env \<Rightarrow> string option \<Rightarrow> (string \<Rightarrow> bool) option result" where
  "opt_regex Q rx = (case rx of None \<Rightarrow> Inr None | Some r \<Rightarrow> map_sum id Some (ce_regex Q r))"

definition rpc_item_list :: "eva_lib \<Rightarrow> call_env \<Rightarrow> bytes \<Rightarrow> core \<Rightarrow> rpc_result option \<times> core" where
  "rpc_item_list L Q payload c =
     need_ready c (\<lambda>_. need_payload payload c (\<lambda>_.
       reply_try (ce_list Q payload) c (\<lambda>p.
       reply_try (case pl_i p of Some v \<Rightarrow> ce_masks Q v | None \<Rightarrow> Inr (ce_any Q)) c (\<lambda>mask_list.
       reply_try (opt_regex Q (pl_regex p)) c (\<lambda>rx.
         let items = list_items L (ce_oid_le Q) mask_list (pl_include p) (pl_exclude p)
               (map_option (list_node_filter c) (pl_node p)) rx True c
         in (reply_packed Q (RV_FullItems
               (map (\<lambda>i. full_state_and_info (c_heap c) i (c_system_name c) (pl_include_binary p)) items)), c))))))"

definition announce_node_filter :: "core \<Rightarrow> string \<Rightarrow> node_filter" where
  "announce_node_filter c v =
     (if v = LOCAL_NODE_ALIAS \<or> v = c_system_name c then NF_Local else NF_Remote v)"

definition rpc_item_announce ::
    "eva_lib \<Rightarrow> core_env \<Rightarrow> call_env \<Rightarrow> string \<Rightarrow> bytes \<Rightarrow> core \<Rightarrow> rpc_result option \<times> core" where
  "rpc_item_announce L E Q sender payload c =
     need_ready c (\<lambda>_. need_payload payload c (\<lambda>_.
       reply_try (ce_announce Q payload) c (\<lambda>p.
         let nf = map_option (announce_node_filter c) (pn_node p); masks = unwrap_or (ce_any Q) (pn_i p)
         in reply_done (if pn_broadcast p then force_announce_state L E masks nf c
                        else force_announce_state_for L E masks nf sender c))))"

definition rpc_set_enabled :: "eva_lib \<Rightarrow> core_env \<Rightarrow> call_env \<Rightarrow> bool \<Rightarrow> bytes \<Rightarrow> core \<Rightarrow> rpc_result option \<times> core" where
  "rpc_set_enabled L E Q val payload c =
     need_ready c (\<lambda>_. need_payload payload c (\<lambda>_.
       reply_try (ce_id Q payload) c (\<lambda>i. reply_try (ce_mask Q i) c (\<lambda>msk.
         reply_done (set_local_items_enabled L E msk val c)))))"

text \<open>In a list of masks the invalid ones are skipped; a mask outside a list has to be valid.\<close>

definition state_mask_list :: "call_env \<Rightarrow> eva_value option \<Rightarrow> oid_mask list result" where
  "state_mask_list Q v =
     (case v of
        None \<Rightarrow> Inr (ce_any Q)
      | Some (VSeq vs) \<Rightarrow>
          map_sum id (\<lambda>masks. fold (\<lambda>s ms. case ce_mask Q s of Inl _ \<Rightarrow> ms | Inr m \<Rightarrow> hs_insert m ms) masks [])
            (ce_strings Q (VSeq vs))
      | Some w \<Rightarrow> ce_masks Q w)"

definition rpc_item_state :: "eva_lib \<Rightarrow> call_env \<Rightarrow> bytes \<Rightarrow> core \<Rightarrow> rpc_result option \<times> core" where
  "rpc_item_state L Q payload c =
     need_ready c (\<lambda>_. need_payload payload c (\<lambda>_.
       reply_try (ce_list Q payload) c (\<lambda>p.
       reply_try (state_mask_list Q (pl_i p)) c (\<lambda>mask_list.
       reply_try (opt_regex Q (pl_regex p)) c (\<lambda>rx.
         let items = list_items L (ce_oid_le Q) mask_list (pl_include p) (pl_exclude p) None rx False c
         in (reply_packed Q
               (if pl_full p
                then RV_FullItems (map (\<lambda>i. full_state_and_info (c_heap c) i (c_system_name c) (pl_include_binary p)) items)
                else RV_Items (map (\<lambda>i. state_and_info (c_heap c) i (c_system_name c) (pl_include_binary p)) items)), c))))))"

subsection \<open>Actions\<close>

definition action_op ::
    "eva_lib \<Rightarrow> core_env \<Rightarrow> action_env \<Rightarrow> call_env \<Rightarrow> params_action \<Rightarrow> action_params option \<Rightarrow> core \<Rightarrow> rpc_result option \<times> core" where
  "action_op L E A Q p params c =
     reply_try (lib_oid_from_str L (pc_i p)) c (\<lambda>x.
       if (case pc_wait p of Some w \<Rightarrow> duration_from_secs_f64 w = None | None \<Rightarrow> False) then (None, c)
       else
         (case core_action L E A (pc_u p) x params (unwrap_or (ce_priority Q) (pc_priority p)) (pc_wait p) False c of
            (None, c1) \<Rightarrow> (None, c1)
          | (Some (Inl e), c1) \<Rightarrow> (reply_error e, c1)
          | (Some (Inr (AL_Local info)), c1) \<Rightarrow> (reply_packed Q (RV_ActionInfo info), c1)
          | (Some (Inr res), c1) \<Rightarrow> (reply_packed Q (RV_Action res), c1)))"

text \<open>The parameters are a required field of \<open>action\<close>, an optional one of \<open>run\<close> and no field of \<open>action.toggle\<close>.\<close>

definition rpc_action ::
    "eva_lib \<Rightarrow> core_env \<Rightarrow> action_env \<Rightarrow> call_env \<Rightarrow> bytes \<Rightarrow> core \<Rightarrow> rpc_result option \<times> core" where
  "rpc_action L E A Q payload c =
     need_ready c (\<lambda>_. need_payload payload c (\<lambda>_.
       reply_try (ce_action Q payload) c (\<lambda>p.
         case pc_params p of
           None \<Rightarrow> (reply_error EInvalidData, c)
         | Some params \<Rightarrow> action_op L E A Q p (Some params) c)))"

definition rpc_action_toggle ::
    "eva_lib \<Rightarrow> core_env \<Rightarrow> action_env \<Rightarrow> call_env \<Rightarrow> bytes \<Rightarrow> core \<Rightarrow> rpc_result option \<times> core" where
  "rpc_action_toggle L E A Q payload c =
     need_ready c (\<lambda>_. need_payload payload c (\<lambda>_.
       reply_try (ce_action Q payload) c (\<lambda>p. action_op L E A Q p None c)))"

definition rpc_run ::
    "eva_lib \<Rightarrow> core_env \<Rightarrow> action_env \<Rightarrow> call_env \<Rightarrow> bytes \<Rightarrow> core \<Rightarrow> rpc_result option \<times> core" where
  "rpc_run L E A Q payload c =
     need_ready c (\<lambda>_. need_payload payload c (\<lambda>_.
       reply_try (ce_action Q payload) c (\<lambda>p.
         action_op L E A Q p (Some (unwrap_or (ce_new_lmacro Q) (pc_params p))) c)))"

definition rpc_action_result :: "action_env \<Rightarrow> call_env \<Rightarrow> bytes \<Rightarrow> core \<Rightarrow> rpc_result option \<times> core" where
  "rpc_action_result A Q payload c =
     need_ready c (\<lambda>_. need_payload payload c (\<lambda>_.
       reply_try (ce_uuid Q payload) c (\<lambda>u. reply_try (action_result_serialized A u c) c (\<lambda>info.
         (reply_packed Q (RV_ActionInfo info), c)))))"

definition rpc_action_terminate :: "action_env \<Rightarrow> call_env \<Rightarrow> bytes \<Rightarrow> core \<Rightarrow> rpc_result option \<times> core" where
  "rpc_action_terminate A Q payload c =
     need_ready c (\<lambda>_. need_payload payload c (\<lambda>_.
       reply_try (ce_uuid Q payload) c (\<lambda>u. reply_done (core_terminate_action A u c, c))))"

definition rpc_action_kill :: "eva_lib \<Rightarrow> action_env \<Rightarrow> call_env \<Rightarrow> bytes \<Rightarrow> core \<Rightarrow> rpc_result option \<times> core" where
  "rpc_action_kill L A Q payload c =
     need_ready c (\<lambda>_. need_payload payload c (\<lambda>_.
       reply_try (ce_id Q payload) c (\<lambda>i. reply_try (lib_oid_from_str L i) c (\<lambda>x.
         reply_done (kill_actions A x c, c)))))"

definition rpc_action_list :: "eva_lib \<Rightarrow> core_env \<Rightarrow> call_env \<Rightarrow> bytes \<Rightarrow> core \<Rightarrow> rpc_result option \<times> core" where
  "rpc_action_list L E Q payload c =
     need_ready c (\<lambda>_.
       reply_try (if payload = [] then Inr act_filter_default else ce_act_filter Q payload) c (\<lambda>f.
         (reply_packed Q (RV_Actions (get_actions_filtered L f (c_system_name c) (now_of E c) (c_action_manager c))), c)))"

subsection \<open>Variables, data objects, nodes\<close>

definition rpc_lvar_set :: "eva_lib \<Rightarrow> core_env \<Rightarrow> call_env \<Rightarrow> string \<Rightarrow> bytes \<Rightarrow> core \<Rightarrow> rpc_result option \<times> core" where
  "rpc_lvar_set L E Q sender payload c =
     need_ready c (\<lambda>_. need_payload payload c (\<lambda>_.
       reply_try (ce_set Q payload) c (\<lambda>p. reply_try (lib_oid_from_str L (pt_i p)) c (\<lambda>x.
         case lvar_op L E (ce_lvar_call Q) x (LvarSet (pt_status p) (pt_value p)) ''lvar.set'' sender c of
           (Inl e, c1) \<Rightarrow> (reply_error e, c1)
         | (Inr _, c1) \<Rightarrow> (reply_none, c1)))))"

definition rpc_lvar_op ::
    "eva_lib \<Rightarrow> core_env \<Rightarrow> call_env \<Rightarrow> lvar_operation \<Rightarrow> string \<Rightarrow> string \<Rightarrow> bytes \<Rightarrow> core \<Rightarrow> rpc_result option \<times> core" where
  "rpc_lvar_op L E Q op meth sender payload c =
     need_ready c (\<lambda>_. need_payload payload c (\<lambda>_.
       reply_try (ce_id Q payload) c (\<lambda>i. reply_try (lib_oid_from_str L i) c (\<lambda>x.
         case lvar_op L E (ce_lvar_call Q) x op meth sender c of
           (Inl e, c1) \<Rightarrow> (reply_error e, c1)
         | (Inr (Some v), c1) \<Rightarrow> (reply_packed Q (RV_Value v), c1)
         | (Inr None, c1) \<Rightarrow> (reply_none, c1)))))"

definition rpc_dobj_push ::
    "eva_lib \<Rightarrow> core_env \<Rightarrow> api_env \<Rightarrow> call_env \<Rightarrow> string \<Rightarrow> bytes \<Rightarrow> core \<Rightarrow> rpc_result option \<times> core" where
  "rpc_dobj_push L E P Q sender payload c =
     need_payload payload c (\<lambda>_. reply_try (ce_dobj_push Q payload) c (\<lambda>p.
       reply_done (dobj_push L E P (pd_name p) (pd_data p) (pd_endianess p) sender c)))"

definition rpc_dobj_error ::
    "eva_lib \<Rightarrow> core_env \<Rightarrow> api_env \<Rightarrow> call_env \<Rightarrow> string \<Rightarrow> bytes \<Rightarrow> core \<Rightarrow> rpc_result option \<times> core" where
  "rpc_dobj_error L E P Q sender payload c =
     need_payload payload c (\<lambda>_. reply_try (ce_dobj_error Q payload) c (\<lambda>p.
       reply_done (dobj_error L E P (pe_name p) (pe_status p) sender c)))"

definition rpc_node_get :: "call_env \<Rightarrow> bytes \<Rightarrow> core \<Rightarrow> rpc_result option \<times> core" where
  "rpc_node_get Q payload c =
     need_ready c (\<lambda>_. need_payload payload c (\<lambda>_.
       reply_try (ce_id Q payload) c (\<lambda>i.
         if i = c_system_name c then (reply_packed Q RV_LocalNode, c)
         else
           (case hm_get (c_nodes c) i of
              None \<Rightarrow> (reply_error ENotFound, c)
            | Some nd \<Rightarrow> (reply_packed Q (RV_Node nd), c)))))"

definition rpc_node_list :: "call_env \<Rightarrow> bytes \<Rightarrow> core \<Rightarrow> rpc_result option \<times> core" where
  "rpc_node_list Q payload c =
     need_ready c (\<lambda>_. no_payload payload c (\<lambda>_.
       let info = map (\<lambda>(i, n). \<lparr>nl_name = i, nl_svc = nd_svc n, nl_remote = True, nl_online = nd_online n,
                    nl_info = nd_info n, nl_timeout = nd_timeout n\<rparr>) (c_nodes c);
           li = \<lparr>nl_name = c_system_name c, nl_svc = None, nl_remote = False, nl_online = True,
                 nl_info = Some (ce_local_info Q), nl_timeout = Some (c_timeout c)\<rparr>
       in (reply_packed Q (RV_Nodes (ce_sort_nodes Q (info @ [li]))), c)))"

subsection \<open>The dispatch\<close>

definition OTHER_METHODS :: "string list" where
  "OTHER_METHODS =
     [''test'', ''log.purge'', ''log.get'', ''dobj.list'', ''dobj.get_config'', ''dobj.validate'', ''dobj.deploy'',
      ''dobj.undeploy'', ''spoint.list'', ''seq'', ''seq.terminate'', ''svc.disable'', ''svc.enable'', ''svc.deploy'',
      ''svc.undeploy'', ''svc.restart'', ''svc.flash'', ''svc.purge'', ''svc.get_params'', ''svc.get_init'', ''svc.list'',
      ''svc.get'', ''svc.start_by_launcher'', ''core.shutdown'', ''core.sysinfo'', ''bus.publish'', ''simulate.crash'',
      ''update'']"

definition handle_call ::
    "eva_lib \<Rightarrow> core_env \<Rightarrow> action_env \<Rightarrow> api_env \<Rightarrow> call_env \<Rightarrow> string \<Rightarrow> string \<Rightarrow> bytes \<Rightarrow> core \<Rightarrow> rpc_result option \<times> core" where
  "handle_call L E A P Q meth sender payload c =
     (if meth = ''save'' then rpc_save E payload c
      else if meth = ''node.get'' then rpc_node_get Q payload c
      else if meth = ''dobj.push'' then rpc_dobj_push L E P Q sender payload c
      else if meth = ''dobj.error'' then rpc_dobj_error L E P Q sender payload c
      else if meth = ''node.list'' then rpc_node_list Q payload c
      else if meth = ''item.summary'' then rpc_item_summary Q payload c
      else if meth = ''item.create'' then rpc_item_create L E Q payload c
      else if meth = ''item.destroy'' then rpc_item_destroy L E Q payload c
      else if meth = ''item.deploy'' then rpc_item_deploy L E Q payload c
      else if meth = ''item.undeploy'' then rpc_item_undeploy E Q payload c
      else if meth = ''item.get_config'' then rpc_item_get_config L E Q payload c
      else if meth = ''item.list'' then rpc_item_list L Q payload c
      else if meth = ''item.announce'' then rpc_item_announce L E Q sender payload c
      else if meth = ''item.enable'' then rpc_set_enabled L E Q True payload c
      else if meth = ''item.disable'' then rpc_set_enabled L E Q False payload c
      else if meth = ''item.state'' then rpc_item_state L Q payload c
      else if meth = ''action'' then rpc_action L E A Q payload c
      else if meth = ''action.toggle'' then rpc_action_toggle L E A Q payload c
      else if meth = ''run'' then rpc_run L E A Q payload c
      else if meth = ''action.result'' then rpc_action_result A Q payload c
      else if meth = ''action.terminate'' then rpc_action_terminate A Q payload c
      else if meth = ''action.kill'' then rpc_action_kill L A Q payload c
      else if meth = ''action.list'' then rpc_action_list L E Q payload c
      else if meth = ''lvar.set'' then rpc_lvar_set L E Q sender payload c
      else if meth = ''lvar.reset'' then rpc_lvar_op L E Q LvarReset meth sender payload c
      else if meth = ''lvar.incr'' then rpc_lvar_op L E Q LvarIncrement meth sender payload c
      else if meth = ''lvar.decr'' then rpc_lvar_op L E Q LvarDecrement meth sender payload c
      else if meth = ''lvar.clear'' then rpc_lvar_op L E Q LvarClear meth sender payload c
      else if meth = ''lvar.toggle'' then rpc_lvar_op L E Q LvarToggle meth sender payload c
      else if meth \<in> set OTHER_METHODS then ce_other Q meth payload sender c
      else (Some (Inl RE_Method), c))"

subsection \<open>The invariant of the core under the API\<close>

lemmas reply_defs = need_ready_def need_payload_def no_payload_def reply_try_def reply_done_def

text \<open>The calls that only read.\<close>

lemma read_calls:
  "snd (rpc_item_summary Q payload c) = c" "snd (rpc_item_get_config L E Q payload c) = c"
  "snd (rpc_item_list L Q payload c) = c" "snd (rpc_item_state L Q payload c) = c"
  "snd (rpc_action_result A Q payload c) = c" "snd (rpc_action_terminate A Q payload c) = c"
  "snd (rpc_action_kill L A Q payload c) = c" "snd (rpc_action_list L E Q payload c) = c"
  "snd (rpc_node_get Q payload c) = c" "snd (rpc_node_list Q payload c) = c"
  by (simp_all add: rpc_item_summary_def rpc_item_get_config_def rpc_item_list_def rpc_item_state_def
      rpc_action_result_def rpc_action_terminate_def rpc_action_kill_def rpc_action_list_def rpc_node_get_def
      rpc_node_list_def reply_defs Let_def split: sum.split list.split option.split)

lemma keeps_item_calls:
  assumes "core_ok c"
  shows "core_ok (snd (rpc_save E payload c))" and "core_ok (snd (rpc_item_create L E Q payload c))"
    and "core_ok (snd (rpc_item_destroy L E Q payload c))" and "core_ok (snd (rpc_item_deploy L E Q payload c))"
    and "core_ok (snd (rpc_item_undeploy E Q payload c))" and "core_ok (snd (rpc_item_announce L E Q sender payload c))"
    and "core_ok (snd (rpc_set_enabled L E Q v payload c))"
proof -
  have r: "core_ok (snd (reply_done p))" if "core_ok (snd p)" for p
    using that by (cases p; cases "fst p") (auto simp: reply_done_def)
  have e: "core_ok (snd (case p of (Inl e, c1) \<Rightarrow> (reply_error e, c1) | (Inr z, c1) \<Rightarrow> (reply_none, c1)))"
    if "core_ok (snd p)" for p :: "item result \<times> core"
    using that by (cases p; cases "fst p") auto
  show "core_ok (snd (rpc_save E payload c))" and "core_ok (snd (rpc_item_destroy L E Q payload c))"
    using assms keeps by (simp_all add: rpc_save_def rpc_item_destroy_def reply_defs split: sum.split)
  show "core_ok (snd (rpc_item_create L E Q payload c))"
    using assms e [OF create_local_item_ok [OF assms]]
    by (simp add: rpc_item_create_def need_ready_def need_payload_def reply_try_def split: sum.split)
  show "core_ok (snd (rpc_item_deploy L E Q payload c))"
    using assms r [OF deploy_local_items_ok [OF assms]]
    by (simp add: rpc_item_deploy_def need_ready_def need_payload_def reply_try_def split: sum.split)
  show "core_ok (snd (rpc_item_undeploy E Q payload c))"
    using assms r [OF keeps_undeploy [OF assms]] by (simp add: rpc_item_undeploy_def need_ready_def need_payload_def)
  show "core_ok (snd (rpc_item_announce L E Q sender payload c))"
    using assms r keeps_announce [OF assms]
    by (simp add: rpc_item_announce_def need_ready_def need_payload_def reply_try_def Let_def split: sum.split)
  show "core_ok (snd (rpc_set_enabled L E Q v payload c))"
    using assms r [OF keeps_set_enabled [OF assms]]
    by (simp add: rpc_set_enabled_def need_ready_def need_payload_def reply_try_def split: sum.split)
qed

lemma keeps_dobj:
  assumes "value_eq_conv L" and "core_ok c"
  shows "core_ok (snd (dobj_push L E P name buf en sender c))" and "core_ok (snd (dobj_error L E P name s sender c))"
  using keeps_raw(2) [OF assms] assms(2) by (simp_all add: dobj_push_def dobj_error_def Let_def split: sum.split)

lemma keeps_lvar_calls:
  assumes "core_ok c"
  shows "core_ok (snd (rpc_lvar_set L E Q sender payload c))" and "core_ok (snd (rpc_lvar_op L E Q op meth sender payload c))"
proof -
  have k: "core_ok d" if "lvar_op L E call x op meth sender c = (r, d)" for call x op meth r d
    using keeps_lvar_op [OF assms, of L E call x op meth sender] that by simp
  show "core_ok (snd (rpc_lvar_set L E Q sender payload c))" "core_ok (snd (rpc_lvar_op L E Q op meth sender payload c))"
    using assms k
    by (auto simp: rpc_lvar_set_def rpc_lvar_op_def need_ready_def need_payload_def reply_try_def
        split: sum.split prod.split option.split)
qed

lemma keeps_action_calls:
  assumes "core_ok c" and A: "\<And>d. core_ok d \<Longrightarrow> core_ok (av_others A d)" "\<And>d. core_ok d \<Longrightarrow> core_ok (av_others_end A d)"
  shows "core_ok (snd (rpc_action L E A Q payload c))" and "core_ok (snd (rpc_action_toggle L E A Q payload c))"
    and "core_ok (snd (rpc_run L E A Q payload c))"
proof -
  have k: "core_ok d" if "core_action L E A u x params priority wait so c = (r, d)" for u x params priority wait so r d
    using keeps_action [OF assms(1) A, of L E u x params priority wait so] that by simp
  have "core_ok (snd (action_op L E A Q p params c))" for p params
    using assms(1) k
    by (auto simp: action_op_def reply_try_def split: sum.split prod.split option.split action_launch_result.split)
  then show "core_ok (snd (rpc_action L E A Q payload c))" "core_ok (snd (rpc_action_toggle L E A Q payload c))"
    "core_ok (snd (rpc_run L E A Q payload c))"
    using assms(1)
    by (simp_all add: rpc_action_def rpc_action_toggle_def rpc_run_def need_ready_def need_payload_def reply_try_def
        split: sum.split option.split)
qed

text \<open>
  What a call relies on of the code outside: the other tasks that run while an action is pending, and
  the methods of the other components, leave the core consistent.
\<close>

definition calls_conv :: "action_env \<Rightarrow> call_env \<Rightarrow> bool" where
  "calls_conv A Q \<longleftrightarrow>
     (\<forall>d. core_ok d \<longrightarrow> core_ok (av_others A d) \<and> core_ok (av_others_end A d)) \<and>
     (\<forall>meth payload sender d. core_ok d \<longrightarrow> core_ok (snd (ce_other Q meth payload sender d)))"

lemma keeps_handle_call:
  assumes "value_eq_conv L" and "calls_conv A Q" and "core_ok c"
  shows "core_ok (snd (handle_call L E A P Q meth sender payload c))"
proof -
  have A: "\<And>d. core_ok d \<Longrightarrow> core_ok (av_others A d)" "\<And>d. core_ok d \<Longrightarrow> core_ok (av_others_end A d)"
    and o: "core_ok (snd (ce_other Q meth payload sender c))"
    using assms(2,3) by (simp_all add: calls_conv_def)
  have r: "core_ok (snd (reply_done p))" if "core_ok (snd p)" for p
    using that by (cases p; cases "fst p") (auto simp: reply_done_def)
  have d: "core_ok (snd (rpc_dobj_push L E P Q sender payload c))" "core_ok (snd (rpc_dobj_error L E P Q sender payload c))"
    using assms(3) r [OF keeps_dobj(1) [OF assms(1,3)]] r [OF keeps_dobj(2) [OF assms(1,3)]]
    by (simp_all add: rpc_dobj_push_def rpc_dobj_error_def need_payload_def reply_try_def split: sum.split)
  show ?thesis
    by (simp add: handle_call_def read_calls keeps_item_calls [OF assms(3)] keeps_lvar_calls [OF assms(3)]
        keeps_action_calls [OF assms(3) A] d o assms(3))
qed

lemma keeps_frames:
  assumes "value_eq_conv L" and "core_ok c"
  shows "core_ok (raw_state_and_action_handler L E P f c)" and "core_ok (replication_state_handler L E P f c)"
    and "core_ok (replication_bulk_state_handler L E P f c)" and "core_ok (replication_inventory_handler L E P f c)"
proof -
  show "core_ok (raw_state_and_action_handler L E P f c)"
    using assms(2) keeps_raw [OF assms] keeps_local(3) [OF assms(2)]
    by (simp add: raw_state_and_action_handler_def handle_raw_state_event_def handle_raw_state_event_bulk_def
        handle_action_state_def split: sum.split)
  show "core_ok (replication_state_handler L E P f c)"
    using assms(2) keeps_update_repl [OF assms(2)] by (simp add: replication_state_handler_def split: sum.split)
  show "core_ok (replication_inventory_handler L E P f c)"
    using assms(2) keeps_remote_inventory [OF assms(2)] by (simp add: replication_inventory_handler_def split: sum.split)
  have "core_ok (snd (snd (fold (repl_bulk_entry L E P s) rs (m, n, d))))" if "core_ok d" for s rs m n d
    using that
  proof (induction rs arbitrary: m n d)
    case (Cons r rs)
    obtain m' n' d' where e: "repl_bulk_entry L E P s r (m, n, d) = (m', n', d')" by (metis prod_cases3)
    have "core_ok (snd (snd (repl_bulk_entry L E P s r (m, n, d))))"
      using Cons.prems keeps_update_repl [OF Cons.prems]
      by (simp add: repl_bulk_entry_def split: option.split repl_event_ext.split)
    then show ?case using Cons.IH e by simp
  qed simp
  then have "core_ok d" if "fold (repl_bulk_entry L E P s) rs ([], None, c) = (m, n, d)" for s rs m n d
    using assms(2) that by (metis snd_conv)
  then show "core_ok (replication_bulk_state_handler L E P f c)"
    using assms(2) keeps_remote_inventory
    by (auto simp: replication_bulk_state_handler_def split: sum.split prod.split option.split)
qed

lemma keeps_node_frames:
  assumes "core_ok c" and "waits_ok ws"
  shows "outcome_ok (replication_node_state_handler L E P ws f c)"
  using assms keeps_mark_source_online [OF assms] keeps_destroy_source [OF assms]
  by (simp add: replication_node_state_handler_def split: sum.split node_status.split)

lemma keeps_check_nodes:
  "core_ok c \<Longrightarrow> waits_ok ws \<Longrightarrow> outcome_ok (check_nodes L E ws s ns c)"
proof (induction ns arbitrary: c)
  case (Cons n ns)
  obtain m t where n: "n = (m, t)" by (cases n)
  have "outcome_ok (mark_source_online L E ws m s False None t c)"
    by (rule keeps_mark_source_online [OF Cons.prems])
  then show ?case
    using n Cons.IH Cons.prems(2) by (cases "mark_source_online L E ws m s False None t c") simp_all
qed simp

lemma keeps_node_checker:
  assumes "core_ok c" and "waits_ok ws"
  shows "outcome_ok (node_checker_pass L E ws online c)"
proof -
  have "outcome_ok (check_services L E ws online ss d)" if "core_ok d" for ss d
    using that
  proof (induction ss arbitrary: d)
    case (Cons s ss)
    obtain n ns where s: "s = (n, ns)" by (cases s)
    have "outcome_ok (if online n = Inr False then check_nodes L E ws n ns d else Done d)"
      using keeps_check_nodes [OF Cons.prems assms(2)] Cons.prems by simp
    then show ?case
      using s Cons.IH by (cases "if online n = Inr False then check_nodes L E ws n ns d else Done d") simp_all
  qed simp
  then show ?thesis using assms(1) by (simp add: node_checker_pass_def split: option.split)
qed

subsection \<open>Properties\<close>

text \<open>
  The steps of a running core: the calls and frames of the bus API, the passes of the node checker and the
  initial announcement, each as a whole and with arbitrary answers of the environment.
\<close>

inductive api_step :: "eva_lib \<Rightarrow> core \<Rightarrow> core \<Rightarrow> bool" for L where
  call: "calls_conv A Q \<Longrightarrow> api_step L c (snd (handle_call L E A P Q meth sender payload c))"
| state_frame: "api_step L c (raw_state_and_action_handler L E P f c)"
| repl_frame: "api_step L c (replication_state_handler L E P f c)"
| repl_bulk_frame: "api_step L c (replication_bulk_state_handler L E P f c)"
| inventory_frame: "api_step L c (replication_inventory_handler L E P f c)"
| node_frame: "waits_ok ws \<Longrightarrow> replication_node_state_handler L E P ws f c = Done c' \<Longrightarrow> api_step L c c'"
| checker: "waits_ok ws \<Longrightarrow> node_checker_pass L E ws online c = Done c' \<Longrightarrow> api_step L c c'"
| initial: "api_step L c (announce_local_initial E c)"

lemma same_initial_items: "same_items c (announce_initial_items E is c)"
proof (induction "is" arbitrary: c)
  case (Cons i "is")
  let ?c1 = "case item_local_state_event (c_heap c) i of
      Some s \<Rightarrow> snd (announce_local_state E (it_oid i) s c) | None \<Rightarrow> c"
  have "same_items c ?c1" by (simp split: option.split)
  then have "same_items c (announce_initial_items E is ?c1)" by (rule same_items_trans [OF _ Cons.IH])
  then show ?case by simp
qed simp

lemma keeps_api_step:
  assumes "value_eq_conv L" and "api_step L c c'" and "core_ok c"
  shows "core_ok c'"
  using assms(2)
proof (cases rule: api_step.cases)
  case (call A Q E P meth sender payload)
  show ?thesis unfolding call(1) by (rule keeps_handle_call [OF assms(1) call(2) assms(3)])
next
  case (state_frame E P f)
  show ?thesis unfolding state_frame by (rule keeps_frames [OF assms(1,3)])
next
  case (repl_frame E P f)
  show ?thesis unfolding repl_frame by (rule keeps_frames [OF assms(1,3)])
next
  case (repl_bulk_frame E P f)
  show ?thesis unfolding repl_bulk_frame by (rule keeps_frames [OF assms(1,3)])
next
  case (inventory_frame E P f)
  show ?thesis unfolding inventory_frame by (rule keeps_frames [OF assms(1,3)])
next
  case (node_frame ws E P f)
  show ?thesis using keeps_node_frames [OF assms(3) node_frame(1), of L E P f] node_frame(2) by simp
next
  case (checker ws E online)
  show ?thesis using keeps_node_checker [OF assms(3) checker(1), of L E online] checker(2) by simp
next
  case (initial E)
  show ?thesis
    using keeps_same [OF assms(3) same_initial_items] unfolding initial by (simp add: announce_local_initial_def core_ok_def)
qed

text \<open>
  C1: the bus API keeps the core consistent. Whatever calls and frames arrive, valid or not and in
  whatever order, from a consistent core only consistent cores are reached: every registered item
  can be looked up under its identifier, has a memory cell that no other item uses, and has a state
  exactly if it is not a macro, so that the accesses to the states of items never fail.
\<close>

theorem api_keeps_core:
  assumes "value_eq_conv L" and "core_ok c" and "(api_step L)\<^sup>*\<^sup>* c c'"
  shows "core_ok c' \<and>
    (\<forall>x i. core_item c' x = Some i \<longrightarrow> it_oid i = x \<and> (core_state c' x = None \<longleftrightarrow> oid_kind x = KLmacro) \<and>
      (\<forall>y j. core_item c' y = Some j \<longrightarrow> it_cell j = it_cell i \<longrightarrow> y = x))"
proof -
  from assms(3,2) have ok: "core_ok c'" by (induction rule: rtranclp_induct) (blast intro: keeps_api_step [OF assms(1)])+
  have "core_state c' x = None \<longleftrightarrow> oid_kind x = KLmacro" if "core_item c' x = Some i" for x i
    using core_okD(3) [OF ok] that by (simp add: core_item_def core_state_def states_ok_def)
  moreover have "y = x" if "core_item c' x = Some i" "core_item c' y = Some j" "it_cell j = it_cell i" for x y i j
    using cells_okD(2) [OF core_okD(2) [OF ok], of y j x i] that by (simp add: core_item_def)
  ultimately show ?thesis using ok core_item_oid [OF ok] by blast
qed

text \<open>Decoders for evaluation: identifiers are the characters of the payload.\<close>

definition wit_text :: "bytes \<Rightarrow> string" where
  "wit_text b = map (\<lambda>w. char_of (unat w)) b"

definition wit_api :: api_env where
  "wit_api = \<lparr>ap_raw = (\<lambda>_. Inr (raw_event_default 1 (Some (VU8 9)) ForceNone None)), ap_raw_bulk = (\<lambda>_. Inl EPack),
     ap_action_event = (\<lambda>_. Inl EPack), ap_repl = (\<lambda>_. Inl EPack), ap_repl_bulk = (\<lambda>_. Inl EPack), ap_repl_oid = (\<lambda>_. None),
     ap_repl_inv = (\<lambda>_. Inl EPack), ap_node_state = (\<lambda>_. Inl EPack),
     ap_raw_new = (\<lambda>s v. raw_event_default s (Some v) ForceNone None),
     ap_raw_new0 = (\<lambda>s. raw_event_default s None ForceNone None), ap_dobj_values = (\<lambda>_ _ _. Inl ENotFound),
     ap_dobj_oids = (\<lambda>_. Inr [OID KSensor ''a/c''])\<rparr>"

definition wit_calls :: call_env where
  "wit_calls = \<lparr>ce_id = (\<lambda>b. Inr (wit_text b)), ce_mask = (\<lambda>_. Inr \<lparr>mask_kind = None, mask_chunks = None\<rparr>),
     ce_masks = (\<lambda>_. Inl EInvalidData), ce_strings = (\<lambda>_. Inl EInvalidData), ce_regex = (\<lambda>_. Inl EInvalidData),
     ce_oid_mask = (\<lambda>_. []), ce_any = [\<lparr>mask_kind = None, mask_chunks = None\<rparr>], ce_deploy = (\<lambda>_. Inl EPack),
     ce_undeploy = (\<lambda>_. Inl EPack), ce_list = (\<lambda>_. Inl EPack), ce_announce = (\<lambda>_. Inl EPack), ce_action = (\<lambda>_. Inl EPack),
     ce_uuid = (\<lambda>_. Inl EPack), ce_act_filter = (\<lambda>_. Inl EPack), ce_set = (\<lambda>_. Inl EPack), ce_dobj_push = (\<lambda>_. Inl EPack),
     ce_dobj_error = (\<lambda>_. Inr \<lparr>pe_name = ''obj'', pe_status = None\<rparr>), ce_priority = 100, ce_new_lmacro = ParamsLmacro VUnit,
     ce_pack = (\<lambda>_. Inr []), ce_oid_le = (\<lambda>_ _. True), ce_sort_nodes = id, ce_local_info = VUnit,
     ce_lvar_call = (\<lambda>_ _ _. Inl EBus), ce_other = (\<lambda>_ _ _ c. (reply_none, c))\<rparr>"

lemma wit_calls_conv: "calls_conv wit_action_env wit_calls"
  by (simp add: calls_conv_def wit_action_env_def wit_calls_def)

theorem api_keeps_core_witness:
  "core_ok (raw_state_and_action_handler std_lib wit_env wit_api
     \<lparr>pb_subtopic = ''sensor/a/c'', pb_sender = ''eva.controller.x'', pb_payload = [1], pb_handler = 1\<rparr>
     (snd (handle_call std_lib wit_env wit_action_env wit_api wit_calls ''item.disable'' ''s'' [42] wit_core)))"
proof -
  let ?f = "\<lparr>pb_subtopic = ''sensor/a/c'', pb_sender = ''eva.controller.x'', pb_payload = [1], pb_handler = 1\<rparr>"
  let ?c1 = "snd (handle_call std_lib wit_env wit_action_env wit_api wit_calls ''item.disable'' ''s'' [42] wit_core)"
  have "(api_step std_lib)\<^sup>*\<^sup>* wit_core ?c1"
    by (rule r_into_rtranclp) (rule api_step.call [OF wit_calls_conv])
  then have "(api_step std_lib)\<^sup>*\<^sup>* wit_core (raw_state_and_action_handler std_lib wit_env wit_api ?f ?c1)"
    by (rule rtranclp.rtrancl_into_rtrancl) (rule api_step.state_frame)
  from api_keeps_core [OF std_lib_value_eq_conv wit_core_ok this] show ?thesis by blast
qed

text \<open>
  C24: a core that is not active, before it is loaded and while it is stopped, takes no part: every
  frame is ignored, and every call that reads or changes items, variables, nodes or actions is
  answered with \<open>not ready\<close>, except the two that push data objects. An unknown method is
  answered as such by any core. In all these cases the core stays as it is.
\<close>

theorem inactive_core_untouched:
  assumes "\<not> c_active c"
  shows "raw_state_and_action_handler L E P f c = c \<and> replication_state_handler L E P f c = c \<and>
    replication_bulk_state_handler L E P f c = c \<and> replication_inventory_handler L E P f c = c \<and>
    replication_node_state_handler L E P ws f c = Done c \<and>
    (meth \<notin> set OTHER_METHODS \<longrightarrow> meth \<noteq> ''dobj.push'' \<longrightarrow> meth \<noteq> ''dobj.error'' \<longrightarrow>
      handle_call L E A P Q meth sender payload c = (Some (Inl RE_NotReady), c) \<or>
      handle_call L E A P Q meth sender payload c = (Some (Inl RE_Method), c))"
proof -
  have n: "need_ready c k = (Some (Inl RE_NotReady), c)" for k using assms by (simp add: need_ready_def)
  have calls: "rpc_save E payload c = (Some (Inl RE_NotReady), c)" "rpc_node_get Q payload c = (Some (Inl RE_NotReady), c)"
    "rpc_node_list Q payload c = (Some (Inl RE_NotReady), c)" "rpc_item_summary Q payload c = (Some (Inl RE_NotReady), c)"
    "rpc_item_create L E Q payload c = (Some (Inl RE_NotReady), c)" "rpc_item_destroy L E Q payload c = (Some (Inl RE_NotReady), c)"
    "rpc_item_deploy L E Q payload c = (Some (Inl RE_NotReady), c)" "rpc_item_undeploy E Q payload c = (Some (Inl RE_NotReady), c)"
    "rpc_item_get_config L E Q payload c = (Some (Inl RE_NotReady), c)" "rpc_item_list L Q payload c = (Some (Inl RE_NotReady), c)"
    "rpc_item_announce L E Q sender payload c = (Some (Inl RE_NotReady), c)" "rpc_set_enabled L E Q v payload c = (Some (Inl RE_NotReady), c)"
    "rpc_item_state L Q payload c = (Some (Inl RE_NotReady), c)" "rpc_action L E A Q payload c = (Some (Inl RE_NotReady), c)"
    "rpc_action_toggle L E A Q payload c = (Some (Inl RE_NotReady), c)" "rpc_run L E A Q payload c = (Some (Inl RE_NotReady), c)"
    "rpc_action_result A Q payload c = (Some (Inl RE_NotReady), c)" "rpc_action_terminate A Q payload c = (Some (Inl RE_NotReady), c)"
    "rpc_action_kill L A Q payload c = (Some (Inl RE_NotReady), c)" "rpc_action_list L E Q payload c = (Some (Inl RE_NotReady), c)"
    "rpc_lvar_set L E Q sender payload c = (Some (Inl RE_NotReady), c)"
    "rpc_lvar_op L E Q op meth sender payload c = (Some (Inl RE_NotReady), c)" for v op
    unfolding rpc_save_def rpc_node_get_def rpc_node_list_def rpc_item_summary_def rpc_item_create_def rpc_item_destroy_def
      rpc_item_deploy_def rpc_item_undeploy_def rpc_item_get_config_def rpc_item_list_def rpc_item_announce_def
      rpc_set_enabled_def rpc_item_state_def rpc_action_def rpc_action_toggle_def rpc_run_def rpc_action_result_def
      rpc_action_terminate_def rpc_action_kill_def rpc_action_list_def rpc_lvar_set_def rpc_lvar_op_def
    by (rule n)+
  have "handle_call L E A P Q meth sender payload c = (Some (Inl RE_NotReady), c) \<or>
      handle_call L E A P Q meth sender payload c = (Some (Inl RE_Method), c)"
    if "meth \<notin> set OTHER_METHODS" "meth \<noteq> ''dobj.push''" "meth \<noteq> ''dobj.error''"
    using that unfolding handle_call_def calls by presburger
  then show ?thesis
    using assms
    by (simp add: raw_state_and_action_handler_def handle_raw_state_event_def handle_raw_state_event_bulk_def
        handle_action_state_def replication_state_handler_def replication_bulk_state_handler_def
        replication_inventory_handler_def replication_node_state_handler_def)
qed

theorem inactive_core_untouched_witness:
  "handle_call std_lib wit_env wit_action_env wit_api wit_calls ''item.destroy'' ''s'' [42] (wit_core\<lparr>c_active := False\<rparr>) =
     (Some (Inl RE_NotReady), wit_core\<lparr>c_active := False\<rparr>)"
proof -
  have "\<not> c_active (wit_core\<lparr>c_active := False\<rparr>)" by simp
  from inactive_core_untouched [OF this, where meth = "''item.destroy''"] show ?thesis
    by (simp add: OTHER_METHODS_def handle_call_def rpc_item_destroy_def need_ready_def)
qed

text \<open>What an item shows of its value.\<close>

definition shown_value :: "bool \<Rightarrow> eva_value \<Rightarrow> eva_value" where
  "shown_value binary val = (case val of VBytes v \<Rightarrow> VBytes (if binary then v else take 3 v) | v \<Rightarrow> v)"

lemma shown_value:
  "binary \<or> \<not> is_bytes v \<Longrightarrow> shown_value binary v = v"
  "shown_value False v = VBytes b \<Longrightarrow> \<exists>full. v = VBytes full \<and> b = take 3 full"
  by (cases v; auto simp: shown_value_def is_bytes_def)+

lemma shown_value_eq:
  "(if binary \<or> \<not> is_bytes v then Some v
    else (case v of VBytes w \<Rightarrow> Some (VBytes (if 3 \<le> length w then take 3 w else w)) | w \<Rightarrow> Some w)) =
   Some (shown_value binary v)"
  by (cases v) (auto simp: shown_value_def is_bytes_def)

lemma state_and_info_fields:
  assumes "item_state_of h i = Some st"
  shows "si_oid (state_and_info h i name binary) = it_oid i"
    and "si_status (state_and_info h i name binary) = Some (st_status st)"
    and "si_act (state_and_info h i name binary) = st_act st" and "si_t (state_and_info h i name binary) = Some (st_t st)"
    and "si_value (state_and_info h i name binary) = Some (shown_value binary (st_value st))"
    and "si_node (state_and_info h i name binary) = (case it_source i of Some src \<Rightarrow> src_node src | None \<Rightarrow> name)"
    and "si_connected (state_and_info h i name binary) \<longleftrightarrow> (case it_source i of Some src \<Rightarrow> src_online h src | None \<Rightarrow> True)"
    and "si_ieid (state_and_info h i name binary) =
      Some (if si_connected (state_and_info h i name binary) then st_ieid st else IEID 0 0)"
  using assms by (simp_all add: state_and_info_def Let_def shown_value_eq split: option.split)



text \<open>
  A bulk replication frame of inventory entries is merged as the inventory of one source, the
  node of its first entry. The nodes of the other entries are not used: an entry of another node
  ends up with the first node as its source.
\<close>

theorem repl_bulk_one_source:
  assumes "c_active c" and "ap_repl_bulk P (pb_payload f) = Inr (map (\<lambda>(item, node). RseInventory item node) ((item0, node0) # rest))"
    and "\<forall>item node. ap_repl_oid P (RseInventory item node) = Some (ri_oid item)"
  shows "replication_bulk_state_handler L E P f c =
    snd (process_remote_inventory L E (collect_remote_inv (item0 # map fst rest)) node0 (pb_sender f) True c)"
proof -
  have "fold (repl_bulk_entry L E P s) (map (\<lambda>(item, node). RseInventory item node) es) (m, Some n, c) =
      (fold (\<lambda>item m. hm_insert (ri_oid item) item m) (map fst es) m, Some n, c)" for es m n s
    by (induction es arbitrary: m) (auto simp: repl_bulk_entry_def assms(3))
  then show ?thesis
    using assms by (simp add: replication_bulk_state_handler_def repl_bulk_entry_def collect_remote_inv_def)
qed

definition wit_entry :: "string \<Rightarrow> repl_inventory_item" where
  "wit_entry n = \<lparr>ri_oid = OID KSensor n, ri_status = Some 1, ri_value = Some VUnit, ri_act = None, ri_ieid = Some (IEID 2 1),
     ri_t = Some (Fin 3), ri_meta = None, ri_enabled = True\<rparr>"

theorem repl_bulk_one_source_witness:
  "let P = wit_api\<lparr>ap_repl_bulk := \<lambda>_. Inr [RseInventory (wit_entry ''p'') ''n1'', RseInventory (wit_entry ''q'') ''n2''],
             ap_repl_oid := \<lambda>e. case e of RseInventory item _ \<Rightarrow> Some (ri_oid item) | _ \<Rightarrow> None\<rparr>;
       f = \<lparr>pb_subtopic = [], pb_sender = ''s'', pb_payload = [1], pb_handler = 0\<rparr>
   in replication_bulk_state_handler std_lib wit_env P f wit_core =
        snd (process_remote_inventory std_lib wit_env (collect_remote_inv [wit_entry ''p'', wit_entry ''q'']) ''n1'' ''s'' True
          wit_core)"
proof -
  let ?P = "wit_api\<lparr>ap_repl_bulk := \<lambda>_. Inr [RseInventory (wit_entry ''p'') ''n1'', RseInventory (wit_entry ''q'') ''n2''],
             ap_repl_oid := \<lambda>e. case e of RseInventory item _ \<Rightarrow> Some (ri_oid item) | _ \<Rightarrow> None\<rparr>"
  show ?thesis
    using repl_bulk_one_source [of wit_core ?P "\<lparr>pb_subtopic = [], pb_sender = ''s'', pb_payload = [1], pb_handler = 0\<rparr>"
        "wit_entry ''p''" "''n1''" "[(wit_entry ''q'', ''n2'')]" std_lib wit_env]
    by (simp add: wit_core_def)
qed

end
