(* ===== verification/Inventory_Db.thy ===== *)
theory Inventory_Db
  imports Core_Keeps
begin

text \<open>
  The inventory database (\<open>eva/src/inventory_db.rs\<close>): the table \<open>inventory(oid, cfg, state)\<close> with the identifier
  as its key, the two engines behind the trait \<open>Storage\<close>, the buffer of states with the worker
  that flushes it, and the loading of the inventory. The statements are modelled by what SQL
  defines for them: \<open>UPDATE\<close> changes the rows that exist, \<open>DELETE\<close> removes rows, an \<open>INSERT\<close> that does not
  name a column leaves it \<open>NULL\<close>, SQLite's \<open>REPLACE\<close> deletes the row with the same key before it inserts,
  and PostgreSQL's \<open>ON CONFLICT DO UPDATE\<close> changes the named column of that row and fails if one
  statement meets the same key twice. The serializers and the outcome of each statement are
  parameters.
\<close>

record raw_item =
  rw_cfg :: string
  rw_state :: "string option"

type_synonym inventory_table = "(oid, raw_item) hmap"

record db_env =
  de_cfg :: "eva_value \<Rightarrow> string result"
  de_state :: "db_state \<Rightarrow> string result"
  de_sql :: "nat \<Rightarrow> bool"

definition MAX_CHUNK_SIZE :: nat where
  "MAX_CHUNK_SIZE = 500"

text \<open>\<open>slice::chunks\<close>\<close>

function chunks :: "nat \<Rightarrow> 'a list \<Rightarrow> 'a list list" where
  "chunks n xs = (if xs = [] \<or> n = 0 then [] else take n xs # chunks n (drop n xs))"
  by pat_completeness auto
termination by (relation "measure (length \<circ> snd)") auto

declare chunks.simps [simp del]

subsection \<open>The statements\<close>

definition sql_replace :: "oid \<Rightarrow> string \<Rightarrow> inventory_table \<Rightarrow> inventory_table" where
  "sql_replace x cfg t = hm_insert x \<lparr>rw_cfg = cfg, rw_state = None\<rparr> (hm_remove x t)"

definition sql_upsert :: "oid \<Rightarrow> string \<Rightarrow> inventory_table \<Rightarrow> inventory_table" where
  "sql_upsert x cfg t =
     (case hm_get t x of
        Some r \<Rightarrow> hm_insert x (r\<lparr>rw_cfg := cfg\<rparr>) t
      | None \<Rightarrow> hm_insert x \<lparr>rw_cfg = cfg, rw_state = None\<rparr> t)"

definition sql_update_state :: "oid \<Rightarrow> string \<Rightarrow> inventory_table \<Rightarrow> inventory_table" where
  "sql_update_state x st t =
     (case hm_get t x of Some r \<Rightarrow> hm_insert x (r\<lparr>rw_state := Some st\<rparr>) t | None \<Rightarrow> t)"

subsection \<open>PostgreSQL\<close>

text \<open>The rows of a chunk whose value can be serialized; the others are logged and left out.\<close>

fun serialized :: "('a \<Rightarrow> string result) \<Rightarrow> (oid \<times> 'a) list \<Rightarrow> (oid \<times> string) list" where
  "serialized ser [] = []"
| "serialized ser ((x, v) # rest) =
     (case ser v of Inr s \<Rightarrow> (x, s) # serialized ser rest | Inl e \<Rightarrow> serialized ser rest)"

definition pg_insert :: "bool \<Rightarrow> (oid \<times> string) list \<Rightarrow> inventory_table \<Rightarrow> inventory_table result" where
  "pg_insert ok rows t =
     (if ok \<and> distinct (map fst rows) then Inr (fold (\<lambda>(x, cfg). sql_upsert x cfg) rows t) else Inl EFailed)"

fun pg_save_chunks :: "db_env \<Rightarrow> nat \<Rightarrow> (oid \<times> eva_value) list list \<Rightarrow> inventory_table \<Rightarrow> inventory_table result" where
  "pg_save_chunks D n [] t = Inr t"
| "pg_save_chunks D n (items # rest) t =
     (case pg_insert (de_sql D n) (serialized (de_cfg D) items) t of
        Inl e \<Rightarrow> Inl e
      | Inr t1 \<Rightarrow> pg_save_chunks D (Suc n) rest t1)"

text \<open>A statement that fails drops the transaction, and the table stays as it was.\<close>

definition pg_save_items :: "db_env \<Rightarrow> (oid \<times> eva_value) list \<Rightarrow> inventory_table \<Rightarrow> unit result \<times> inventory_table" where
  "pg_save_items D items t =
     (case pg_save_chunks D 0 (chunks MAX_CHUNK_SIZE items) t of
        Inl e \<Rightarrow> (Inl e, t)
      | Inr t1 \<Rightarrow> (Inr (), t1))"

definition pg_save_states :: "db_env \<Rightarrow> (oid \<times> db_state) list \<Rightarrow> inventory_table \<Rightarrow> unit result \<times> inventory_table" where
  "pg_save_states D states t =
     (if de_sql D 0 then (Inr (), fold (\<lambda>(x, s). sql_update_state x s) (serialized (de_state D) states) t)
      else (Inl EFailed, t))"

definition pg_destroy_items :: "db_env \<Rightarrow> oid list \<Rightarrow> inventory_table \<Rightarrow> unit result \<times> inventory_table" where
  "pg_destroy_items D oids t =
     (if de_sql D 0 then (Inr (), filter (\<lambda>(x, _). x \<notin> set oids) t) else (Inl EFailed, t))"

subsection \<open>SQLite\<close>

text \<open>A configuration is bound as JSON; a value that cannot be bound fails the statement.\<close>

fun bind_rows :: "('a \<Rightarrow> string result) \<Rightarrow> (oid \<times> 'a) list \<Rightarrow> (oid \<times> string) list result" where
  "bind_rows ser [] = Inr []"
| "bind_rows ser ((x, v) # rest) =
     (case ser v of
        Inl e \<Rightarrow> Inl e
      | Inr s \<Rightarrow> (case bind_rows ser rest of Inl e \<Rightarrow> Inl e | Inr rows \<Rightarrow> Inr ((x, s) # rows)))"

fun sqlite_save_chunks :: "db_env \<Rightarrow> nat \<Rightarrow> (oid \<times> eva_value) list list \<Rightarrow> inventory_table \<Rightarrow> inventory_table result" where
  "sqlite_save_chunks D n [] t = Inr t"
| "sqlite_save_chunks D n (items # rest) t =
     (case bind_rows (de_cfg D) items of
        Inl e \<Rightarrow> Inl e
      | Inr rows \<Rightarrow>
          if de_sql D n then sqlite_save_chunks D (Suc n) rest (fold (\<lambda>(x, cfg). sql_replace x cfg) rows t)
          else Inl EFailed)"

definition sqlite_save_items :: "db_env \<Rightarrow> (oid \<times> eva_value) list \<Rightarrow> inventory_table \<Rightarrow> unit result \<times> inventory_table" where
  "sqlite_save_items D items t =
     (case sqlite_save_chunks D 0 (chunks MAX_CHUNK_SIZE items) t of
        Inl e \<Rightarrow> (Inl e, t)
      | Inr t1 \<Rightarrow> (Inr (), t1))"

text \<open>A state that cannot be serialized or written is logged; the others are saved.\<close>

fun sqlite_update_states :: "db_env \<Rightarrow> nat \<Rightarrow> (oid \<times> db_state) list \<Rightarrow> inventory_table \<Rightarrow> inventory_table" where
  "sqlite_update_states D n [] t = t"
| "sqlite_update_states D n ((x, s) # rest) t =
     sqlite_update_states D (Suc n) rest
       (case de_state D s of Inr v \<Rightarrow> if de_sql D n then sql_update_state x v t else t | Inl e \<Rightarrow> t)"

definition sqlite_save_states :: "db_env \<Rightarrow> (oid \<times> db_state) list \<Rightarrow> inventory_table \<Rightarrow> unit result \<times> inventory_table" where
  "sqlite_save_states D states t = (Inr (), sqlite_update_states D 0 states t)"

fun sqlite_delete :: "db_env \<Rightarrow> nat \<Rightarrow> oid list \<Rightarrow> inventory_table \<Rightarrow> inventory_table result" where
  "sqlite_delete D n [] t = Inr t"
| "sqlite_delete D n (x # xs) t = (if de_sql D n then sqlite_delete D (Suc n) xs (hm_remove x t) else Inl EFailed)"

definition sqlite_destroy_items :: "db_env \<Rightarrow> oid list \<Rightarrow> inventory_table \<Rightarrow> unit result \<times> inventory_table" where
  "sqlite_destroy_items D oids t = (case sqlite_delete D 0 oids t of Inl e \<Rightarrow> (Inl e, t) | Inr t1 \<Rightarrow> (Inr (), t1))"

subsection \<open>The database\<close>

datatype engine = Postgres | Sqlite

fun save_items :: "engine \<Rightarrow> db_env \<Rightarrow> (oid \<times> eva_value) list \<Rightarrow> inventory_table \<Rightarrow> unit result \<times> inventory_table" where
  "save_items Postgres = pg_save_items"
| "save_items Sqlite = sqlite_save_items"

fun save_states :: "engine \<Rightarrow> db_env \<Rightarrow> (oid \<times> db_state) list \<Rightarrow> inventory_table \<Rightarrow> unit result \<times> inventory_table" where
  "save_states Postgres = pg_save_states"
| "save_states Sqlite = sqlite_save_states"

fun destroy_items :: "engine \<Rightarrow> db_env \<Rightarrow> oid list \<Rightarrow> inventory_table \<Rightarrow> unit result \<times> inventory_table" where
  "destroy_items Postgres = pg_destroy_items"
| "destroy_items Sqlite = sqlite_destroy_items"

record database =
  db_engine :: engine
  db_table :: inventory_table
  db_state_buf :: "(oid, db_state) hmap"
  db_busy :: bool

definition db_push_state :: "oid \<Rightarrow> db_state \<Rightarrow> database \<Rightarrow> database" where
  "db_push_state x st d = d\<lparr>db_state_buf := hm_insert x st (db_state_buf d)\<rparr>"

text \<open>
  One round of the worker: under the lock \<open>busy\<close> the buffer is taken (\<open>db_take\<close>), then written
  (\<open>db_flush\<close>); the states pushed meanwhile stay in the new buffer. A failed write drops the states.
  The buffer is a tree map: its order matters only for which statement fails, an argument.
\<close>

definition db_take :: "database \<Rightarrow> (oid, db_state) hmap \<times> database" where
  "db_take d = (db_state_buf d, d\<lparr>db_state_buf := [], db_busy := True\<rparr>)"

definition db_flush :: "db_env \<Rightarrow> (oid, db_state) hmap \<Rightarrow> database \<Rightarrow> database" where
  "db_flush D states d =
     (let t = (if states \<noteq> [] then snd (save_states (db_engine d) D states (db_table d)) else db_table d)
      in d\<lparr>db_table := t, db_busy := False\<rparr>)"

definition db_is_busy :: "database \<Rightarrow> bool" where
  "db_is_busy d \<longleftrightarrow> db_busy d \<or> db_state_buf d \<noteq> []"

text \<open>
  The wait of the shutdown, with what the worker and the other tasks do in each of its sleeps; \<open>None\<close>
  is a wait that is not over after them.
\<close>

fun db_shutdown :: "(database \<Rightarrow> database) list \<Rightarrow> database \<Rightarrow> database option" where
  "db_shutdown [] d = (if db_is_busy d then None else Some d)"
| "db_shutdown (w # ws) d = (if db_is_busy d then db_shutdown ws (w d) else Some d)"

definition db_save_items_bulk :: "db_env \<Rightarrow> (oid \<times> eva_value) list \<Rightarrow> database \<Rightarrow> unit result \<times> database" where
  "db_save_items_bulk D configs d =
     (let (r, t) = save_items (db_engine d) D configs (db_table d) in (r, d\<lparr>db_table := t\<rparr>))"

definition db_save_item :: "db_env \<Rightarrow> oid \<Rightarrow> eva_value \<Rightarrow> database \<Rightarrow> unit result \<times> database" where
  "db_save_item D x config d =
     (let (r, t) = save_items (db_engine d) D [(x, config)] (db_table d) in (r, d\<lparr>db_table := t\<rparr>))"

definition db_destroy_items_bulk :: "db_env \<Rightarrow> oid list \<Rightarrow> database \<Rightarrow> unit result \<times> database" where
  "db_destroy_items_bulk D oids d =
     (let (r, t) = destroy_items (db_engine d) D oids (db_table d) in (r, d\<lparr>db_table := t\<rparr>))"

definition db_destroy_item :: "db_env \<Rightarrow> oid \<Rightarrow> database \<Rightarrow> unit result \<times> database" where
  "db_destroy_item D x d =
     (let (r, t) = destroy_items (db_engine d) D [x] (db_table d) in (r, d\<lparr>db_table := t\<rparr>))"

subsection \<open>Loading\<close>

record load_env =
  le_cfg :: "string \<Rightarrow> item_data result"
  le_state :: "string \<Rightarrow> item_state result"
  le_boot_id :: "64 word"
  le_ns :: "nat \<Rightarrow> 64 word"
  le_now :: "nat \<Rightarrow> f64"

definition db_append_item :: "load_env \<Rightarrow> nat \<Rightarrow> oid \<Rightarrow> raw_item \<Rightarrow> inventory \<times> heap \<Rightarrow> unit result \<times> inventory \<times> heap" where
  "db_append_item V n x raw s =
     (case s of (iv, h) \<Rightarrow>
        (case (case rw_state raw of None \<Rightarrow> Inr None | Some st \<Rightarrow> map_sum id Some (le_state V st)) of
           Inl e \<Rightarrow> (Inl e, iv, h)
         | Inr state \<Rightarrow>
             (case append_item_from_value x (le_cfg V (rw_cfg raw)) state (le_boot_id V) (le_ns V n) (le_now V n) iv h of
                (r, iv', h') \<Rightarrow> (map_sum id (\<lambda>_. ()) r, iv', h'))))"

text \<open>An invalid record is logged, and loading goes on.\<close>

fun db_load :: "load_env \<Rightarrow> nat \<Rightarrow> inventory_table \<Rightarrow> inventory \<times> heap \<Rightarrow> inventory \<times> heap" where
  "db_load V n [] s = s"
| "db_load V n ((x, raw) # rest) s = db_load V (Suc n) rest (snd (db_append_item V n x raw s))"

text \<open>
  Loading from the registry: the first error, of an identifier, a state or a configuration, ends
  it. A state is used once, for the item with the same key.
\<close>

fun load_inventory ::
    "eva_lib \<Rightarrow> load_env \<Rightarrow> nat \<Rightarrow> (string, string) hmap \<Rightarrow> (string \<times> string) list \<Rightarrow> inventory \<times> heap \<Rightarrow>
     unit result \<times> inventory \<times> heap" where
  "load_inventory L V n states [] s = (Inr (), s)"
| "load_inventory L V n states ((p, i) # rest) s =
     (case lib_oid_from_path L p of
        Inl e \<Rightarrow> (Inl e, s)
      | Inr x \<Rightarrow>
          (case db_append_item V n x \<lparr>rw_cfg = i, rw_state = hm_get states p\<rparr> s of
             (Inl e, s1) \<Rightarrow> (Inl e, s1)
           | (Inr _, s1) \<Rightarrow> load_inventory L V (Suc n) (hm_remove p states) rest s1))"

subsection \<open>The contract of the engines\<close>

text \<open>
  What both engines promise to the database: \<open>fine\<close> says that no statement fails. Saved configurations can
  be read back, other rows stay; states are written into existing rows only, with their
  configurations kept; destroyed rows are gone.
\<close>

locale storage =
  fixes fine :: bool and ser_cfg :: "'c \<Rightarrow> string result" and ser_state :: "'s \<Rightarrow> string result"
    and items :: "(oid \<times> 'c) list \<Rightarrow> inventory_table \<Rightarrow> unit result \<times> inventory_table"
    and states :: "(oid \<times> 's) list \<Rightarrow> inventory_table \<Rightarrow> unit result \<times> inventory_table"
    and destroy :: "oid list \<Rightarrow> inventory_table \<Rightarrow> unit result \<times> inventory_table"
  assumes items_wf: "hm_wf t \<Longrightarrow> hm_wf (snd (items vs t))"
    and states_wf: "hm_wf t \<Longrightarrow> hm_wf (snd (states ss t))"
    and destroy_wf: "hm_wf t \<Longrightarrow> hm_wf (snd (destroy xs t))"
    and items_cfg: "fine \<Longrightarrow> hm_wf t \<Longrightarrow> distinct (map fst vs) \<Longrightarrow> \<forall>(x, v) \<in> set vs. is_ok (ser_cfg v) \<Longrightarrow>
      fst (items vs t) = Inr () \<and> map_option rw_cfg (hm_get (snd (items vs t)) x) =
        (case map_of vs x of Some v \<Rightarrow> Some (projr (ser_cfg v)) | None \<Rightarrow> map_option rw_cfg (hm_get t x))"
    and items_other: "hm_wf t \<Longrightarrow> x \<notin> fst ` set vs \<Longrightarrow> hm_get (snd (items vs t)) x = hm_get t x"
    and states_get: "fine \<Longrightarrow> hm_wf t \<Longrightarrow> distinct (map fst ss) \<Longrightarrow> hm_get (snd (states ss t)) x =
      map_option (\<lambda>r. case map_of ss x of Some s \<Rightarrow> (case ser_state s of Inr v \<Rightarrow> r\<lparr>rw_state := Some v\<rparr> | Inl _ \<Rightarrow> r)
                      | None \<Rightarrow> r) (hm_get t x)"
    and destroy_get: "fine \<Longrightarrow> hm_wf t \<Longrightarrow> hm_get (snd (destroy xs t)) x = (if x \<in> set xs then None else hm_get t x)"
begin

lemma saved_rows:
  assumes "fine" and "hm_wf t" and "distinct (map fst vs)" and "distinct (map fst ss)" and "fst ` set ss = fst ` set vs"
    and "\<forall>(x, v) \<in> set vs. is_ok (ser_cfg v)" and "\<forall>(x, s) \<in> set ss. is_ok (ser_state s)"
  shows "hm_get (snd (states ss (snd (items vs t)))) x =
    (case (map_of vs x, map_of ss x) of
       (Some v, Some s) \<Rightarrow> Some \<lparr>rw_cfg = projr (ser_cfg v), rw_state = Some (projr (ser_state s))\<rparr>
     | _ \<Rightarrow> hm_get t x)"
proof (cases "map_of vs x")
  case None
  then have n: "x \<notin> fst ` set vs" by (simp add: map_of_eq_None_iff)
  then have "map_of ss x = None" using assms(5) by (simp add: map_of_eq_None_iff)
  then show ?thesis
    using None states_get [OF assms(1) items_wf [OF assms(2)] assms(4)] items_other [OF assms(2) n]
    by (simp add: option.map_ident)
next
  case (Some v)
  then have "x \<in> fst ` set ss" using assms(5) by (metis map_of_eq_None_iff option.distinct(1))
  then obtain s where s: "map_of ss x = Some s" using map_of_eq_None_iff [of ss x] by blast
  then have "is_ok (ser_state s)" using assms(7) map_of_SomeD by fastforce
  then obtain w where w: "ser_state s = Inr w" by (cases "ser_state s") auto
  have "map_option rw_cfg (hm_get (snd (items vs t)) x) = Some (projr (ser_cfg v))"
    using items_cfg [OF assms(1-3,6), of x] Some by simp
  then obtain r where "hm_get (snd (items vs t)) x = Some r" "rw_cfg r = projr (ser_cfg v)" by auto
  then show ?thesis
    using states_get [OF assms(1) items_wf [OF assms(2)] assms(4), of vs x] s w Some by simp
qed

lemma destroyed_row:
  assumes "fine" and "hm_wf t"
  shows "hm_get (snd (destroy [x] (snd (items [(x, v)] t)))) y = (if y = x then None else hm_get t y)"
  using destroy_get [OF assms(1) items_wf [OF assms(2)], of "[x]" "[(x, v)]" y]
    items_other [OF assms(2), of y "[(x, v)]"] by simp

end

text \<open>An engine that keeps the stored states when configurations are saved.\<close>

locale keeping_storage = storage +
  assumes items_state: "hm_wf t \<Longrightarrow> hm_get t x = Some r \<Longrightarrow> map_option rw_state (hm_get (snd (items vs t)) x) = Some (rw_state r)"
begin

lemma resaved_row:
  assumes "fine" and "hm_wf t" and "hm_get t x = Some r" and "ser_cfg v = Inr cfg"
  shows "hm_get (snd (items [(x, v)] t)) x = Some (r\<lparr>rw_cfg := cfg\<rparr>)"
proof -
  have "map_option rw_cfg (hm_get (snd (items [(x, v)] t)) x) = Some cfg"
    using items_cfg [OF assms(1,2), of "[(x, v)]" x] assms(4) by simp
  moreover have "map_option rw_state (hm_get (snd (items [(x, v)] t)) x) = Some (rw_state r)"
    by (rule items_state [OF assms(2,3)])
  ultimately show ?thesis by auto
qed

end

subsection \<open>The engines fulfil the contract\<close>

lemma concat_chunks: "0 < n \<Longrightarrow> concat (chunks n xs) = xs"
proof (induction n xs rule: chunks.induct)
  case (1 n xs)
  show ?case
  proof (cases "xs = []")
    case False
    then show ?thesis using 1 by (subst chunks.simps) simp
  qed (simp add: chunks.simps)
qed

text \<open>A statement per row, each of which acts on the row of its key only.\<close>

lemma rows_fold:
  assumes wf: "hm_wf t" and f_wf: "\<And>x v t. hm_wf t \<Longrightarrow> hm_wf (f x v t)"
    and f_get: "\<And>x v t y. hm_wf t \<Longrightarrow> hm_get (f x v t) y = (if y = x then g v (hm_get t x) else hm_get t y)"
  shows "hm_wf (fold (\<lambda>(x, v). f x v) rows t)"
    and "y \<notin> fst ` set rows \<Longrightarrow> hm_get (fold (\<lambda>(x, v). f x v) rows t) y = hm_get t y"
    and "distinct (map fst rows) \<Longrightarrow> hm_get (fold (\<lambda>(x, v). f x v) rows t) y =
      (case map_of rows y of Some v \<Rightarrow> g v (hm_get t y) | None \<Rightarrow> hm_get t y)"
proof -
  have a: "hm_wf (fold (\<lambda>(x, v). f x v) rows t) \<and>
      (y \<notin> fst ` set rows \<longrightarrow> hm_get (fold (\<lambda>(x, v). f x v) rows t) y = hm_get t y)"
    using wf by (induction rows arbitrary: t) (auto simp: f_wf f_get)
  then show "hm_wf (fold (\<lambda>(x, v). f x v) rows t)"
    and "y \<notin> fst ` set rows \<Longrightarrow> hm_get (fold (\<lambda>(x, v). f x v) rows t) y = hm_get t y" by simp_all
  show "hm_get (fold (\<lambda>(x, v). f x v) rows t) y = (case map_of rows y of Some v \<Rightarrow> g v (hm_get t y) | None \<Rightarrow> hm_get t y)"
    if "distinct (map fst rows)"
    using that wf
  proof (induction rows arbitrary: t)
    case (Cons r rows)
    obtain x v where r: "r = (x, v)" by (cases r)
    have "map_of rows x = None" using Cons.prems(1) r by (simp add: map_of_eq_None_iff)
    then show ?case using Cons.IH [of "f x v t"] Cons.prems r by (auto simp: f_wf f_get split: option.split)
  qed simp
qed

lemma upsert_get:
  "hm_wf t \<Longrightarrow> hm_get (sql_upsert x cfg t) y =
     (if y = x then Some (case hm_get t x of Some r \<Rightarrow> r\<lparr>rw_cfg := cfg\<rparr> | None \<Rightarrow> \<lparr>rw_cfg = cfg, rw_state = None\<rparr>)
      else hm_get t y)"
  "hm_wf t \<Longrightarrow> hm_wf (sql_upsert x cfg t)"
  by (simp_all add: sql_upsert_def hm_laws split: option.split)

lemma replace_get:
  "hm_wf t \<Longrightarrow> hm_get (sql_replace x cfg t) y = (if y = x then Some \<lparr>rw_cfg = cfg, rw_state = None\<rparr> else hm_get t y)"
  "hm_wf t \<Longrightarrow> hm_wf (sql_replace x cfg t)"
  by (simp_all add: sql_replace_def hm_laws)

lemma update_state_get:
  "hm_wf t \<Longrightarrow> hm_get (sql_update_state x st t) y =
     (if y = x then map_option (\<lambda>r. r\<lparr>rw_state := Some st\<rparr>) (hm_get t x) else hm_get t y)"
  "hm_wf t \<Longrightarrow> hm_wf (sql_update_state x st t)"
  by (auto simp: sql_update_state_def hm_laws split: option.split)

lemma upsert_rows:
  assumes "hm_wf t"
  shows "hm_wf (fold (\<lambda>(x, v). sql_upsert x v) rows t)"
    and "y \<notin> fst ` set rows \<Longrightarrow> hm_get (fold (\<lambda>(x, v). sql_upsert x v) rows t) y = hm_get t y"
    and "distinct (map fst rows) \<Longrightarrow> hm_get (fold (\<lambda>(x, v). sql_upsert x v) rows t) y =
      (case map_of rows y of Some v \<Rightarrow> Some (case hm_get t y of Some r \<Rightarrow> r\<lparr>rw_cfg := v\<rparr> | None \<Rightarrow> \<lparr>rw_cfg = v, rw_state = None\<rparr>) | None \<Rightarrow> hm_get t y)"
  by (rule rows_fold [OF assms upsert_get(2,1)]; assumption?)+

lemma replace_rows:
  assumes "hm_wf t"
  shows "hm_wf (fold (\<lambda>(x, v). sql_replace x v) rows t)"
    and "y \<notin> fst ` set rows \<Longrightarrow> hm_get (fold (\<lambda>(x, v). sql_replace x v) rows t) y = hm_get t y"
    and "distinct (map fst rows) \<Longrightarrow> hm_get (fold (\<lambda>(x, v). sql_replace x v) rows t) y =
      (case map_of rows y of Some v \<Rightarrow> Some \<lparr>rw_cfg = v, rw_state = None\<rparr> | None \<Rightarrow> hm_get t y)"
  by (rule rows_fold [OF assms replace_get(2,1)]; assumption?)+

lemma update_rows:
  assumes "hm_wf t"
  shows "hm_wf (fold (\<lambda>(x, v). sql_update_state x v) rows t)"
    and "y \<notin> fst ` set rows \<Longrightarrow> hm_get (fold (\<lambda>(x, v). sql_update_state x v) rows t) y = hm_get t y"
    and "distinct (map fst rows) \<Longrightarrow> hm_get (fold (\<lambda>(x, v). sql_update_state x v) rows t) y =
      (case map_of rows y of Some v \<Rightarrow> map_option (\<lambda>r. r\<lparr>rw_state := Some v\<rparr>) (hm_get t y) | None \<Rightarrow> hm_get t y)"
  by (rule rows_fold [OF assms update_state_get(2,1)]; assumption?)+

lemma serialized_append: "serialized ser (xs @ ys) = serialized ser xs @ serialized ser ys"
  by (induction xs rule: serialized.induct) (auto split: sum.split)

lemma serialized_keys: "fst ` set (serialized ser xs) \<subseteq> fst ` set xs"
  by (induction xs rule: serialized.induct) (auto split: sum.split)

lemma serialized_distinct: "distinct (map fst xs) \<Longrightarrow> distinct (map fst (serialized ser xs))"
proof (induction xs rule: serialized.induct)
  case (2 ser x v rest)
  then show ?case using serialized_keys [of ser rest] by (auto split: sum.split)
qed simp

lemma serialized_map_of:
  "distinct (map fst xs) \<Longrightarrow> map_of (serialized ser xs) y =
     (case map_of xs y of Some v \<Rightarrow> (case ser v of Inr s \<Rightarrow> Some s | Inl _ \<Rightarrow> None) | None \<Rightarrow> None)"
proof (induction xs rule: serialized.induct)
  case (2 ser x v rest)
  have "map_of rest x = None" using 2(3) by (simp add: map_of_eq_None_iff)
  then show ?case using 2 by (auto split: sum.split option.split)
qed simp

lemma bind_rows_serialized: "\<forall>(x, v) \<in> set xs. is_ok (ser v) \<Longrightarrow> bind_rows ser xs = Inr (serialized ser xs)"
  by (induction xs rule: serialized.induct) (auto split: sum.split)

lemma bind_rows_keys: "bind_rows ser xs = Inr rows \<Longrightarrow> map fst rows = map fst xs"
  by (induction xs arbitrary: rows rule: serialized.induct) (auto split: sum.splits)

lemma pg_chunks_result:
  "pg_save_chunks D n cs t = Inr t1 \<Longrightarrow> t1 = fold (\<lambda>(x, cfg). sql_upsert x cfg) (serialized (de_cfg D) (concat cs)) t"
  by (induction cs arbitrary: n t) (auto simp: pg_insert_def serialized_append split: sum.splits if_splits)

lemma pg_chunks_succeed:
  "\<forall>n. de_sql D n \<Longrightarrow> distinct (map fst (concat cs)) \<Longrightarrow> \<exists>t1. pg_save_chunks D n cs t = Inr t1"
  by (induction cs arbitrary: n t) (auto simp: pg_insert_def serialized_distinct)

lemma pg_items_result:
  "snd (pg_save_items D vs t) = t \<or>
   snd (pg_save_items D vs t) = fold (\<lambda>(x, cfg). sql_upsert x cfg) (serialized (de_cfg D) vs) t"
  using pg_chunks_result [of D 0 "chunks MAX_CHUNK_SIZE vs" t]
  by (auto simp: pg_save_items_def concat_chunks MAX_CHUNK_SIZE_def split: sum.split)

lemma pg_items_succeed:
  assumes "\<forall>n. de_sql D n" and "distinct (map fst vs)"
  shows "pg_save_items D vs t = (Inr (), fold (\<lambda>(x, cfg). sql_upsert x cfg) (serialized (de_cfg D) vs) t)"
proof -
  obtain t1 where "pg_save_chunks D 0 (chunks MAX_CHUNK_SIZE vs) t = Inr t1"
    using pg_chunks_succeed [OF assms(1), of "chunks MAX_CHUNK_SIZE vs" 0 t] assms(2)
    by (auto simp: concat_chunks MAX_CHUNK_SIZE_def)
  then show ?thesis
    using pg_chunks_result [of D 0 "chunks MAX_CHUNK_SIZE vs" t t1]
    by (simp add: pg_save_items_def concat_chunks MAX_CHUNK_SIZE_def)
qed

lemma upsert_keeps_state:
  assumes "hm_wf t" and "hm_get t x = Some r"
  shows "\<exists>r'. hm_get (fold (\<lambda>(x, cfg). sql_upsert x cfg) rows t) x = Some r' \<and> rw_state r' = rw_state r"
  using assms
proof (induction rows arbitrary: t r)
  case (Cons p rows)
  obtain y cfg where p: "p = (y, cfg)" by (cases p)
  obtain r1 where r1: "hm_get (sql_upsert y cfg t) x = Some r1" "rw_state r1 = rw_state r"
    using Cons.prems by (cases "x = y") (simp_all add: upsert_get)
  show ?case using Cons.IH [OF upsert_get(2) [OF Cons.prems(1)] r1(1)] r1(2) p by simp
qed simp

interpretation pg: keeping_storage "\<forall>n. de_sql D n" "de_cfg D" "de_state D" "pg_save_items D" "pg_save_states D"
  "pg_destroy_items D" for D
proof unfold_locales
  fix t :: inventory_table and vs :: "(oid \<times> eva_value) list" and ss :: "(oid \<times> db_state) list" and xs x r
  assume wf: "hm_wf t"
  have destroyed: "hm_wf (filter (\<lambda>(x, _). x \<notin> set xs) t)"
    using wf by (simp add: hm_wf_def distinct_map_filter)
  show "hm_wf (snd (pg_save_items D vs t))"
    using pg_items_result [of D vs t] upsert_rows(1) [OF wf] wf by auto
  show "hm_wf (snd (pg_save_states D ss t))" using update_rows(1) [OF wf] wf by (simp add: pg_save_states_def)
  show "hm_wf (snd (pg_destroy_items D xs t))" using destroyed wf by (simp add: pg_destroy_items_def)
  show "hm_get (snd (pg_save_items D vs t)) x = hm_get t x" if "x \<notin> fst ` set vs"
  proof -
    have "x \<notin> fst ` set (serialized (de_cfg D) vs)" using serialized_keys [of "de_cfg D" vs] that by blast
    then show ?thesis
      using pg_items_result [of D vs t] upsert_rows(2) [OF wf, of x "serialized (de_cfg D) vs"] by metis
  qed
  show "map_option rw_state (hm_get (snd (pg_save_items D vs t)) x) = Some (rw_state r)" if "hm_get t x = Some r"
    using pg_items_result [of D vs t] upsert_keeps_state [OF wf that, of "serialized (de_cfg D) vs"] that by auto
  assume fine: "\<forall>n. de_sql D n"
  show "fst (pg_save_items D vs t) = Inr () \<and> map_option rw_cfg (hm_get (snd (pg_save_items D vs t)) x) =
        (case map_of vs x of Some v \<Rightarrow> Some (projr (de_cfg D v)) | None \<Rightarrow> map_option rw_cfg (hm_get t x))"
    if "distinct (map fst vs)" "\<forall>(x, v) \<in> set vs. is_ok (de_cfg D v)"
  proof (cases "map_of vs x")
    case (Some v)
    then have "is_ok (de_cfg D v)" using that(2) map_of_SomeD by fastforce
    then obtain cfg where "de_cfg D v = Inr cfg" by (cases "de_cfg D v") auto
    then show ?thesis
      using Some pg_items_succeed [OF fine that(1)] upsert_rows(3) [OF wf serialized_distinct [OF that(1), of "de_cfg D"], of x]
      by (simp add: serialized_map_of [OF that(1)] split: option.split)
  next
    case None
    then show ?thesis
      using pg_items_succeed [OF fine that(1)] upsert_rows(3) [OF wf serialized_distinct [OF that(1), of "de_cfg D"], of x]
      by (simp add: serialized_map_of [OF that(1)])
  qed
  show "hm_get (snd (pg_save_states D ss t)) x =
      map_option (\<lambda>r. case map_of ss x of Some s \<Rightarrow> (case de_state D s of Inr v \<Rightarrow> r\<lparr>rw_state := Some v\<rparr> | Inl _ \<Rightarrow> r)
                      | None \<Rightarrow> r) (hm_get t x)" if "distinct (map fst ss)"
    using fine update_rows(3) [OF wf serialized_distinct [OF that, of "de_state D"], of x]
    by (simp add: pg_save_states_def serialized_map_of [OF that] option.map_ident split: option.split sum.split)
  show "hm_get (snd (pg_destroy_items D xs t)) x = (if x \<in> set xs then None else hm_get t x)"
    using fine hm.entries_get [OF destroyed, of x] hm.entries_get [OF wf, of x]
    by (cases "hm_get t x"; cases "hm_get (filter (\<lambda>(x, _). x \<notin> set xs) t) x") (auto simp: pg_destroy_items_def)
qed

lemma sqlite_chunks_result:
  "sqlite_save_chunks D n cs t = Inr t1 \<Longrightarrow>
     \<exists>rows. map fst rows = map fst (concat cs) \<and> t1 = fold (\<lambda>(x, cfg). sql_replace x cfg) rows t"
proof (induction cs arbitrary: n t)
  case (Cons items cs)
  obtain rows where b: "bind_rows (de_cfg D) items = Inr rows" "de_sql D n"
    "sqlite_save_chunks D (Suc n) cs (fold (\<lambda>(x, cfg). sql_replace x cfg) rows t) = Inr t1"
    using Cons.prems by (auto split: sum.splits if_splits)
  from Cons.IH [OF b(3)] obtain rest where "map fst rest = map fst (concat cs)"
    "t1 = fold (\<lambda>(x, cfg). sql_replace x cfg) (rows @ rest) t" by auto
  then show ?case using bind_rows_keys [OF b(1)] by (intro exI [of _ "rows @ rest"]) simp
qed simp

lemma sqlite_chunks_succeed:
  "\<forall>n. de_sql D n \<Longrightarrow> \<forall>(x, v) \<in> set (concat cs). is_ok (de_cfg D v) \<Longrightarrow>
     sqlite_save_chunks D n cs t = Inr (fold (\<lambda>(x, cfg). sql_replace x cfg) (serialized (de_cfg D) (concat cs)) t)"
proof (induction cs arbitrary: n t)
  case (Cons items cs)
  have "bind_rows (de_cfg D) items = Inr (serialized (de_cfg D) items)"
    by (rule bind_rows_serialized) (use Cons.prems(2) in auto)
  then show ?case using Cons by (simp add: serialized_append)
qed simp

lemma sqlite_items_result:
  "\<exists>rows. map fst rows \<in> {[], map fst vs} \<and> snd (sqlite_save_items D vs t) = fold (\<lambda>(x, cfg). sql_replace x cfg) rows t"
proof (cases "sqlite_save_chunks D 0 (chunks MAX_CHUNK_SIZE vs) t")
  case (Inr t1)
  then show ?thesis
    using sqlite_chunks_result [OF Inr] by (auto simp: sqlite_save_items_def concat_chunks MAX_CHUNK_SIZE_def)
qed (auto simp: sqlite_save_items_def intro!: exI [of _ "[]"])

lemma sqlite_items_succeed:
  assumes "\<forall>n. de_sql D n" and "\<forall>(x, v) \<in> set vs. is_ok (de_cfg D v)"
  shows "sqlite_save_items D vs t = (Inr (), fold (\<lambda>(x, cfg). sql_replace x cfg) (serialized (de_cfg D) vs) t)"
  using sqlite_chunks_succeed [OF assms(1), of "chunks MAX_CHUNK_SIZE vs"] assms(2)
  by (simp add: sqlite_save_items_def concat_chunks MAX_CHUNK_SIZE_def)

lemma sqlite_states_wf: "hm_wf t \<Longrightarrow> hm_wf (sqlite_update_states D n ss t)"
  by (induction ss arbitrary: n t) (auto simp: update_state_get split: sum.split)

lemma sqlite_states_succeed:
  "\<forall>n. de_sql D n \<Longrightarrow> sqlite_update_states D n ss t = fold (\<lambda>(x, s). sql_update_state x s) (serialized (de_state D) ss) t"
  by (induction ss arbitrary: n t) (auto split: sum.split)

lemma sqlite_delete_wf: "hm_wf t \<Longrightarrow> sqlite_delete D n xs t = Inr t1 \<Longrightarrow> hm_wf t1"
proof (induction xs arbitrary: n t)
  case (Cons x xs)
  then show ?case using Cons.IH [OF hm.wf_remove [OF Cons.prems(1), of x]] by (simp split: if_splits)
qed simp

lemma sqlite_delete_succeed:
  "\<forall>n. de_sql D n \<Longrightarrow> hm_wf t \<Longrightarrow>
     \<exists>t1. sqlite_delete D n xs t = Inr t1 \<and> hm_get t1 y = (if y \<in> set xs then None else hm_get t y)"
proof (induction xs arbitrary: n t)
  case (Cons x xs)
  then show ?case
    using Cons.IH [OF Cons.prems(1) hm.wf_remove [OF Cons.prems(2), of x], of "Suc n"] hm.get_remove [OF Cons.prems(2), of x y]
    by auto
qed simp

interpretation sqlite: storage "\<forall>n. de_sql D n" "de_cfg D" "de_state D" "sqlite_save_items D" "sqlite_save_states D"
  "sqlite_destroy_items D" for D
proof unfold_locales
  fix t :: inventory_table and vs :: "(oid \<times> eva_value) list" and ss :: "(oid \<times> db_state) list" and xs x
  assume wf: "hm_wf t"
  obtain rows where rows: "map fst rows \<in> {[], map fst vs}"
    "snd (sqlite_save_items D vs t) = fold (\<lambda>(x, cfg). sql_replace x cfg) rows t"
    using sqlite_items_result by blast
  show "hm_wf (snd (sqlite_save_items D vs t))" using rows(2) replace_rows(1) [OF wf] by simp
  show "hm_wf (snd (sqlite_save_states D ss t))" using sqlite_states_wf [OF wf] by (simp add: sqlite_save_states_def)
  show "hm_wf (snd (sqlite_destroy_items D xs t))"
    using sqlite_delete_wf [OF wf] wf by (auto simp: sqlite_destroy_items_def split: sum.split)
  show "hm_get (snd (sqlite_save_items D vs t)) x = hm_get t x" if "x \<notin> fst ` set vs"
  proof -
    have "x \<notin> fst ` set rows" using rows(1) that by (metis empty_iff empty_set insertE list.set_map singletonD)
    then show ?thesis using rows(2) replace_rows(2) [OF wf] by simp
  qed
  assume fine: "\<forall>n. de_sql D n"
  show "fst (sqlite_save_items D vs t) = Inr () \<and> map_option rw_cfg (hm_get (snd (sqlite_save_items D vs t)) x) =
        (case map_of vs x of Some v \<Rightarrow> Some (projr (de_cfg D v)) | None \<Rightarrow> map_option rw_cfg (hm_get t x))"
    if "distinct (map fst vs)" "\<forall>(x, v) \<in> set vs. is_ok (de_cfg D v)"
  proof (cases "map_of vs x")
    case (Some v)
    then have "is_ok (de_cfg D v)" using that(2) map_of_SomeD by fastforce
    then obtain cfg where "de_cfg D v = Inr cfg" by (cases "de_cfg D v") auto
    then show ?thesis
      using Some sqlite_items_succeed [OF fine that(2)] replace_rows(3) [OF wf serialized_distinct [OF that(1), of "de_cfg D"], of x]
      by (simp add: serialized_map_of [OF that(1)])
  next
    case None
    then show ?thesis
      using sqlite_items_succeed [OF fine that(2)] replace_rows(3) [OF wf serialized_distinct [OF that(1), of "de_cfg D"], of x]
      by (simp add: serialized_map_of [OF that(1)])
  qed
  show "hm_get (snd (sqlite_save_states D ss t)) x =
      map_option (\<lambda>r. case map_of ss x of Some s \<Rightarrow> (case de_state D s of Inr v \<Rightarrow> r\<lparr>rw_state := Some v\<rparr> | Inl _ \<Rightarrow> r)
                      | None \<Rightarrow> r) (hm_get t x)" if "distinct (map fst ss)"
    using sqlite_states_succeed [OF fine] update_rows(3) [OF wf serialized_distinct [OF that, of "de_state D"], of x]
    by (simp add: sqlite_save_states_def serialized_map_of [OF that] option.map_ident split: option.split sum.split)
  show "hm_get (snd (sqlite_destroy_items D xs t)) x = (if x \<in> set xs then None else hm_get t x)"
    using sqlite_delete_succeed [OF fine wf, of 0 xs x] by (auto simp: sqlite_destroy_items_def)
qed

lemma engine_wf:
  assumes "hm_wf t"
  shows "hm_wf (snd (save_items e D vs t))" and "hm_wf (snd (save_states e D ss t))"
  using assms by (cases e; simp add: pg.items_wf pg.states_wf sqlite.items_wf sqlite.states_wf)+

lemma engine_saved_rows:
  assumes "\<forall>n. de_sql D n" and "hm_wf t" and "distinct (map fst vs)" and "distinct (map fst ss)"
    and "fst ` set ss = fst ` set vs"
    and "\<forall>(x, v) \<in> set vs. is_ok (de_cfg D v)" and "\<forall>(x, s) \<in> set ss. is_ok (de_state D s)"
  shows "hm_get (snd (save_states e D ss (snd (save_items e D vs t)))) x =
    (case (map_of vs x, map_of ss x) of
       (Some v, Some s) \<Rightarrow> Some \<lparr>rw_cfg = projr (de_cfg D v), rw_state = Some (projr (de_state D s))\<rparr>
     | _ \<Rightarrow> hm_get t x)"
  using pg.saved_rows [OF assms] sqlite.saved_rows [OF assms] by (cases e) simp_all

lemma engine_states_get:
  assumes "\<forall>n. de_sql D n" and "hm_wf t" and "distinct (map fst ss)"
  shows "hm_get (snd (save_states e D ss t)) x =
      map_option (\<lambda>r. case map_of ss x of Some s \<Rightarrow> (case de_state D s of Inr v \<Rightarrow> r\<lparr>rw_state := Some v\<rparr> | Inl _ \<Rightarrow> r)
                      | None \<Rightarrow> r) (hm_get t x)"
  using pg.states_get [OF assms] sqlite.states_get [OF assms] by (cases e) simp_all

subsection \<open>Loading brings the items back\<close>

text \<open>The item a valid record becomes; a unit is idle after a start.\<close>

definition loaded_state :: "oid \<Rightarrow> item_state \<Rightarrow> item_state" where
  "loaded_state x st = (if oid_kind x = KUnit then st\<lparr>st_act := Some 0\<rparr> else st)"

definition load_ok :: "inventory \<times> heap \<Rightarrow> bool" where
  "load_ok s \<longleftrightarrow> inv_lookup_ok (fst s) \<and> cells_ok (fst s) (snd s)"

definition load_state :: "inventory \<times> heap \<Rightarrow> oid \<Rightarrow> (item \<times> item_state option) option" where
  "load_state s x = map_option (\<lambda>i. (i, item_state_of (snd s) i)) (inv_get_item (fst s) x)"

lemma append_arc:
  assumes ok: "load_ok (iv, h)" and "arc_item d h = (i, h')" and "inv_append_item i True iv = (r, iv')"
  shows "load_ok (iv', h')" and "r = Inr i" and "it_oid i = id_oid d"
    and "load_state (iv', h') y = (if y = id_oid d then Some (i, id_state d) else load_state (iv, h) y)"
proof -
  have i: "i = fst (arc_item d h)" "h' = snd (arc_item d h)" using assms(2) by simp_all
  have cell: "it_cell i = hp_next h" "hp_next h' = Suc (hp_next h)" "it_oid i = id_oid d"
    by (simp_all add: i arc_item_def)
  have lk: "inv_lookup_ok iv" "cells_ok iv h" using ok by (simp_all add: load_ok_def)
  have r: "fst (inv_append_item i True iv) = Inr i" using inv_append_result [OF lk(1), of i True] by simp
  then show "r = Inr i" using assms(3) by simp
  show "it_oid i = id_oid d" by (rule cell(3))
  have iv': "iv' = snd (inv_append_item i True iv)" using assms(3) by simp
  show "load_ok (iv', h')"
    using inv_append_lookup_ok [OF lk(1)] cells_ok_append [OF lk cell(1,2)] by (simp add: load_ok_def iv')
  have old: "item_state_of h' j = item_state_of h j" if "inv_get_item iv y = Some j" for j
    using cells_okD(1) [OF lk(2) that] by (simp add: i item_state_of_arc)
  show "load_state (iv', h') y = (if y = id_oid d then Some (i, id_state d) else load_state (iv, h) y)"
    using inv_append_get(2) [OF lk(1) r, of y] old cell(3)
    by (cases "inv_get_item iv y") (auto simp: load_state_def iv' i item_state_of_arc)
qed

lemma db_append_item_effect:
  assumes "load_ok s" and "db_append_item V n x raw s = (r, s')"
  shows "load_ok s'" and "y \<noteq> x \<Longrightarrow> load_state s' y = load_state s y"
    and "le_cfg V (rw_cfg raw) = Inr d \<Longrightarrow> id_oid d = x \<Longrightarrow> check_item_data d = Inr () \<Longrightarrow>
      rw_state raw = Some tx \<Longrightarrow> le_state V tx = Inr st \<Longrightarrow>
      \<exists>i. load_state s' x = Some (i, Some (loaded_state x st)) \<and> it_meta i = id_meta d \<and> it_logic i = id_logic d \<and>
        it_action i = id_action d"
proof -
  obtain iv h where s: "s = (iv, h)" by (cases s)
  have eff: "load_ok (iv', h') \<and> (y \<noteq> x \<longrightarrow> load_state (iv', h') y = load_state (iv, h) y)"
    if ap: "append_item_from_value x data state b ns now iv h = (q, iv', h')" for data state b ns now q iv' h'
  proof (cases data)
    case (Inl e)
    then show ?thesis using that assms(1) s by (simp add: append_item_from_value_def)
  next
    case (Inr d)
    show ?thesis
    proof (cases "id_oid d = x \<and> check_item_data d = Inr ()")
      case False
      then show ?thesis
        using that Inr assms(1) s by (auto simp: append_item_from_value_def split: if_splits sum.splits)
    next
      case True
      define d' where "d' = (case state of
          Some st \<Rightarrow> d\<lparr>id_state := Some (if oid_kind (id_oid d) = KUnit then st\<lparr>st_act := Some 0\<rparr> else st)\<rparr>
        | None \<Rightarrow> if id_state d = None \<and> oid_kind (id_oid d) \<noteq> KLmacro
            then d\<lparr>id_state := Some (state_new0 (ieid_generate b ns) (oid_kind (id_oid d)) now)\<rparr> else d)"
      obtain i h1 where a: "arc_item d' h = (i, h1)" by fastforce
      obtain q1 iv1 where q: "inv_append_item i True iv = (q1, iv1)" by fastforce
      have "append_item_from_value x data state b ns now iv h = (q1, iv1, h1)"
        using True a q by (cases state) (auto simp: append_item_from_value_def Inr d'_def)
      moreover have "id_oid d' = x" using True by (simp add: d'_def split: option.split)
      ultimately show ?thesis using append_arc(1) [OF _ a q] append_arc(4) [OF _ a q, of y] ap assms(1) s by simp
    qed
  qed
  have "load_ok s1 \<and> (y \<noteq> x \<longrightarrow> load_state s1 y = load_state (iv, h) y)"
    if "append_item_from_value x data state b ns now iv h = (q, s1)" for data state b ns now q s1
    using eff [of data state b ns now q "fst s1" "snd s1"] that by simp
  then show "load_ok s'" "y \<noteq> x \<Longrightarrow> load_state s' y = load_state s y"
    using assms s by (auto simp: db_append_item_def split: sum.splits prod.splits option.splits)
  show "\<exists>i. load_state s' x = Some (i, Some (loaded_state x st)) \<and> it_meta i = id_meta d \<and> it_logic i = id_logic d \<and>
        it_action i = id_action d"
    if d: "le_cfg V (rw_cfg raw) = Inr d" "id_oid d = x" "check_item_data d = Inr ()"
      and st: "rw_state raw = Some tx" "le_state V tx = Inr st"
  proof -
    let ?d = "d\<lparr>id_state := Some (loaded_state x st)\<rparr>"
    obtain i h' where a: "arc_item ?d h = (i, h')" by fastforce
    obtain q iv' where q: "inv_append_item i True iv = (q, iv')" by fastforce
    have s': "s' = (iv', h')"
      using assms(2) s d st a q by (simp add: db_append_item_def append_item_from_value_def loaded_state_def Let_def)
    have "it_meta i = id_meta d \<and> it_logic i = id_logic d \<and> it_action i = id_action d"
      using a by (auto simp: arc_item_def)
    then show ?thesis using append_arc(4) [of iv h ?d i h' q iv' x] assms(1) a q d(2) s s' by simp
  qed
qed

lemma db_load_other:
  assumes "load_ok s" and "x \<notin> fst ` set t"
  shows "load_ok (db_load V n t s) \<and> load_state (db_load V n t s) x = load_state s x"
  using assms
proof (induction t arbitrary: n s)
  case (Cons p t)
  obtain y raw r s' where p: "p = (y, raw)" and a: "db_append_item V n y raw s = (r, s')" by (metis prod.exhaust)
  have "load_ok s'" "load_state s' x = load_state s x"
    using db_append_item_effect(1,2) [OF Cons.prems(1) a] Cons.prems(2) p by auto
  then show ?case using Cons.IH [of s' "Suc n"] Cons.prems(2) p a by simp
qed simp

lemma db_load_row:
  assumes "load_ok s" and "hm_wf t" and "hm_get t x = Some \<lparr>rw_cfg = cfg, rw_state = Some tx\<rparr>"
    and "le_cfg V cfg = Inr d" "id_oid d = x" "check_item_data d = Inr ()" "le_state V tx = Inr st"
  shows "\<exists>i. load_state (db_load V n t s) x = Some (i, Some (loaded_state x st)) \<and> it_meta i = id_meta d \<and>
    it_logic i = id_logic d \<and> it_action i = id_action d"
  using assms(1-3)
proof (induction t arbitrary: n s)
  case (Cons p t)
  obtain y raw r s' where p: "p = (y, raw)" and a: "db_append_item V n y raw s = (r, s')" by (metis prod.exhaust)
  note eff = db_append_item_effect [OF Cons.prems(1) a]
  show ?case
  proof (cases "y = x")
    case True
    then have raw: "raw = \<lparr>rw_cfg = cfg, rw_state = Some tx\<rparr>" using Cons.prems(3) p by (simp add: hm_get_def)
    have "x \<notin> fst ` set t" using Cons.prems(2) p True by (simp add: hm_wf_def)
    then show ?thesis
      using eff(3) [of d tx st] db_load_other [OF eff(1), of x t V "Suc n"] assms(4-7) raw p a True by auto
  next
    case False
    then show ?thesis using Cons.IH [OF eff(1)] Cons.prems(2,3) p a by (simp add: hm_wf_def hm_get_def)
  qed
qed (simp add: hm_get_def)

subsection \<open>Properties\<close>


text \<open>Serializers for evaluation, of one configuration and one state.\<close>

definition wit_db :: db_env where
  "wit_db = \<lparr>de_cfg = (\<lambda>_. Inr ''cfg''), de_state = (\<lambda>_. Inr ''state''), de_sql = (\<lambda>_. True)\<rparr>"

definition wit_load :: load_env where
  "wit_load = \<lparr>le_cfg = (\<lambda>_. Inr \<lparr>id_oid = OID KUnit ''u'', id_state = None, id_meta = None, id_source = None, id_enabled = True,
       id_logic = None, id_action = None\<rparr>),
     le_state = (\<lambda>_. Inr (state_new 1 (VU8 7) (Some 3) (IEID 1 5) (Fin 2))), le_boot_id = 3, le_ns = (\<lambda>_. 1), le_now = (\<lambda>_. Fin 1)\<rparr>"

definition wit_dbs :: db_state where
  "wit_dbs = \<lparr>dbs_status = 1, dbs_value = VU8 7, dbs_ieid = IEID 1 5, dbs_t = Fin 2\<rparr>"

lemma wit_load_ok: "load_ok (inv_new, wit_heap)"
  using inv_okD(1) [OF inv_new_ok] by (simp add: load_ok_def)


text \<open>
  C19: the engines agree. For configurations and states of the same items, each named once, that can be
  serialized, and when no statement fails, both engines hold the same rows afterwards: exactly the saved
  ones for these items and the previous ones for all others, however the list is cut
  into chunks.
\<close>

theorem engines_agree:
  assumes "\<forall>n. de_sql D n" and "hm_wf t" and "distinct (map fst vs)" and "distinct (map fst ss)"
    and "fst ` set ss = fst ` set vs"
    and "\<forall>(x, v) \<in> set vs. is_ok (de_cfg D v)" and "\<forall>(x, s) \<in> set ss. is_ok (de_state D s)"
  shows "hm_get (snd (save_states Postgres D ss (snd (save_items Postgres D vs t)))) x =
      hm_get (snd (save_states Sqlite D ss (snd (save_items Sqlite D vs t)))) x \<and>
    hm_get (snd (save_states Sqlite D ss (snd (save_items Sqlite D vs t)))) x =
      (case (map_of vs x, map_of ss x) of
         (Some v, Some s) \<Rightarrow> Some \<lparr>rw_cfg = projr (de_cfg D v), rw_state = Some (projr (de_state D s))\<rparr>
       | _ \<Rightarrow> hm_get t x)"
  using engine_saved_rows [OF assms, of Postgres x] engine_saved_rows [OF assms, of Sqlite x] by simp

theorem engines_agree_witness:
  "hm_get (snd (save_states Sqlite wit_db [(OID KUnit ''u'', wit_dbs)] (snd (save_items Sqlite wit_db [(OID KUnit ''u'', VUnit)] []))))
     (OID KUnit ''u'') = Some \<lparr>rw_cfg = ''cfg'', rw_state = Some ''state''\<rparr>"
  using engines_agree [of wit_db "[]" "[(OID KUnit ''u'', VUnit)]" "[(OID KUnit ''u'', wit_dbs)]" "OID KUnit ''u''"]
  by (simp add: wit_db_def)

text \<open>
  Saving the configuration of an item again, as enabling and disabling do, keeps its stored state with
  PostgreSQL and erases it with SQLite, which replaces the whole row.
\<close>

theorem sqlite_forgets_state:
  assumes "\<forall>n. de_sql D n" and "hm_wf t" and "hm_get t x = Some r" and "de_cfg D v = Inr cfg"
  shows "hm_get (snd (save_items Postgres D [(x, v)] t)) x = Some (r\<lparr>rw_cfg := cfg\<rparr>) \<and>
    hm_get (snd (save_items Sqlite D [(x, v)] t)) x = Some \<lparr>rw_cfg = cfg, rw_state = None\<rparr>"
proof -
  have "snd (sqlite_save_items D [(x, v)] t) = sql_replace x cfg t"
    using sqlite_items_succeed [OF assms(1), of "[(x, v)]" t] assms(4) by simp
  then show ?thesis
    using pg.resaved_row [OF assms(1-4)] replace_get(1) [OF assms(2), of x cfg x] by simp
qed

theorem sqlite_forgets_state_witness:
  "hm_get (snd (save_items Sqlite wit_db [(OID KUnit ''u'', VUnit)] [(OID KUnit ''u'', \<lparr>rw_cfg = ''cfg'', rw_state = Some ''state''\<rparr>)]))
     (OID KUnit ''u'') = Some \<lparr>rw_cfg = ''cfg'', rw_state = None\<rparr>"
  using sqlite_forgets_state [of wit_db "[(OID KUnit ''u'', \<lparr>rw_cfg = ''cfg'', rw_state = Some ''state''\<rparr>)]" "OID KUnit ''u''"
      "\<lparr>rw_cfg = ''cfg'', rw_state = Some ''state''\<rparr>" VUnit "''cfg''"]
  by (simp add: wit_db_def hm_wf_def hm_get_def)

text \<open>
  C21: a round of the worker writes, for every item with a record, the last state that was pushed for it before
  the buffer was taken, and leaves the other records alone; states pushed during the round are in
  the buffer for the next one. If there were none, the database is idle afterwards, and a
  shutdown that was waiting during the round ends.
\<close>

definition push_all :: "(oid \<times> db_state) list \<Rightarrow> database \<Rightarrow> database" where
  "push_all ps d = fold (\<lambda>(x, s) d. db_push_state x s d) ps d"

lemma push_all_fields:
  "db_table (push_all ps d) = db_table d" "db_engine (push_all ps d) = db_engine d" "db_busy (push_all ps d) = db_busy d"
  by (induction ps arbitrary: d) (auto simp: push_all_def db_push_state_def)

lemma push_all_buf:
  assumes "hm_wf (db_state_buf d)"
  shows "hm_wf (db_state_buf (push_all ps d))" and
    "hm_get (db_state_buf (push_all ps d)) x =
      (case map_of (rev ps) x of Some s \<Rightarrow> Some s | None \<Rightarrow> hm_get (db_state_buf d) x)"
proof -
  have "hm_wf (db_state_buf (push_all ps d)) \<and> hm_get (db_state_buf (push_all ps d)) x =
      (case map_of (rev ps) x of Some s \<Rightarrow> Some s | None \<Rightarrow> hm_get (db_state_buf d) x)"
    using assms
  proof (induction ps arbitrary: d)
    case (Cons p ps)
    obtain y s where p: "p = (y, s)" by (cases p)
    have "push_all (p # ps) d = push_all ps (db_push_state y s d)" by (simp add: push_all_def p)
    then show ?case
      using Cons.IH [of "db_push_state y s d"] Cons.prems p
      by (auto simp: db_push_state_def hm_laws map_add_def split: option.split)
  qed (simp add: push_all_def)
  then show "hm_wf (db_state_buf (push_all ps d))" and "hm_get (db_state_buf (push_all ps d)) x =
      (case map_of (rev ps) x of Some s \<Rightarrow> Some s | None \<Rightarrow> hm_get (db_state_buf d) x)" by blast+
qed

theorem flush_writes_last_states:
  assumes "\<forall>n. de_sql D n" and "hm_wf (db_table d)" and "db_state_buf d = []"
    and "db_take (push_all ps d) = (states, d1)" and "d2 = db_flush D states (push_all qs d1)"
  shows "hm_get (db_table d2) x =
      map_option (\<lambda>r. case map_of (rev ps) x of
          Some s \<Rightarrow> (case de_state D s of Inr v \<Rightarrow> r\<lparr>rw_state := Some v\<rparr> | Inl _ \<Rightarrow> r)
        | None \<Rightarrow> r) (hm_get (db_table d) x) \<and>
    hm_get (db_state_buf d2) x = map_of (rev qs) x \<and> (qs = [] \<longrightarrow> \<not> db_is_busy d2 \<and> db_shutdown [db_flush D states] d1 = Some d2)"
proof -
  have s: "states = db_state_buf (push_all ps d)" and d1: "d1 = (push_all ps d)\<lparr>db_state_buf := [], db_busy := True\<rparr>"
    using assms(4) by (simp_all add: db_take_def)
  have wf: "hm_wf states" "\<And>y. hm_get states y = map_of (rev ps) y"
    using push_all_buf [of d ps] assms(3) by (simp_all add: s split: option.split)
  have t: "db_table (push_all qs d1) = db_table d" "db_engine (push_all qs d1) = db_engine d"
    by (simp_all add: push_all_fields d1)
  have "hm_get (db_table d2) x = hm_get (snd (save_states (db_engine d) D states (db_table d))) x"
    using assms(5) t engine_states_get [of D "db_table d" "[]" "db_engine d" x] assms(1,2)
    by (auto simp: db_flush_def Let_def option.map_ident)
  moreover have "distinct (map fst states)" "map_of states x = map_of (rev ps) x"
    using wf by (simp_all add: hm_wf_def hm_get_def)
  ultimately have "hm_get (db_table d2) x =
      map_option (\<lambda>r. case map_of (rev ps) x of
          Some s \<Rightarrow> (case de_state D s of Inr v \<Rightarrow> r\<lparr>rw_state := Some v\<rparr> | Inl _ \<Rightarrow> r)
        | None \<Rightarrow> r) (hm_get (db_table d) x)"
    using engine_states_get [of D "db_table d" states "db_engine d" x] assms(1,2) by simp
  moreover have "hm_get (db_state_buf d2) x = map_of (rev qs) x"
    using push_all_buf(2) [of d1 qs x] assms(5) by (simp add: d1 db_flush_def Let_def split: option.split)
  moreover have "\<not> db_is_busy d2 \<and> db_shutdown [db_flush D states] d1 = Some d2" if "qs = []"
    using that assms(5) by (simp add: db_is_busy_def db_flush_def d1 push_all_def Let_def)
  ultimately show ?thesis by blast
qed

theorem flush_writes_last_states_witness:
  "let d = \<lparr>db_engine = Sqlite, db_table = [(OID KUnit ''u'', \<lparr>rw_cfg = ''cfg'', rw_state = None\<rparr>)], db_state_buf = [], db_busy = False\<rparr>;
       (states, d1) = db_take (push_all [(OID KUnit ''u'', wit_dbs)] d)
   in hm_get (db_table (db_flush wit_db states (push_all [] d1))) (OID KUnit ''u'') = Some \<lparr>rw_cfg = ''cfg'', rw_state = Some ''state''\<rparr>"
proof -
  let ?d = "\<lparr>db_engine = Sqlite, db_table = [(OID KUnit ''u'', \<lparr>rw_cfg = ''cfg'', rw_state = None\<rparr>)], db_state_buf = [], db_busy = False\<rparr>"
  obtain states d1 where t: "db_take (push_all [(OID KUnit ''u'', wit_dbs)] ?d) = (states, d1)" by fastforce
  from flush_writes_last_states [OF _ _ _ t refl, of wit_db "[]" "OID KUnit ''u''"] show ?thesis
    using t by (simp add: wit_db_def hm_wf_def hm_get_def)
qed

end
