(* ===== verification/Svc_Common.thy ===== *)
theory Svc_Common
  imports Eva_Types "HOL-Library.List_Lexorder" "HOL-Library.Char_ord"
begin

text \<open>
  What the models of the services share: the character classes of the standard library, for the
  code points a \<open>char\<close> stands for (up to U+00FF), the payload of a call and its answer. A
  payload comes as it is unpacked: absent, malformed, or the parameters of the call.
\<close>

subsection \<open>Character classes\<close>

definition code :: "char \<Rightarrow> nat" where
  "code c = of_char c"

text \<open>\<open>char::is_uppercase\<close>, \<open>is_lowercase\<close>, \<open>is_alphabetic\<close>, \<open>is_numeric\<close>, \<open>is_alphanumeric\<close>\<close>

definition is_uppercase :: "char \<Rightarrow> bool" where
  "is_uppercase c \<longleftrightarrow>
     0x41 \<le> code c \<and> code c \<le> 0x5A \<or> 0xC0 \<le> code c \<and> code c \<le> 0xDE \<and> code c \<noteq> 0xD7"

definition is_lowercase :: "char \<Rightarrow> bool" where
  "is_lowercase c \<longleftrightarrow>
     0x61 \<le> code c \<and> code c \<le> 0x7A \<or> code c = 0xAA \<or> code c = 0xB5 \<or> code c = 0xBA \<or>
     0xDF \<le> code c \<and> code c \<noteq> 0xF7"

definition is_alphabetic :: "char \<Rightarrow> bool" where
  "is_alphabetic c \<longleftrightarrow> is_uppercase c \<or> is_lowercase c"

definition is_numeric :: "char \<Rightarrow> bool" where
  "is_numeric c \<longleftrightarrow>
     0x30 \<le> code c \<and> code c \<le> 0x39 \<or> code c = 0xB2 \<or> code c = 0xB3 \<or> code c = 0xB9 \<or>
     0xBC \<le> code c \<and> code c \<le> 0xBE"

definition is_alphanumeric :: "char \<Rightarrow> bool" where
  "is_alphanumeric c \<longleftrightarrow> is_alphabetic c \<or> is_numeric c"

lemmas char_class_defs = is_uppercase_def is_lowercase_def is_alphabetic_def is_numeric_def is_alphanumeric_def code_def

lemma case_excl: "is_uppercase c \<Longrightarrow> \<not> is_lowercase c"
  by (auto simp: char_class_defs)

subsection \<open>Calls\<close>

datatype 'p payload = NoPayload | Payload "'p result"

datatype call_error = CE_Params | CE_NotReady | CE_Error error

type_synonym 'r answer = "call_error + 'r"

text \<open>A call that takes parameters, and one that takes none.\<close>

definition with_params :: "'p payload \<Rightarrow> 's \<Rightarrow> ('p \<Rightarrow> 'r answer \<times> 's) \<Rightarrow> 'r answer \<times> 's" where
  "with_params p s k =
     (case p of
        NoPayload \<Rightarrow> (Inl CE_Params, s)
      | Payload (Inl e) \<Rightarrow> (Inl (CE_Error e), s)
      | Payload (Inr v) \<Rightarrow> k v)"

definition without_params :: "'p payload \<Rightarrow> 's \<Rightarrow> (unit \<Rightarrow> 'r answer \<times> 's) \<Rightarrow> 'r answer \<times> 's" where
  "without_params p s k = (case p of NoPayload \<Rightarrow> k () | Payload _ \<Rightarrow> (Inl CE_Params, s))"

end
