(* ===== verification/Svc_Store.thy ===== *)
theory Svc_Store
  imports Svc_Common
begin

text \<open>
  What the access list service and the local authentication service do alike with their objects (\<open>svc/aaa-acl\<close>,
  \<open>svc/aaa-localauth\<close>): they hold them in memory, by identifier, and in their part of the registry under a
  prefix. The deployment of objects, their removal and their export are the same code for access lists and
  users; they are defined once, for any object with an identifier \<open>oid\<close> and a serialization \<open>ser\<close>. Which
  registry calls fail is an argument. \<open>synced\<close> says that the registry holds the objects in memory.
\<close>

subsection \<open>The registry\<close>

record registry =
  rg_store :: "(string, eva_value) hmap"
  rg_calls :: nat
  rg_tx :: "(string \<times> eva_value option) list"

text \<open>\<open>key_set\<close> and \<open>key_delete\<close>: the outcome of the \<open>n\<close>-th call is \<open>F n\<close>.\<close>

definition reg_put :: "(nat \<Rightarrow> unit result) \<Rightarrow> string \<Rightarrow> eva_value option \<Rightarrow> registry \<Rightarrow> unit result \<times> registry" where
  "reg_put F key val g =
     (let g1 = g\<lparr>rg_calls := Suc (rg_calls g)\<rparr>
      in case F (rg_calls g) of
           Inl e \<Rightarrow> (Inl e, g1)
         | Inr _ \<Rightarrow>
             (Inr (), g1\<lparr>rg_store := (case val of Some v \<Rightarrow> hm_insert key v (rg_store g1) | None \<Rightarrow> hm_remove key (rg_store g1))\<rparr>))"

text \<open>The messages about changed objects, which another task publishes.\<close>

definition reg_send :: "string \<Rightarrow> eva_value option \<Rightarrow> registry \<Rightarrow> registry" where
  "reg_send topic val g = g\<lparr>rg_tx := rg_tx g @ [(topic, val)]\<rparr>"

text \<open>A loop of calls, each followed by its message; the first failure ends it.\<close>

fun reg_calls ::
    "(nat \<Rightarrow> unit result) \<Rightarrow> string \<Rightarrow> string \<Rightarrow> (string \<times> eva_value option) list \<Rightarrow> registry \<Rightarrow> unit result \<times> registry" where
  "reg_calls F prefix topic [] g = (Inr (), g)"
| "reg_calls F prefix topic ((key, val) # rest) g =
     (case reg_put F (prefix @ key) val g of
        (Inl e, g1) \<Rightarrow> (Inl e, g1)
      | (Inr _, g1) \<Rightarrow> reg_calls F prefix topic rest (reg_send (topic @ key) val g1))"

text \<open>\<open>key_get_recursive\<close>: the entries under a prefix, with their keys relative to it.\<close>

definition reg_list :: "string \<Rightarrow> registry \<Rightarrow> (string \<times> eva_value) list" where
  "reg_list prefix g =
     map (\<lambda>(k, v). (drop (length prefix) k, v)) (filter (\<lambda>(k, v). str_starts_with k prefix) (rg_store g))"

subsection \<open>Objects\<close>

definition ID_ALLOWED_SYMBOLS :: string where
  "ID_ALLOWED_SYMBOLS = ''_.()[]-'' @ [CHR 0x5C]"

definition valid_id :: "string \<Rightarrow> bool" where
  "valid_id i \<longleftrightarrow> list_all (\<lambda>c. is_alphanumeric c \<or> c \<in> set ID_ALLOWED_SYMBOLS \<or> c = CHR ''/'') i"

fun deploy_objects ::
    "('o \<Rightarrow> eva_value result) \<Rightarrow> ('o \<Rightarrow> string) \<Rightarrow> 'o list \<Rightarrow> (string, 'o) hmap \<Rightarrow>
     (string \<times> eva_value option) list result \<times> (string, 'o) hmap" where
  "deploy_objects ser oid [] objs = (Inr [], objs)"
| "deploy_objects ser oid (a # new) objs =
     (case ser a of
        Inl e \<Rightarrow> (Inl e, objs)
      | Inr v \<Rightarrow>
          (case deploy_objects ser oid new (hm_insert (oid a) a objs) of
             (Inl e, m) \<Rightarrow> (Inl e, m)
           | (Inr keys, m) \<Rightarrow> (Inr ((oid a, Some v) # keys), m)))"

fun undeploy_objects :: "('o \<Rightarrow> string) \<Rightarrow> string list \<Rightarrow> (string, 'o) hmap \<Rightarrow> string list \<times> (string, 'o) hmap" where
  "undeploy_objects oid [] objs = ([], objs)"
| "undeploy_objects oid (x # xs) objs =
     (case hm_get objs x of
        Some a \<Rightarrow> (let (ids, m) = undeploy_objects oid xs (hm_remove x objs) in (oid a # ids, m))
      | None \<Rightarrow> undeploy_objects oid xs objs)"

definition list_objects :: "('o \<Rightarrow> string) \<Rightarrow> (string, 'o) hmap \<Rightarrow> 'o list" where
  "list_objects oid objs = sort_key oid (hm_values objs)"

definition export_objects :: "('o \<Rightarrow> string) \<Rightarrow> string \<Rightarrow> (string, 'o) hmap \<Rightarrow> 'o list answer" where
  "export_objects oid i objs =
     (if i = ''#'' \<or> i = ''*'' then Inr (list_objects oid objs)
      else (case hm_get objs i of Some a \<Rightarrow> Inr [a] | None \<Rightarrow> Inl (CE_Error ENotFound)))"

definition get_object :: "string \<Rightarrow> (string, 'o) hmap \<Rightarrow> 'o answer" where
  "get_object i objs = (case hm_get objs i of Some a \<Rightarrow> Inr a | None \<Rightarrow> Inl (CE_Error ENotFound))"

subsection \<open>Memory and registry\<close>

definition reg_apply :: "string \<Rightarrow> (string \<times> eva_value option) list \<Rightarrow> (string, eva_value) hmap \<Rightarrow> (string, eva_value) hmap" where
  "reg_apply prefix keys store =
     fold (\<lambda>(k, v) r. case v of Some w \<Rightarrow> hm_insert (prefix @ k) w r | None \<Rightarrow> hm_remove (prefix @ k) r) keys store"

lemma reg_calls_effect:
  assumes "\<forall>n. F n = Inr ()"
  shows "fst (reg_calls F prefix topic keys g) = Inr ()"
    and "rg_store (snd (reg_calls F prefix topic keys g)) = reg_apply prefix keys (rg_store g)"
proof -
  have "fst (reg_calls F prefix topic keys g) = Inr () \<and>
      rg_store (snd (reg_calls F prefix topic keys g)) = reg_apply prefix keys (rg_store g)"
  proof (induction keys arbitrary: g)
    case (Cons p keys)
    then show ?case
      using assms by (cases p) (simp add: reg_put_def reg_send_def reg_apply_def Let_def split: option.split)
  qed (simp add: reg_apply_def)
  then show "fst (reg_calls F prefix topic keys g) = Inr ()"
    and "rg_store (snd (reg_calls F prefix topic keys g)) = reg_apply prefix keys (rg_store g)" by auto
qed

lemma reg_put_effect:
  assumes "\<forall>n. F n = Inr ()"
  shows "fst (reg_put F key val g) = Inr ()" and
    "rg_store (snd (reg_put F key val g)) =
      (case val of Some v \<Rightarrow> hm_insert key v (rg_store g) | None \<Rightarrow> hm_remove key (rg_store g))"
  using assms by (simp_all add: reg_put_def Let_def split: option.split)

lemma reg_apply_wf: "hm_wf store \<Longrightarrow> hm_wf (reg_apply prefix keys store)"
  by (induction keys arbitrary: store) (auto simp: reg_apply_def hm_laws split: option.split)

text \<open>Calls under one prefix leave the keys under another as they are.\<close>

lemma reg_apply_other:
  assumes "\<forall>k. prefix @ k \<noteq> key" and "hm_wf store"
  shows "hm_get (reg_apply prefix keys store) key = hm_get store key"
  using assms(2)
proof (induction keys arbitrary: store)
  case (Cons p keys)
  obtain k v where p: "p = (k, v)" by (cases p)
  let ?s = "case v of Some w \<Rightarrow> hm_insert (prefix @ k) w store | None \<Rightarrow> hm_remove (prefix @ k) store"
  have "hm_wf ?s" "hm_get ?s key = hm_get store key" using Cons.prems assms(1) by (auto simp: hm_laws split: option.split)
  moreover have "reg_apply prefix (p # keys) store = reg_apply prefix keys ?s" by (simp add: reg_apply_def p)
  ultimately show ?case using Cons.IH by simp
qed (simp add: reg_apply_def)

lemma reg_list_get:
  assumes "hm_wf (rg_store g)"
  shows "hm_wf (reg_list prefix g)" and "hm_get (reg_list prefix g) k = hm_get (rg_store g) (prefix @ k)"
proof -
  let ?f = "\<lambda>k v. str_starts_with k prefix"
  have inj: "inj_on (drop (length prefix)) {k. str_starts_with k prefix}"
    by (rule inj_onI) (metis append_take_drop_id mem_Collect_eq str_starts_with_def)
  have wf: "hm_wf (hm_retain ?f (rg_store g))" using assms by simp
  let ?K = "map fst (hm_retain ?f (rg_store g))"
  have "map fst (reg_list prefix g) = map (drop (length prefix)) ?K"
    by (simp add: reg_list_def hm_retain_def comp_def case_prod_unfold)
  moreover have "distinct ?K" using wf by (simp only: hm_wf_def)
  moreover have "inj_on (drop (length prefix)) (set ?K)" by (rule inj_on_subset [OF inj]) (auto simp: hm_retain_def)
  ultimately show l: "hm_wf (reg_list prefix g)" by (metis distinct_map hm_wf_def)
  have "(k, v) \<in> set (reg_list prefix g) \<longleftrightarrow> (prefix @ k, v) \<in> set (rg_store g)" for v
  proof
    assume "(k, v) \<in> set (reg_list prefix g)"
    then obtain k' where "(k', v) \<in> set (rg_store g)" "take (length prefix) k' = prefix" "k = drop (length prefix) k'"
      by (auto simp: reg_list_def str_starts_with_def)
    then show "(prefix @ k, v) \<in> set (rg_store g)" by (metis append_take_drop_id)
  next
    assume "(prefix @ k, v) \<in> set (rg_store g)"
    then show "(k, v) \<in> set (reg_list prefix g)"
      by (auto simp: reg_list_def str_starts_with_def intro!: rev_image_eqI [of "(prefix @ k, v)"])
  qed
  then have "hm_get (reg_list prefix g) k = Some v \<longleftrightarrow> hm_get (rg_store g) (prefix @ k) = Some v" for v
    using hm.entries_get [OF l] hm.entries_get [OF assms] by simp
  then show "hm_get (reg_list prefix g) k = hm_get (rg_store g) (prefix @ k)" by (metis option.exhaust)
qed

text \<open>
  The registry holds, under the prefix, the serialized form of exactly the objects in memory, and every object
  is stored under its identifier.
\<close>

definition synced ::
    "string \<Rightarrow> ('o \<Rightarrow> string) \<Rightarrow> ('o \<Rightarrow> eva_value result) \<Rightarrow> (string, 'o) hmap \<Rightarrow> (string, eva_value) hmap \<Rightarrow> bool" where
  "synced prefix oid ser objs store \<longleftrightarrow> hm_wf objs \<and> hm_wf store \<and> (\<forall>k a. hm_get objs k = Some a \<longrightarrow> oid a = k) \<and>
     (\<forall>k. map_option ser (hm_get objs k) = map_option Inr (hm_get store (prefix @ k)))"

lemma syncedD:
  assumes "synced prefix oid ser objs store"
  shows "hm_wf objs" "hm_wf store" "hm_get objs k = Some a \<Longrightarrow> oid a = k"
    "map_option ser (hm_get objs k) = map_option Inr (hm_get store (prefix @ k))"
  using assms by (simp_all add: synced_def)

lemma synced_empty: "synced prefix oid ser [] []"
  by (simp add: synced_def)

lemma synced_insert:
  assumes "synced prefix oid ser objs store" and "ser a = Inr v"
  shows "synced prefix oid ser (hm_insert (oid a) a objs) (hm_insert (prefix @ oid a) v store)"
  using assms by (auto simp: synced_def hm_laws split: if_splits)

lemma synced_remove:
  assumes "synced prefix oid ser objs store"
  shows "synced prefix oid ser (hm_remove k objs) (hm_remove (prefix @ k) store)"
  using assms by (auto simp: synced_def hm_laws split: if_splits)

text \<open>Changes under another prefix do not matter.\<close>

lemma synced_other:
  assumes "synced prefix oid ser objs store" and "hm_wf store'" and "\<And>k. hm_get store' (prefix @ k) = hm_get store (prefix @ k)"
  shows "synced prefix oid ser objs store'"
  using assms by (simp add: synced_def)

lemma deploy_synced:
  assumes "\<forall>a \<in> set new. is_ok (ser a)" and "synced prefix oid ser objs store"
  shows "\<exists>keys m. deploy_objects ser oid new objs = (Inr keys, m) \<and> synced prefix oid ser m (reg_apply prefix keys store) \<and>
    (\<forall>k. hm_get m k = (case map_of (rev (map (\<lambda>a. (oid a, a)) new)) k of Some a \<Rightarrow> Some a | None \<Rightarrow> hm_get objs k))"
  using assms
proof (induction new arbitrary: objs store)
  case (Cons a new)
  obtain v where v: "ser a = Inr v" using Cons.prems(1) by (cases "ser a") auto
  from Cons.IH [OF _ synced_insert [OF Cons.prems(2) v]] Cons.prems(1) obtain keys m where
    m: "deploy_objects ser oid new (hm_insert (oid a) a objs) = (Inr keys, m)"
      "synced prefix oid ser m (reg_apply prefix keys (hm_insert (prefix @ oid a) v store))"
      "\<forall>k. hm_get m k = (case map_of (rev (map (\<lambda>a. (oid a, a)) new)) k of Some b \<Rightarrow> Some b
        | None \<Rightarrow> hm_get (hm_insert (oid a) a objs) k)" by auto
  show ?case using m v syncedD(1) [OF Cons.prems(2)] by (auto simp: reg_apply_def hm_laws map_add_def split: option.split)
qed (simp add: reg_apply_def)

lemma undeploy_synced:
  assumes "synced prefix oid ser objs store" and "undeploy_objects oid xs objs = (ids, m)"
  shows "synced prefix oid ser m (reg_apply prefix (map (\<lambda>i. (i, None)) ids) store) \<and>
    (\<forall>k. hm_get m k = (if k \<in> set xs then None else hm_get objs k))"
  using assms
proof (induction xs arbitrary: objs store ids)
  case (Cons x xs)
  show ?case
  proof (cases "hm_get objs x")
    case None
    then show ?thesis using Cons.IH [OF Cons.prems(1)] Cons.prems(2) by auto
  next
    case (Some a)
    then obtain ids' where u: "undeploy_objects oid xs (hm_remove x objs) = (ids', m)" "ids = oid a # ids'"
      using Cons.prems(2) by (auto split: prod.splits)
    have "oid a = x" by (rule syncedD(3) [OF Cons.prems(1) Some])
    then show ?thesis
      using Cons.IH [OF synced_remove [OF Cons.prems(1)] u(1)] u(2) syncedD(1) [OF Cons.prems(1)]
      by (auto simp: reg_apply_def hm_laws)
  qed
qed (simp add: reg_apply_def)

text \<open>What can be read from a registry in step with the memory.\<close>

lemma synced_entry:
  assumes "synced prefix oid ser objs (rg_store g)" and "\<forall>a v. ser a = Inr v \<longrightarrow> deser v = Inr a"
    and "hm_get (reg_list prefix g) k = Some v"
  shows "\<exists>a. hm_get objs k = Some a \<and> deser v = Inr a \<and> oid a = k"
proof -
  have "map_option ser (hm_get objs k) = Some (Inr v)"
    using syncedD(4) [OF assms(1), of k] assms(3) reg_list_get(2) [OF syncedD(2) [OF assms(1)], of prefix k] by simp
  then obtain a where "hm_get objs k = Some a" "ser a = Inr v" by auto
  then show ?thesis using assms(2) syncedD(3) [OF assms(1)] by blast
qed

lemma synced_missing:
  assumes "synced prefix oid ser objs (rg_store g)" and "hm_get (reg_list prefix g) k = None"
  shows "hm_get objs k = None"
  using syncedD(4) [OF assms(1), of k] assms(2) reg_list_get(2) [OF syncedD(2) [OF assms(1)], of prefix k] by simp

end
