(* ===== verification/Svc_Acl.thy ===== *)
theory Svc_Acl
  imports Svc_Store
begin

text \<open>
  The access control list service (\<open>svc/aaa-acl/src/main.rs\<close>): the lists, the combination of several
  lists into the one of a session (\<open>From<Vec<&Acl>> for AclData\<close>), and the calls. The service
  holds the lists in memory and in the registry, under the key \<open>acl/<id>\<close> (\<open>Svc_Store\<close>). The serialization of
  a list and the outcomes of the registry calls are arguments; hash sets are sets.
\<close>

subsection \<open>Lists\<close>

type_synonym acl_field = "(string, eva_value set) hmap option"

record acl =
  acl_id :: string
  acl_admin :: bool
  acl_read :: acl_field
  acl_write :: acl_field
  acl_deny_read :: acl_field
  acl_deny_write :: acl_field
  acl_ops :: "string set option"
  acl_meta :: acl_field

record acl_data =
  ad_id :: string
  ad_from :: "string set"
  ad_admin :: bool
  ad_read :: acl_field
  ad_write :: acl_field
  ad_deny_read :: acl_field
  ad_deny_write :: acl_field
  ad_ops :: "string set option"
  ad_meta :: acl_field

definition acl_data_default :: acl_data where
  "acl_data_default =
     \<lparr>ad_id = [], ad_from = {}, ad_admin = False, ad_read = None, ad_write = None, ad_deny_read = None,
      ad_deny_write = None, ad_ops = None, ad_meta = None\<rparr>"

definition acl_data_of :: "acl \<Rightarrow> acl_data" where
  "acl_data_of a =
     \<lparr>ad_id = acl_id a, ad_from = {acl_id a}, ad_admin = acl_admin a, ad_read = acl_read a, ad_write = acl_write a,
      ad_deny_read = acl_deny_read a, ad_deny_write = acl_deny_write a, ad_ops = acl_ops a, ad_meta = acl_meta a\<rparr>"

definition merge_key :: "string \<times> eva_value set \<Rightarrow> (string, eva_value set) hmap \<Rightarrow> (string, eva_value set) hmap" where
  "merge_key = (\<lambda>(k, v) f. case hm_get f k of Some s \<Rightarrow> hm_insert k (s \<union> v) f | None \<Rightarrow> hm_insert k v f)"

definition form_field :: "acl_field \<Rightarrow> acl_field \<Rightarrow> acl_field" where
  "form_field src dst =
     (case src of
        None \<Rightarrow> dst
      | Some r \<Rightarrow> (case dst of Some f \<Rightarrow> Some (fold merge_key r f) | None \<Rightarrow> Some r))"

definition form_ops :: "string set option \<Rightarrow> string set option \<Rightarrow> string set option" where
  "form_ops src dst =
     (case src of
        None \<Rightarrow> dst
      | Some ops \<Rightarrow> (case dst of Some f \<Rightarrow> Some (f \<union> ops) | None \<Rightarrow> Some ops))"

definition acl_data_add :: "acl \<Rightarrow> acl_data \<Rightarrow> acl_data" where
  "acl_data_add a d =
     d\<lparr>ad_admin := (if acl_admin a then True else ad_admin d), ad_read := form_field (acl_read a) (ad_read d),
       ad_write := form_field (acl_write a) (ad_write d), ad_deny_read := form_field (acl_deny_read a) (ad_deny_read d),
       ad_deny_write := form_field (acl_deny_write a) (ad_deny_write d), ad_ops := form_ops (acl_ops a) (ad_ops d),
       ad_meta := form_field (acl_meta a) (ad_meta d)\<rparr>"

definition acl_data_combine :: "acl list \<Rightarrow> acl_data" where
  "acl_data_combine acls =
     (let d = fold acl_data_add acls acl_data_default; ids = sort (map acl_id acls)
      in d\<lparr>ad_id := join_char (CHR ''+'') ids, ad_from := set ids\<rparr>)"

subsection \<open>The service\<close>

record acl_env =
  ae_value :: "acl \<Rightarrow> eva_value result"
  ae_acl :: "eva_value \<Rightarrow> acl result"
  ae_reg :: "nat \<Rightarrow> unit result"

record acl_service =
  as_acls :: "(string, acl) hmap"
  as_loaded :: bool
  as_strict :: bool
  as_forbid_empty :: bool
  as_reg :: registry

definition ACL_NONE :: string where
  "ACL_NONE = ''none''"

definition need_reg :: "acl_service \<Rightarrow> (unit \<Rightarrow> unit answer \<times> acl_service) \<Rightarrow> unit answer \<times> acl_service" where
  "need_reg s k = (if as_loaded s then k () else (Inl (CE_Error ENotReady), s))"

definition acl_reg_calls :: "acl_env \<Rightarrow> (string \<times> eva_value option) list \<Rightarrow> acl_service \<Rightarrow> unit answer \<times> acl_service" where
  "acl_reg_calls N keys s =
     (let (r, g) = reg_calls (ae_reg N) ''acl/'' [] keys (as_reg s)
      in (case r of Inl e \<Rightarrow> Inl (CE_Error e) | Inr _ \<Rightarrow> Inr (), s\<lparr>as_reg := g\<rparr>))"

definition acl_deploy :: "acl_env \<Rightarrow> acl list payload \<Rightarrow> acl_service \<Rightarrow> unit answer \<times> acl_service" where
  "acl_deploy N p s =
     with_params p s (\<lambda>new. need_reg s (\<lambda>_.
       if \<not> list_all (\<lambda>a. valid_id (acl_id a)) new then (Inl (CE_Error EInvalidData), s)
       else
         (case deploy_objects (ae_value N) acl_id new (as_acls s) of
            (Inl e, m) \<Rightarrow> (Inl (CE_Error e), s\<lparr>as_acls := m\<rparr>)
          | (Inr keys, m) \<Rightarrow> acl_reg_calls N keys (s\<lparr>as_acls := m\<rparr>))))"

datatype acl_or_id = AclFull acl | AclId string

fun acl_or_id_str :: "acl_or_id \<Rightarrow> string" where
  "acl_or_id_str (AclFull a) = acl_id a"
| "acl_or_id_str (AclId i) = i"

definition acl_undeploy :: "acl_env \<Rightarrow> acl_or_id list payload \<Rightarrow> acl_service \<Rightarrow> unit answer \<times> acl_service" where
  "acl_undeploy N p s =
     with_params p s (\<lambda>xs. need_reg s (\<lambda>_.
       (let (ids, m) = undeploy_objects acl_id (map acl_or_id_str xs) (as_acls s)
        in acl_reg_calls N (map (\<lambda>i. (i, None)) ids) (s\<lparr>as_acls := m\<rparr>))))"

definition acl_destroy :: "acl_env \<Rightarrow> string payload \<Rightarrow> acl_service \<Rightarrow> unit answer \<times> acl_service" where
  "acl_destroy N p s =
     with_params p s (\<lambda>i. need_reg s (\<lambda>_.
       if hm_contains (as_acls s) i then acl_reg_calls N [(i, None)] (s\<lparr>as_acls := hm_remove i (as_acls s)\<rparr>)
       else (Inl (CE_Error ENotFound), s)))"

definition acl_list :: "unit payload \<Rightarrow> acl_service \<Rightarrow> acl list answer \<times> acl_service" where
  "acl_list p s = without_params p s (\<lambda>_. (Inr (list_objects acl_id (as_acls s)), s))"

definition acl_get_config :: "string payload \<Rightarrow> acl_service \<Rightarrow> acl answer \<times> acl_service" where
  "acl_get_config p s = with_params p s (\<lambda>i. (get_object i (as_acls s), s))"

definition acl_export :: "string payload \<Rightarrow> acl_service \<Rightarrow> acl list answer \<times> acl_service" where
  "acl_export p s = with_params p s (\<lambda>i. (export_objects acl_id i (as_acls s), s))"

datatype id_or_list = Single string | Multiple "string list"

fun format_sources :: "acl_service \<Rightarrow> string list \<Rightarrow> acl list result" where
  "format_sources s [] = Inr []"
| "format_sources s (i # ids) =
     (case hm_get (as_acls s) i of
        Some a \<Rightarrow> (case format_sources s ids of Inl e \<Rightarrow> Inl e | Inr srcs \<Rightarrow> Inr (a # srcs))
      | None \<Rightarrow> if as_strict s then Inl EAccess else format_sources s ids)"

definition format_data :: "acl_service \<Rightarrow> id_or_list \<Rightarrow> acl_data result" where
  "format_data s x =
     (case x of
        Single i \<Rightarrow>
          (case hm_get (as_acls s) i of
             Some a \<Rightarrow> Inr (acl_data_of a)
           | None \<Rightarrow> if as_strict s then Inl EAccess else Inr acl_data_default)
      | Multiple ids \<Rightarrow> (case format_sources s ids of Inl e \<Rightarrow> Inl e | Inr srcs \<Rightarrow> Inr (acl_data_combine srcs)))"

definition add_key_id :: "string option \<Rightarrow> acl_data \<Rightarrow> acl_data" where
  "add_key_id key d =
     (case key of
        None \<Rightarrow> d
      | Some k \<Rightarrow> d\<lparr>ad_meta := Some (hm_insert ''api_key_id'' {VString k} (unwrap_or [] (ad_meta d)))\<rparr>)"

definition acl_format :: "(id_or_list \<times> string option) payload \<Rightarrow> acl_service \<Rightarrow> acl_data answer \<times> acl_service" where
  "acl_format p s =
     with_params p s (\<lambda>(x, key).
       (case format_data s x of
          Inl e \<Rightarrow> Inl (CE_Error e)
        | Inr d \<Rightarrow>
            if ad_from d = {} then
              (if as_forbid_empty s then Inl (CE_Error EAccess) else Inr (add_key_id key (d\<lparr>ad_id := ACL_NONE\<rparr>)))
            else Inr (add_key_id key d), s))"

text \<open>The start of the service: the lists of the registry.\<close>

fun acl_load_all :: "acl_env \<Rightarrow> (string \<times> eva_value) list \<Rightarrow> (string, acl) hmap \<Rightarrow> (string, acl) hmap result" where
  "acl_load_all N [] acls = Inr acls"
| "acl_load_all N ((k, v) # rest) acls =
     (case ae_acl N v of
        Inl e \<Rightarrow> Inl e
      | Inr a \<Rightarrow> acl_load_all N rest (hm_insert k a acls))"

definition acl_load :: "acl_env \<Rightarrow> registry \<Rightarrow> (string, acl) hmap result" where
  "acl_load N g = acl_load_all N (reg_list ''acl/'' g) []"

subsection \<open>The dispatch\<close>

datatype acl_call =
    CallList "unit payload"
  | CallDeploy "acl list payload"
  | CallUndeploy "acl_or_id list payload"
  | CallGetConfig "string payload"
  | CallExport "string payload"
  | CallDestroy "string payload"
  | CallFormat "(id_or_list \<times> string option) payload"

datatype acl_reply = ReplyNone | ReplyAcls "acl list" | ReplyAcl acl | ReplyData acl_data

definition reply :: "('r \<Rightarrow> acl_reply) \<Rightarrow> 'r answer \<times> acl_service \<Rightarrow> acl_reply answer \<times> acl_service" where
  "reply f r = (map_sum id f (fst r), snd r)"

definition acl_handle_call :: "acl_env \<Rightarrow> bool \<Rightarrow> acl_call \<Rightarrow> acl_service \<Rightarrow> acl_reply answer \<times> acl_service" where
  "acl_handle_call N ready call s =
     (if \<not> ready then (Inl CE_NotReady, s)
      else
        (case call of
           CallList p \<Rightarrow> reply ReplyAcls (acl_list p s)
         | CallDeploy p \<Rightarrow> reply (\<lambda>_. ReplyNone) (acl_deploy N p s)
         | CallUndeploy p \<Rightarrow> reply (\<lambda>_. ReplyNone) (acl_undeploy N p s)
         | CallGetConfig p \<Rightarrow> reply ReplyAcl (acl_get_config p s)
         | CallExport p \<Rightarrow> reply ReplyAcls (acl_export p s)
         | CallDestroy p \<Rightarrow> reply (\<lambda>_. ReplyNone) (acl_destroy N p s)
         | CallFormat p \<Rightarrow> reply ReplyData (acl_format p s)))"

subsection \<open>What a combined list grants\<close>

definition granted :: "acl_field \<Rightarrow> string \<Rightarrow> eva_value set" where
  "granted f k = (case f of None \<Rightarrow> {} | Some m \<Rightarrow> unwrap_or {} (hm_get m k))"

definition field_wf :: "acl_field \<Rightarrow> bool" where
  "field_wf f = (case f of None \<Rightarrow> True | Some m \<Rightarrow> hm_wf m)"

definition acl_wf :: "acl \<Rightarrow> bool" where
  "acl_wf a \<longleftrightarrow> field_wf (acl_read a) \<and> field_wf (acl_write a) \<and> field_wf (acl_deny_read a) \<and>
     field_wf (acl_deny_write a) \<and> field_wf (acl_meta a)"

lemma merge_fold:
  assumes "hm_wf f" and "hm_wf r"
  shows "hm_wf (fold merge_key r f)" and
    "unwrap_or {} (hm_get (fold merge_key r f) k) = unwrap_or {} (hm_get f k) \<union> unwrap_or {} (hm_get r k)"
proof -
  have "hm_wf (fold merge_key r f) \<and>
      unwrap_or {} (hm_get (fold merge_key r f) k) = unwrap_or {} (hm_get f k) \<union> unwrap_or {} (hm_get r k)"
    using assms
  proof (induction r arbitrary: f)
    case (Cons e r)
    obtain j v where e: "e = (j, v)" by (cases e)
    have r: "hm_wf r" "hm_get r j = None" using Cons.prems(2) e by (simp_all add: hm_wf_def hm_get_def map_of_eq_None_iff)
    have f: "hm_wf (merge_key e f)" "unwrap_or {} (hm_get (merge_key e f) k) =
        unwrap_or {} (hm_get f k) \<union> (if k = j then v else {})"
      using Cons.prems(1) by (auto simp: e merge_key_def hm_laws split: option.split)
    have "hm_get (e # r) k = (if k = j then Some v else hm_get r k)" by (simp add: hm_get_def e)
    then show ?case using Cons.IH [OF f(1) r(1)] f(2) r(2) by (auto simp: e)
  qed simp
  then show "hm_wf (fold merge_key r f)" and
    "unwrap_or {} (hm_get (fold merge_key r f) k) = unwrap_or {} (hm_get f k) \<union> unwrap_or {} (hm_get r k)" by auto
qed

lemma form_field_granted:
  assumes "field_wf src" and "field_wf dst"
  shows "field_wf (form_field src dst)" and "granted (form_field src dst) k = granted dst k \<union> granted src k"
  using assms merge_fold by (auto simp: form_field_def field_wf_def granted_def split: option.splits)

lemma fold_field_granted:
  assumes "\<forall>a \<in> set acls. field_wf (g a)" and "field_wf d"
  shows "granted (fold (\<lambda>a. form_field (g a)) acls d) k = granted d k \<union> (\<Union>a \<in> set acls. granted (g a) k)"
  using assms
proof (induction acls arbitrary: d)
  case (Cons a acls)
  then show ?case using form_field_granted [of "g a" d] by auto
qed simp

lemma add_fields:
  "ad_read (fold acl_data_add acls d) = fold (\<lambda>a. form_field (acl_read a)) acls (ad_read d)"
  "ad_write (fold acl_data_add acls d) = fold (\<lambda>a. form_field (acl_write a)) acls (ad_write d)"
  "ad_deny_read (fold acl_data_add acls d) = fold (\<lambda>a. form_field (acl_deny_read a)) acls (ad_deny_read d)"
  "ad_deny_write (fold acl_data_add acls d) = fold (\<lambda>a. form_field (acl_deny_write a)) acls (ad_deny_write d)"
  "ad_meta (fold acl_data_add acls d) = fold (\<lambda>a. form_field (acl_meta a)) acls (ad_meta d)"
  "unwrap_or {} (ad_ops (fold acl_data_add acls d)) = unwrap_or {} (ad_ops d) \<union> (\<Union>a \<in> set acls. unwrap_or {} (acl_ops a))"
  "ad_admin (fold acl_data_add acls d) \<longleftrightarrow> ad_admin d \<or> (\<exists>a \<in> set acls. acl_admin a)"
  by (induction acls arbitrary: d) (auto simp: acl_data_add_def form_ops_def split: option.split)

lemma combine_single: "acl_data_combine [a] = acl_data_of a"
  by (simp add: acl_data_combine_def acl_data_of_def acl_data_add_def acl_data_default_def form_field_def form_ops_def
      split: option.split)

lemma combine_none: "acl_data_combine [] = acl_data_default"
  by (simp add: acl_data_combine_def acl_data_default_def)

lemma combine_granted:
  assumes "\<forall>a \<in> set acls. acl_wf a"
  shows "granted (ad_read (acl_data_combine acls)) k = (\<Union>a \<in> set acls. granted (acl_read a) k)"
    and "granted (ad_write (acl_data_combine acls)) k = (\<Union>a \<in> set acls. granted (acl_write a) k)"
    and "granted (ad_deny_read (acl_data_combine acls)) k = (\<Union>a \<in> set acls. granted (acl_deny_read a) k)"
    and "granted (ad_deny_write (acl_data_combine acls)) k = (\<Union>a \<in> set acls. granted (acl_deny_write a) k)"
    and "granted (ad_meta (acl_data_combine acls)) k = (\<Union>a \<in> set acls. granted (acl_meta a) k)"
    and "unwrap_or {} (ad_ops (acl_data_combine acls)) = (\<Union>a \<in> set acls. unwrap_or {} (acl_ops a))"
    and "ad_admin (acl_data_combine acls) \<longleftrightarrow> (\<exists>a \<in> set acls. acl_admin a)"
    and "ad_from (acl_data_combine acls) = acl_id ` set acls"
proof -
  have d: "granted None k = {}" "field_wf None" by (simp_all add: granted_def field_wf_def)
  show "granted (ad_read (acl_data_combine acls)) k = (\<Union>a \<in> set acls. granted (acl_read a) k)"
    "granted (ad_write (acl_data_combine acls)) k = (\<Union>a \<in> set acls. granted (acl_write a) k)"
    "granted (ad_deny_read (acl_data_combine acls)) k = (\<Union>a \<in> set acls. granted (acl_deny_read a) k)"
    "granted (ad_deny_write (acl_data_combine acls)) k = (\<Union>a \<in> set acls. granted (acl_deny_write a) k)"
    "granted (ad_meta (acl_data_combine acls)) k = (\<Union>a \<in> set acls. granted (acl_meta a) k)"
    using assms by (simp_all add: acl_data_combine_def Let_def add_fields acl_data_default_def acl_wf_def fold_field_granted d)
qed (simp_all add: acl_data_combine_def Let_def add_fields acl_data_default_def)

lemma format_sources_result:
  "format_sources s ids =
     (if as_strict s \<and> (\<exists>i \<in> set ids. hm_get (as_acls s) i = None) then Inl EAccess
      else Inr (List.map_filter (hm_get (as_acls s)) ids))"
  by (induction ids) (auto simp: map_filter_simps split: option.split)

lemma format_single: "acl_format (Payload (Inr (Single i, key))) s = acl_format (Payload (Inr (Multiple [i], key))) s"
  by (simp add: acl_format_def with_params_def format_data_def combine_single combine_none split: option.split)

definition acls_ok :: "(string, acl) hmap \<Rightarrow> bool" where
  "acls_ok acls \<longleftrightarrow> hm_wf acls \<and> (\<forall>k a. hm_get acls k = Some a \<longrightarrow> acl_id a = k \<and> acl_wf a)"

lemma key_id_fields:
  "ad_read (add_key_id key d) = ad_read d" "ad_write (add_key_id key d) = ad_write d"
  "ad_deny_read (add_key_id key d) = ad_deny_read d" "ad_deny_write (add_key_id key d) = ad_deny_write d"
  "ad_ops (add_key_id key d) = ad_ops d" "ad_admin (add_key_id key d) = ad_admin d"
  "ad_from (add_key_id key d) = ad_from d"
  by (simp_all add: add_key_id_def split: option.split)

lemma format_grants:
  assumes "acls_ok (as_acls s)" and "A = {a. \<exists>i \<in> set ids. hm_get (as_acls s) i = Some a}"
  shows "fst (acl_format (Payload (Inr (Multiple ids, key))) s) = Inr d \<longrightarrow>
    ad_admin d = (\<exists>a \<in> A. acl_admin a) \<and> ad_from d = acl_id ` A \<and>
    granted (ad_read d) k = (\<Union>a \<in> A. granted (acl_read a) k) \<and>
    granted (ad_write d) k = (\<Union>a \<in> A. granted (acl_write a) k) \<and>
    granted (ad_deny_read d) k = (\<Union>a \<in> A. granted (acl_deny_read a) k) \<and>
    granted (ad_deny_write d) k = (\<Union>a \<in> A. granted (acl_deny_write a) k) \<and>
    unwrap_or {} (ad_ops d) = (\<Union>a \<in> A. unwrap_or {} (acl_ops a))"
proof -
  let ?srcs = "List.map_filter (hm_get (as_acls s)) ids"
  have A: "set ?srcs = A" unfolding assms(2) by (force simp: List.map_filter_def)
  have wf: "\<forall>a \<in> set ?srcs. acl_wf a" using assms(1) by (auto simp: A assms(2) acls_ok_def)
  note g = combine_granted [OF wf, unfolded A]
  show ?thesis
    by (auto simp: acl_format_def with_params_def format_data_def format_sources_result g key_id_fields)
qed

text \<open>
  The access list of a session. The lists of a session are combined as their union: a value is readable,
  writable, denied for reading or denied for writing, and an operation is allowed, exactly if one of
  the named lists says so, and the session is an administrator's exactly if one of them is; the result does not
  depend on the order of the names, on repetitions, or on an API key. A request is refused
  exactly if, in the strict mode, a name is unknown, or if no name is known and empty lists are forbidden.
\<close>

theorem acl_format_grants:
  assumes "acls_ok (as_acls s)" and "A = {a. \<exists>i \<in> set ids. hm_get (as_acls s) i = Some a}"
  shows "snd (acl_format (Payload (Inr (Multiple ids, key))) s) = s \<and>
    (fst (acl_format (Payload (Inr (Multiple ids, key))) s) = Inl (CE_Error EAccess) \<longleftrightarrow>
      as_strict s \<and> (\<exists>i \<in> set ids. hm_get (as_acls s) i = None) \<or> as_forbid_empty s \<and> A = {}) \<and>
    (\<forall>e. fst (acl_format (Payload (Inr (Multiple ids, key))) s) = Inl e \<longrightarrow> e = CE_Error EAccess) \<and>
    (\<forall>d. fst (acl_format (Payload (Inr (Multiple ids, key))) s) = Inr d \<longrightarrow>
      ad_admin d = (\<exists>a \<in> A. acl_admin a) \<and> ad_from d = acl_id ` A \<and>
      granted (ad_read d) k = (\<Union>a \<in> A. granted (acl_read a) k) \<and>
      granted (ad_write d) k = (\<Union>a \<in> A. granted (acl_write a) k) \<and>
      granted (ad_deny_read d) k = (\<Union>a \<in> A. granted (acl_deny_read a) k) \<and>
      granted (ad_deny_write d) k = (\<Union>a \<in> A. granted (acl_deny_write a) k) \<and>
      unwrap_or {} (ad_ops d) = (\<Union>a \<in> A. unwrap_or {} (acl_ops a)))"
proof -
  let ?srcs = "List.map_filter (hm_get (as_acls s)) ids"
  have A: "set ?srcs = A" unfolding assms(2) by (force simp: List.map_filter_def)
  have wf: "\<forall>a \<in> set ?srcs. acl_wf a" using assms(1) by (auto simp: A assms(2) acls_ok_def)
  have none: "acl_id ` A = {} \<longleftrightarrow> A = {}" by simp
  show ?thesis
    by (intro conjI allI format_grants [OF assms])
      (auto simp: acl_format_def with_params_def format_data_def format_sources_result combine_granted [OF wf, unfolded A]
        key_id_fields none)
qed

definition wit_acl :: "string \<Rightarrow> string \<Rightarrow> acl" where
  "wit_acl i v = \<lparr>acl_id = i, acl_admin = False, acl_read = Some [(''items'', {VString v})], acl_write = None,
     acl_deny_read = None, acl_deny_write = None, acl_ops = None, acl_meta = None\<rparr>"

definition wit_acls :: acl_service where
  "wit_acls = \<lparr>as_acls = [(''a'', wit_acl ''a'' ''x''), (''b'', wit_acl ''b'' ''y'')], as_loaded = True, as_strict = False,
     as_forbid_empty = False, as_reg = \<lparr>rg_store = [], rg_calls = 0, rg_tx = []\<rparr>\<rparr>"

lemma wit_acls_ok: "acls_ok (as_acls wit_acls)"
  by (auto simp: wit_acls_def acls_ok_def hm_wf_def hm_get_def wit_acl_def acl_wf_def field_wf_def)

theorem acl_format_grants_witness:
  "\<exists>d. fst (acl_format (Payload (Inr (Multiple [''b'', ''c'', ''a''], None))) wit_acls) = Inr d \<and>
     granted (ad_read d) ''items'' = {VString ''x'', VString ''y''}"
proof -
  have A: "{a. \<exists>i \<in> set [''b'', ''c'', ''a'']. hm_get (as_acls wit_acls) i = Some a} = {wit_acl ''a'' ''x'', wit_acl ''b'' ''y''}"
    by (auto simp: wit_acls_def hm_get_def)
  have "as_strict wit_acls = False" "as_forbid_empty wit_acls = False" by (simp_all add: wit_acls_def)
  with acl_format_grants [OF wit_acls_ok refl, of "[''b'', ''c'', ''a'']" None "''items''"] A show ?thesis
    by (cases "fst (acl_format (Payload (Inr (Multiple [''b'', ''c'', ''a''], None))) wit_acls)")
      (auto simp: granted_def wit_acl_def hm_get_def)
qed

subsection \<open>Memory and registry\<close>

abbreviation acl_synced :: "acl_env \<Rightarrow> (string, acl) hmap \<Rightarrow> (string, eva_value) hmap \<Rightarrow> bool" where
  "acl_synced N \<equiv> synced ''acl/'' acl_id (ae_value N)"

lemma acl_reg_calls_effect:
  assumes "\<forall>n. ae_reg N n = Inr ()"
  shows "snd (acl_reg_calls N keys s) = s\<lparr>as_reg := as_reg (snd (acl_reg_calls N keys s))\<rparr>"
    and "as_acls (snd (acl_reg_calls N keys s)) = as_acls s"
    and "rg_store (as_reg (snd (acl_reg_calls N keys s))) = reg_apply ''acl/'' keys (rg_store (as_reg s))"
  using reg_calls_effect [OF assms, of "''acl/''" "[]" keys "as_reg s"]
  by (simp_all add: acl_reg_calls_def case_prod_unfold Let_def)

text \<open>The lists a call deploys can be serialized.\<close>

definition serializable :: "acl_env \<Rightarrow> acl_call \<Rightarrow> bool" where
  "serializable N call =
     (case call of CallDeploy (Payload (Inr new)) \<Rightarrow> list_all (\<lambda>a. is_ok (ae_value N a)) new | _ \<Rightarrow> True)"

lemma call_synced:
  assumes ser: "serializable N call" and reg: "\<forall>n. ae_reg N n = Inr ()"
    and s: "acl_synced N (as_acls s) (rg_store (as_reg s))"
  shows "acl_synced N (as_acls (snd (acl_handle_call N ready call s))) (rg_store (as_reg (snd (acl_handle_call N ready call s))))"
proof -
  note calls = acl_reg_calls_effect(2,3) [OF reg]
  let ?ok = "\<lambda>r. acl_synced N (as_acls (snd r)) (rg_store (as_reg (snd r)))"
  have deploy: "?ok (acl_deploy N p s)" if call: "call = CallDeploy p" for p
  proof (cases "\<exists>new. p = Payload (Inr new)")
    case True
    then obtain new where p: "p = Payload (Inr new)" by blast
    have "\<forall>a \<in> set new. is_ok (ae_value N a)" using ser call p by (simp add: serializable_def list_all_iff)
    from deploy_synced [OF this s] obtain keys m where
      "deploy_objects (ae_value N) acl_id new (as_acls s) = (Inr keys, m)"
      "acl_synced N m (reg_apply ''acl/'' keys (rg_store (as_reg s)))" by blast
    then show ?thesis using s calls by (simp add: p acl_deploy_def with_params_def need_reg_def)
  next
    case False
    then show ?thesis using s by (auto simp: acl_deploy_def with_params_def split: payload.split sum.split)
  qed
  have undeploy: "?ok (acl_undeploy N p s)" for p
    using s undeploy_synced [OF s] calls
    by (auto simp: acl_undeploy_def with_params_def need_reg_def split: payload.split sum.split prod.split)
  have destroy: "?ok (acl_destroy N p s)" for p
    using s synced_remove [OF s] calls
    by (auto simp: acl_destroy_def with_params_def need_reg_def reg_apply_def split: payload.split sum.split)
  show ?thesis
    using s deploy undeploy destroy
    by (auto simp: acl_handle_call_def reply_def acl_list_def acl_get_config_def acl_export_def acl_format_def with_params_def
        without_params_def split: acl_call.split payload.split sum.split)
qed

lemma acl_load_result:
  assumes "\<forall>(k, v) \<in> set reg. ae_acl N v = Inr (f v)" and "hm_wf reg" and "hm_wf acls"
  shows "\<exists>m. acl_load_all N reg acls = Inr m \<and>
    (\<forall>k. hm_get m k = (case hm_get reg k of Some v \<Rightarrow> Some (f v) | None \<Rightarrow> hm_get acls k))"
  using assms
proof (induction reg arbitrary: acls)
  case (Cons e reg)
  obtain j v where e: "e = (j, v)" by (cases e)
  have w: "hm_wf reg" "hm_get reg j = None" using Cons.prems(2) e by (simp_all add: hm_wf_def hm_get_def map_of_eq_None_iff)
  from Cons.IH [OF _ w(1) hm.wf_insert [OF Cons.prems(3)], of j "f v"] Cons.prems(1) obtain m where
    m: "acl_load_all N reg (hm_insert j (f v) acls) = Inr m"
      "\<forall>k. hm_get m k = (case hm_get reg k of Some v \<Rightarrow> Some (f v) | None \<Rightarrow> hm_get (hm_insert j (f v) acls) k)"
    by auto
  have "hm_get (e # reg) k = (if k = j then Some v else hm_get reg k)" for k by (simp add: hm_get_def e)
  then show ?case using m w(2) Cons.prems(1,3) by (auto simp: e hm_laws split: option.split)
qed simp


definition wit_acl_env :: acl_env where
  "wit_acl_env = \<lparr>ae_value = (\<lambda>a. if a = wit_acl ''a'' ''x'' then Inr VUnit else Inl EPack),
     ae_acl = (\<lambda>_. Inr (wit_acl ''a'' ''x'')), ae_reg = (\<lambda>_. Inr ())\<rparr>"

definition wit_acls_empty :: acl_service where
  "wit_acls_empty = wit_acls\<lparr>as_acls := []\<rparr>"


text \<open>
  A list that is destroyed while its deployment is being written comes back after a restart: the deployment
  writes its registry keys after it has released the lists.
\<close>

theorem destroyed_acl_returns:
  assumes "hm_wf (as_acls s)" and "hm_wf (rg_store (as_reg s))" and "as_loaded s" and "\<forall>n. ae_reg N n = Inr ()"
    and "deploy_objects (ae_value N) acl_id [a] (as_acls s) = (Inr keys, m)"
    and "s1 = snd (acl_destroy N (Payload (Inr (acl_id a))) (s\<lparr>as_acls := m\<rparr>))"
    and "s2 = snd (acl_reg_calls N keys s1)"
  shows "hm_get (as_acls s2) (acl_id a) = None \<and>
    hm_get (rg_store (as_reg s2)) (''acl/'' @ acl_id a) = Some (projr (ae_value N a))"
proof -
  obtain v where v: "ae_value N a = Inr v" "keys = [(acl_id a, Some v)]" "m = hm_insert (acl_id a) a (as_acls s)"
    using assms(5) by (auto split: sum.splits)
  note calls = acl_reg_calls_effect(2,3) [OF assms(4)]
  have "as_acls s1 = hm_remove (acl_id a) m" "rg_store (as_reg s1) = hm_remove (''acl/'' @ acl_id a) (rg_store (as_reg s))"
    using assms(1,3,6) v(3) by (simp_all add: acl_destroy_def with_params_def need_reg_def calls reg_apply_def hm_contains_def hm_laws)
  then show ?thesis using assms(1,2) v assms(7) calls by (simp add: reg_apply_def hm_laws)
qed

end
