(* ===== verification/Svc_Password.thy ===== *)
theory Svc_Password
  imports Svc_Common
begin

text \<open>
  Passwords of the user database (\<open>genpass-native/src/lib.rs\<close>): the stored forms with their text, creation
  and verification, which take a minimal time, the password policy, and random strings. The
  digests, the encodings and the random generator are library functions: the fields of the
  parameter \<open>crypto\<close>.
\<close>

type_synonym byte_array = "8 word list"

record crypto =
  cr_sha256 :: "string \<Rightarrow> byte_array"
  cr_sha512 :: "string \<Rightarrow> byte_array"
  cr_pbkdf2 :: "string \<Rightarrow> byte_array \<Rightarrow> nat \<Rightarrow> byte_array result"
  cr_hex_encode :: "byte_array \<Rightarrow> string"
  cr_hex_decode :: "string \<Rightarrow> byte_array option"
  cr_b64_encode :: "byte_array \<Rightarrow> string"
  cr_b64_decode :: "string \<Rightarrow> byte_array option"
  cr_rand :: "nat \<Rightarrow> nat \<Rightarrow> byte_array result"

definition BUF_SIZE :: nat where
  "BUF_SIZE = 16"

definition PBKDF2_ITERS :: nat where
  "PBKDF2_ITERS = 100000"

text \<open>The digests, with the sizes of their arrays.\<close>

datatype password = Sha256 byte_array | Sha512 byte_array | Pbkdf2 byte_array byte_array

fun password_wf :: "password \<Rightarrow> bool" where
  "password_wf (Sha256 h) \<longleftrightarrow> length h = 32"
| "password_wf (Sha512 h) \<longleftrightarrow> length h = 64"
| "password_wf (Pbkdf2 salt h) \<longleftrightarrow> length salt = 16 \<and> length h = 32"

fun password_to_string :: "crypto \<Rightarrow> password \<Rightarrow> string" where
  "password_to_string C (Sha256 h) = cr_hex_encode C h"
| "password_to_string C (Sha512 h) = cr_hex_encode C h"
| "password_to_string C (Pbkdf2 salt h) = ''$1$'' @ cr_b64_encode C salt @ ''$'' @ cr_b64_encode C h"

text \<open>\<open>splitn(2, sep)\<close>: the part before the first separator and the rest, if there is a separator.\<close>

definition splitn2 :: "char \<Rightarrow> string \<Rightarrow> string \<times> string option" where
  "splitn2 sep s =
     (case dropWhile (\<lambda>c. c \<noteq> sep) s of
        [] \<Rightarrow> (s, None)
      | _ # rest \<Rightarrow> (takeWhile (\<lambda>c. c \<noteq> sep) s, Some rest))"

definition decode_sized :: "(string \<Rightarrow> byte_array option) \<Rightarrow> nat \<Rightarrow> string \<Rightarrow> byte_array option" where
  "decode_sized decode n s =
     (case decode s of Some b \<Rightarrow> if length b = n then Some b else None | None \<Rightarrow> None)"

definition password_from_str :: "crypto \<Rightarrow> string \<Rightarrow> password result" where
  "password_from_str C s =
     (case strip_prefix ''$1$'' s of
        Some pkcs_str \<Rightarrow>
          (case splitn2 (CHR ''$'') pkcs_str of
             (salt, Some hash) \<Rightarrow>
               (case (decode_sized (cr_b64_decode C) 16 salt, decode_sized (cr_b64_decode C) 32 hash) of
                  (Some sb, Some hb) \<Rightarrow> Inr (Pbkdf2 sb hb)
                | _ \<Rightarrow> Inl EInvalidData)
           | (_, None) \<Rightarrow> Inl EInvalidData)
      | None \<Rightarrow>
          if length s = 64 then
            (case decode_sized (cr_hex_decode C) 32 s of Some b \<Rightarrow> Inr (Sha256 b) | None \<Rightarrow> Inl EInvalidData)
          else if length s = 128 then
            (case decode_sized (cr_hex_decode C) 64 s of Some b \<Rightarrow> Inr (Sha512 b) | None \<Rightarrow> Inl EInvalidData)
          else Inl EInvalidData)"

subsection \<open>Creation and verification\<close>

definition new_sha256 :: "crypto \<Rightarrow> string \<Rightarrow> password" where
  "new_sha256 C p = Sha256 (cr_sha256 C p)"

definition new_sha512 :: "crypto \<Rightarrow> string \<Rightarrow> password" where
  "new_sha512 C p = Sha512 (cr_sha512 C p)"

definition new_pbkdf2 :: "crypto \<Rightarrow> nat \<Rightarrow> string \<Rightarrow> password result" where
  "new_pbkdf2 C n p =
     (case cr_rand C n 16 of
        Inl e \<Rightarrow> Inl ECore
      | Inr salt \<Rightarrow> (case cr_pbkdf2 C p salt PBKDF2_ITERS of Inl e \<Rightarrow> Inl ECore | Inr h \<Rightarrow> Inr (Pbkdf2 salt h)))"

fun verify_password :: "crypto \<Rightarrow> password \<Rightarrow> string \<Rightarrow> bool result" where
  "verify_password C (Sha256 h) p = Inr (cr_sha256 C p = h)"
| "verify_password C (Sha512 h) p = Inr (cr_sha512 C p = h)"
| "verify_password C (Pbkdf2 salt h) p =
     (case cr_pbkdf2 C p salt PBKDF2_ITERS of Inl e \<Rightarrow> Inl ECore | Inr g \<Rightarrow> Inr (g = h))"

text \<open>
  The minimal time of an operation, in nanoseconds: one that took less is followed by a sleep for the
  rest. The time an operation takes and the sleep adds up to the second component.
\<close>

definition DEFAULT_MIN_CTIME :: nat where
  "DEFAULT_MIN_CTIME = 200000000"

definition get_min_ctime :: "nat option \<Rightarrow> nat" where
  "get_min_ctime min_ctime = unwrap_or DEFAULT_MIN_CTIME min_ctime"

definition set_min_ctime :: "nat \<Rightarrow> nat option \<Rightarrow> unit result \<times> nat option" where
  "set_min_ctime d min_ctime = (case min_ctime of None \<Rightarrow> (Inr (), Some d) | Some _ \<Rightarrow> (Inl EFailed, min_ctime))"

definition op_delay :: "nat option \<Rightarrow> nat \<Rightarrow> 'a \<Rightarrow> 'a \<times> nat" where
  "op_delay min_ctime elapsed result =
     (let m = get_min_ctime min_ctime
      in (result, if elapsed < m then elapsed + (m - elapsed) else elapsed))"

definition verify :: "crypto \<Rightarrow> nat option \<Rightarrow> nat \<Rightarrow> password \<Rightarrow> string \<Rightarrow> bool result \<times> nat" where
  "verify C min_ctime elapsed pw p = op_delay min_ctime elapsed (verify_password C pw p)"

subsection \<open>The policy\<close>

record password_policy =
  min_length :: nat
  required_letter :: bool
  required_mixed_case :: bool
  required_number :: bool

datatype violation = TooShort nat | NoLetter | NoNumber | NoMixedCase

fun found_char :: "(char \<Rightarrow> bool) \<Rightarrow> string \<Rightarrow> bool" where
  "found_char f [] = False"
| "found_char f (ch # rest) = (if f ch then True else found_char f rest)"

fun found_cases :: "bool \<Rightarrow> bool \<Rightarrow> string \<Rightarrow> bool \<times> bool" where
  "found_cases upper lower [] = (upper, lower)"
| "found_cases upper lower (ch # rest) =
     (let (u, l) = (if is_uppercase ch then (True, lower) else if is_lowercase ch then (upper, True) else (upper, lower))
      in if u \<and> l then (u, l) else found_cases u l rest)"

definition policy_errors :: "password_policy \<Rightarrow> string \<Rightarrow> violation list" where
  "policy_errors pp p =
     (if length p < min_length pp then [TooShort (min_length pp)] else []) @
     (if required_letter pp \<and> \<not> found_char is_alphabetic p then [NoLetter] else []) @
     (if required_number pp \<and> \<not> found_char is_numeric p then [NoNumber] else []) @
     (if required_mixed_case pp then
        (let (u, l) = found_cases False False p in if \<not> u \<or> \<not> l then [NoMixedCase] else [])
      else [])"

definition policy_check :: "password_policy \<Rightarrow> string \<Rightarrow> unit result" where
  "policy_check pp p = (if policy_errors pp p = [] then Inr () else Inl EInvalidParams)"

subsection \<open>Random strings\<close>

text \<open>The characters of one buffer: \<open>True\<close> when the string has the requested length.\<close>

fun push_chars :: "nat \<Rightarrow> string \<Rightarrow> string \<Rightarrow> bool \<times> string" where
  "push_chars len [] s = (False, s)"
| "push_chars len (c # cs) s =
     (if is_alphanumeric c then
        (let s' = s @ [c] in if length s' = len then (True, s') else push_chars len cs s')
      else push_chars len cs s)"

definition random_step :: "crypto \<Rightarrow> nat \<Rightarrow> nat \<Rightarrow> string \<Rightarrow> string result option \<times> string" where
  "random_step C len n s =
     (case cr_rand C n BUF_SIZE of
        Inl e \<Rightarrow> (Some (Inl ECore), s)
      | Inr buf \<Rightarrow>
          (case push_chars len (cr_b64_encode C buf) s of
             (True, s') \<Rightarrow> (Some (Inr s'), s')
           | (False, s') \<Rightarrow> (None, s')))"

text \<open>A buffer per round, until the string is complete or the generator fails.\<close>

partial_function (option) random_loop :: "crypto \<Rightarrow> nat \<Rightarrow> nat \<Rightarrow> string \<Rightarrow> string result option" where
  "random_loop C len n s =
     (let r = random_step C len n s
      in if fst r \<noteq> None then fst r else random_loop C len (Suc n) (snd r))"

definition random_string :: "crypto \<Rightarrow> nat \<Rightarrow> nat \<Rightarrow> string result option" where
  "random_string C n len = random_loop C len n []"

definition to_le_bytes :: "32 word \<Rightarrow> byte_array" where
  "to_le_bytes w = map (\<lambda>i. ucast (drop_bit (8 * i) w)) [0, 1, 2, 3]"

definition aes_gcm_nonce :: "crypto \<Rightarrow> nat \<Rightarrow> 32 word \<Rightarrow> byte_array result" where
  "aes_gcm_nonce C n ns =
     (case cr_rand C n 8 of Inl e \<Rightarrow> Inl ECore | Inr buf \<Rightarrow> Inr (to_le_bytes ns @ buf))"

subsection \<open>Round trips\<close>

text \<open>
  Documented behaviour of the encodings: they can be decoded, a byte is two hexadecimal digits, and no encoded
  text contains a dollar sign. The digests have the sizes of their arrays.
\<close>

definition encodings :: "crypto \<Rightarrow> bool" where
  "encodings C \<longleftrightarrow> (\<forall>b. cr_hex_decode C (cr_hex_encode C b) = Some b \<and> cr_b64_decode C (cr_b64_encode C b) = Some b \<and>
     length (cr_hex_encode C b) = 2 * length b \<and>
     CHR ''$'' \<notin> set (cr_hex_encode C b) \<and> CHR ''$'' \<notin> set (cr_b64_encode C b))"

definition digest_sizes :: "crypto \<Rightarrow> bool" where
  "digest_sizes C \<longleftrightarrow> (\<forall>p. length (cr_sha256 C p) = 32 \<and> length (cr_sha512 C p) = 64) \<and>
     (\<forall>p salt n h. cr_pbkdf2 C p salt n = Inr h \<longrightarrow> length h = 32) \<and>
     (\<forall>n len b. cr_rand C n len = Inr b \<longrightarrow> length b = len)"

lemma splitn2_join:
  assumes "sep \<notin> set a"
  shows "splitn2 sep (a @ sep # b) = (a, Some b)"
proof -
  have "dropWhile (\<lambda>c. c \<noteq> sep) (a @ sep # b) = sep # b" "takeWhile (\<lambda>c. c \<noteq> sep) (a @ sep # b) = a"
    using assms by (induction a) auto
  then show ?thesis by (simp add: splitn2_def)
qed

lemma strip_none:
  assumes "CHR ''$'' \<notin> set s"
  shows "strip_prefix ''$1$'' s = None"
  using assms by (cases s) (auto simp: strip_prefix_def str_starts_with_def)

lemma strip_some: "strip_prefix ''$1$'' (''$1$'' @ s) = Some s"
  by (simp add: strip_prefix_def str_starts_with_def)

lemma password_text:
  assumes "encodings C" and "password_wf pw"
  shows "password_from_str C (password_to_string C pw) = Inr pw"
proof (cases pw)
  case (Pbkdf2 salt h)
  have "password_to_string C pw = ''$1$'' @ (cr_b64_encode C salt @ CHR ''$'' # cr_b64_encode C h)" by (simp add: Pbkdf2)
  then show ?thesis
    using assms strip_some [of "cr_b64_encode C salt @ CHR ''$'' # cr_b64_encode C h"]
    by (simp add: password_from_str_def splitn2_join encodings_def Pbkdf2 decode_sized_def)
qed (use assms in \<open>simp_all add: password_from_str_def strip_none encodings_def decode_sized_def\<close>)

lemma new_pbkdf2_created:
  assumes "new_pbkdf2 C n p = Inr pw"
  obtains salt h where "pw = Pbkdf2 salt h" and "cr_rand C n 16 = Inr salt" and "cr_pbkdf2 C p salt PBKDF2_ITERS = Inr h"
  using assms by (auto simp: new_pbkdf2_def split: sum.splits)


text \<open>Library functions for evaluation: both encodings write a byte as two letters, the digests are constant.\<close>

definition wit_encode :: "byte_array \<Rightarrow> string" where
  "wit_encode b = concat (map (\<lambda>w. [char_of (65 + unat w div 16), char_of (65 + unat w mod 16)]) b)"

fun wit_decode :: "string \<Rightarrow> byte_array option" where
  "wit_decode [] = Some []"
| "wit_decode [c] = None"
| "wit_decode (c # d # cs) = map_option (\<lambda>b. of_nat ((code c - 65) * 16 + (code d - 65)) # b) (wit_decode cs)"

definition wit_crypto :: crypto where
  "wit_crypto = \<lparr>cr_sha256 = (\<lambda>_. replicate 32 7), cr_sha512 = (\<lambda>_. replicate 64 7), cr_pbkdf2 = (\<lambda>p salt n. Inr (replicate 32 7)),
     cr_hex_encode = wit_encode, cr_hex_decode = wit_decode, cr_b64_encode = wit_encode, cr_b64_decode = wit_decode,
     cr_rand = (\<lambda>n len. Inr (replicate len 7))\<rparr>"

lemma wit_encode_laws: "wit_decode (wit_encode b) = Some b" "length (wit_encode b) = 2 * length b" "CHR ''$'' \<notin> set (wit_encode b)"
proof (induction b)
  case (Cons w b)
  have w: "unat w < 256" using unsigned_less [of w] by simp
  have "of_char (char_of (65 + unat w div 16) :: char) = 65 + unat w div 16" "of_char (char_of (65 + unat w mod 16) :: char) = 65 + unat w mod 16"
    using w by (simp_all add: of_char_of)
  moreover have "CHR ''$'' \<noteq> char_of (65 + n)" if "n < 16" for n :: nat
  proof
    assume "CHR ''$'' = char_of (65 + n)"
    then have "(of_char (char_of (65 + n) :: char) :: nat) = of_char CHR ''$''" by metis
    then show False using that by (simp add: of_char_of)
  qed
  moreover have "unat w div 16 < 16" "unat w mod 16 < 16" using w by simp_all
  ultimately show "wit_decode (wit_encode (w # b)) = Some (w # b)" "length (wit_encode (w # b)) = 2 * length (w # b)"
    "CHR ''$'' \<notin> set (wit_encode (w # b))"
    using Cons by (simp_all add: wit_encode_def code_def)
qed (simp_all add: wit_encode_def)

lemma wit_crypto_laws: "encodings wit_crypto" "digest_sizes wit_crypto"
  by (simp_all add: encodings_def digest_sizes_def wit_crypto_def wit_encode_laws)


subsection \<open>The policy accepts what it says\<close>

lemma found_char_iff: "found_char f p \<longleftrightarrow> (\<exists>c \<in> set p. f c)"
  by (induction p) auto

lemma found_cases_iff:
  assumes "found_cases u l p = (u', l')"
  shows "u' \<and> l' \<longleftrightarrow> (u \<or> (\<exists>c \<in> set p. is_uppercase c)) \<and> (l \<or> (\<exists>c \<in> set p. is_lowercase c))"
  using assms
proof (induction p arbitrary: u l)
  case (Cons ch rest)
  define v m where "v \<longleftrightarrow> u \<or> is_uppercase ch" and "m \<longleftrightarrow> l \<or> is_lowercase ch"
  have step: "found_cases u l (ch # rest) = (if v \<and> m then (v, m) else found_cases v m rest)"
    using case_excl [of ch] by (simp add: v_def m_def)
  have "u' \<and> l' \<longleftrightarrow> (v \<or> (\<exists>c \<in> set rest. is_uppercase c)) \<and> (m \<or> (\<exists>c \<in> set rest. is_lowercase c))"
  proof (cases "v \<and> m")
    case True
    then show ?thesis using Cons.prems step by auto
  next
    case False
    then have "found_cases v m rest = (u', l')" using Cons.prems by (simp only: step if_False)
    from Cons.IH [OF this] show ?thesis .
  qed
  then show ?case unfolding v_def m_def by simp
qed simp

text \<open>
  The password policy accepts exactly the passwords that are long enough and contain what is required, and the
  reasons it gives are exactly the violated requirements.
\<close>

theorem policy_check_exact:
  "(policy_check pp p = Inr () \<longleftrightarrow>
      min_length pp \<le> length p \<and> (required_letter pp \<longrightarrow> (\<exists>c \<in> set p. is_alphabetic c)) \<and>
      (required_number pp \<longrightarrow> (\<exists>c \<in> set p. is_numeric c)) \<and>
      (required_mixed_case pp \<longrightarrow> (\<exists>c \<in> set p. is_uppercase c) \<and> (\<exists>c \<in> set p. is_lowercase c))) \<and>
   (v \<in> set (policy_errors pp p) \<longleftrightarrow>
      (case v of
         TooShort n \<Rightarrow> n = min_length pp \<and> length p < min_length pp
       | NoLetter \<Rightarrow> required_letter pp \<and> (\<forall>c \<in> set p. \<not> is_alphabetic c)
       | NoNumber \<Rightarrow> required_number pp \<and> (\<forall>c \<in> set p. \<not> is_numeric c)
       | NoMixedCase \<Rightarrow> required_mixed_case pp \<and>
           ((\<forall>c \<in> set p. \<not> is_uppercase c) \<or> (\<forall>c \<in> set p. \<not> is_lowercase c))))"
proof -
  define A N U W where "A \<longleftrightarrow> found_char is_alphabetic p" and "N \<longleftrightarrow> found_char is_numeric p"
    and "U \<longleftrightarrow> found_char is_uppercase p" and "W \<longleftrightarrow> found_char is_lowercase p"
  note ex = found_char_iff [of _ p, symmetric]
  have all: "(\<forall>c \<in> set p. \<not> f c) \<longleftrightarrow> \<not> found_char f p" for f by (simp add: found_char_iff)
  obtain u l where c: "found_cases False False p = (u, l)" by fastforce
  have "(u \<and> l) = (U \<and> W)" using found_cases_iff [OF c] by (simp add: U_def W_def ex)
  then have m: "(\<not> u \<or> \<not> l) = (\<not> U \<or> \<not> W)" by blast
  have e: "policy_errors pp p =
      (if length p < min_length pp then [TooShort (min_length pp)] else []) @ (if required_letter pp \<and> \<not> A then [NoLetter] else []) @
      (if required_number pp \<and> \<not> N then [NoNumber] else []) @ (if required_mixed_case pp \<and> (\<not> U \<or> \<not> W) then [NoMixedCase] else [])"
    unfolding policy_errors_def c Let_def prod.case m A_def N_def by simp
  show ?thesis
    unfolding ex all A_def [symmetric] N_def [symmetric] U_def [symmetric] W_def [symmetric] policy_check_def e
    by (cases v) auto
qed

theorem policy_check_exact_witness:
  "policy_check \<lparr>min_length = 3, required_letter = True, required_mixed_case = True, required_number = False\<rparr> ''aBc'' = Inr ()"
  using policy_check_exact [of "\<lparr>min_length = 3, required_letter = True, required_mixed_case = True, required_number = False\<rparr>" "''aBc''" NoLetter]
  by (simp add: char_class_defs)

subsection \<open>Random strings\<close>

lemma push_chars_result:
  "push_chars len cs s =
     (let f = filter is_alphanumeric cs
      in if length s < len \<and> len \<le> length s + length f then (True, take len (s @ f)) else (False, s @ f))"
  by (induction cs arbitrary: s) (auto simp: Let_def Suc_le_eq)

lemma random_loop_step:
  assumes "cr_rand C n BUF_SIZE = Inr buf" and "f = filter is_alphanumeric (cr_b64_encode C buf)"
  shows "random_loop C len n s =
    (if length s < len \<and> len \<le> length s + length f then Some (Inr (take len (s @ f))) else random_loop C len (Suc n) (s @ f))"
proof -
  have "random_step C len n s =
      (if length s < len \<and> len \<le> length s + length f then (Some (Inr (take len (s @ f))), take len (s @ f)) else (None, s @ f))"
    by (simp add: random_step_def assms push_chars_result Let_def)
  note r = this
  have "random_loop C len n s =
      (let r = random_step C len n s in if fst r \<noteq> None then fst r else random_loop C len (Suc n) (snd r))"
    by (rule random_loop.simps)
  then show ?thesis by (cases "length s < len \<and> len \<le> length s + length f") (simp_all only: r Let_def, simp_all)
qed

lemma random_loop_returns:
  assumes "\<forall>n. \<exists>buf. cr_rand C n BUF_SIZE = Inr buf \<and> (\<exists>c \<in> set (cr_b64_encode C buf). is_alphanumeric c)"
    and "length s < len" and "\<forall>c \<in> set s. is_alphanumeric c"
  shows "\<exists>r. random_loop C len n s = Some (Inr r) \<and> length r = len \<and> (\<forall>c \<in> set r. is_alphanumeric c)"
  using assms(2,3)
proof (induction "len - length s" arbitrary: n s rule: less_induct)
  case less
  obtain buf where buf: "cr_rand C n BUF_SIZE = Inr buf" "\<exists>c \<in> set (cr_b64_encode C buf). is_alphanumeric c" using assms(1) by blast
  define f where "f = filter is_alphanumeric (cr_b64_encode C buf)"
  have f: "0 < length f" "\<forall>c \<in> set (s @ f). is_alphanumeric c" using buf(2) less.prems(2) by (auto simp: f_def filter_empty_conv)
  note step = random_loop_step [OF buf(1) f_def, of len s]
  show ?case
  proof (cases "len \<le> length s + length f")
    case True
    then have "random_loop C len n s = Some (Inr (take len (s @ f)))" "length (take len (s @ f)) = len" using less.prems(1) step by auto
    moreover have "\<forall>c \<in> set (take len (s @ f)). is_alphanumeric c" using f(2) by (meson in_set_takeD)
    ultimately show ?thesis by blast
  next
    case False
    then have "random_loop C len n s = random_loop C len (Suc n) (s @ f)" "length (s @ f) < len" "len - length (s @ f) < len - length s"
      using step f(1) less.prems(1) by (auto simp del: length_greater_0_conv)
    then show ?thesis using less.hyps [of "s @ f" "Suc n"] f(2) by metis
  qed
qed

lemma random_loop_zero:
  assumes "random_loop C len n s = Some r" and "len = 0" and "\<forall>n. \<exists>buf. cr_rand C n BUF_SIZE = Inr buf"
  shows False
  using assms
proof (induction rule: random_loop.raw_induct [rotated, consumes 1, case_names step])
  case (step f C len n s r)
  then obtain buf where "cr_rand C n BUF_SIZE = Inr buf" by blast
  then have "fst (random_step C len n s) = None" using step.prems by (simp add: random_step_def push_chars_result Let_def)
  then show ?case using step.hyps step.IH step.prems by (simp add: Let_def)
qed

text \<open>
  C40: random strings. If the random generator works and every buffer encodes to some letter or digit, the
  generation of a string returns, with exactly the requested number of letters and digits; for the length zero
  it never returns.
\<close>

theorem random_string_returns:
  assumes "\<forall>n. \<exists>buf. cr_rand C n BUF_SIZE = Inr buf \<and> (\<exists>c \<in> set (cr_b64_encode C buf). is_alphanumeric c)"
  shows "(0 < len \<longrightarrow> (\<exists>s. random_string C n len = Some (Inr s) \<and> length s = len \<and> (\<forall>c \<in> set s. is_alphanumeric c))) \<and>
    random_string C n 0 = None"
proof -
  have "random_string C n 0 = None"
  proof (rule ccontr)
    assume "random_string C n 0 \<noteq> None"
    then obtain r where "random_loop C 0 n [] = Some r" by (auto simp: random_string_def)
    from random_loop_zero [OF this] assms show False by blast
  qed
  then show ?thesis using random_loop_returns [OF assms, of "[]" len n] by (simp add: random_string_def)
qed

theorem random_string_returns_witness:
  "\<exists>s. random_string wit_crypto 0 20 = Some (Inr s) \<and> length s = 20"
proof -
  have "code (char_of (65 + unat (7 :: 8 word) div 16)) = 65" by (simp add: code_def of_char_of)
  then have "\<exists>c \<in> set (wit_encode (replicate BUF_SIZE 7)). is_alphanumeric c"
    by (simp add: wit_encode_def BUF_SIZE_def is_alphanumeric_def is_alphabetic_def is_uppercase_def)
  then have "\<forall>n. \<exists>buf. cr_rand wit_crypto n BUF_SIZE = Inr buf \<and> (\<exists>c \<in> set (cr_b64_encode wit_crypto buf). is_alphanumeric c)"
    by (simp add: wit_crypto_def)
  from random_string_returns [OF this, of 20 0] show ?thesis by auto
qed

end
