(* ===== verification/Svc_Auth.thy ===== *)
theory Svc_Auth
  imports Svc_Acl Svc_Password
begin

text \<open>
  The local authentication service (\<open>svc/aaa-localauth/src/main.rs\<close>): API keys with their two indexes, users,
  one-time users, and the calls that deploy, change and authenticate them. Hash sets of names are
  lists in their iteration order; the serialization of the objects, the outcomes of registry calls and of the calls of
  the one-time password service and the access list service are arguments, time-outs included; which random buffers a
  call draws is the argument \<open>va_seed\<close>. A call that draws a random string and never gets one does not
  return: its answer is \<open>None\<close>.
\<close>

subsection \<open>Keys\<close>

record api_key =
  ak_id :: string
  ak_key :: string
  ak_acls :: "string list"

record key_db =
  kd_by_id :: "(string, api_key) hmap"
  kd_by_k :: "(string, api_key) hmap"

definition kd_append :: "api_key \<Rightarrow> key_db \<Rightarrow> unit result \<times> key_db" where
  "kd_append key db =
     (case hm_get (kd_by_k db) (ak_key key) of
        Some k \<Rightarrow>
          if ak_id key \<noteq> ak_id k then (Inl EBusy, db)
          else (Inr (), \<lparr>kd_by_id = hm_insert (ak_id key) key (kd_by_id db), kd_by_k = hm_insert (ak_key key) key (kd_by_k db)\<rparr>)
      | None \<Rightarrow> (Inr (), \<lparr>kd_by_id = hm_insert (ak_id key) key (kd_by_id db), kd_by_k = hm_insert (ak_key key) key (kd_by_k db)\<rparr>))"

definition kd_get :: "string \<Rightarrow> key_db \<Rightarrow> api_key option" where
  "kd_get i db = hm_get (kd_by_id db) i"

definition kd_get_by_k :: "string \<Rightarrow> key_db \<Rightarrow> api_key option" where
  "kd_get_by_k k db = hm_get (kd_by_k db) k"

definition kd_remove :: "string \<Rightarrow> key_db \<Rightarrow> api_key option \<times> key_db" where
  "kd_remove i db =
     (case hm_get (kd_by_id db) i of
        Some key \<Rightarrow> (Some key, \<lparr>kd_by_id = hm_remove i (kd_by_id db), kd_by_k = hm_remove (ak_key key) (kd_by_k db)\<rparr>)
      | None \<Rightarrow> (None, db))"

subsection \<open>Users\<close>

datatype profile_field = PF_Email | PF_Phone

record user_profile =
  up_email :: "string option"
  up_phone :: "string option"

record user =
  us_login :: string
  us_password :: password
  us_acls :: "string list"
  us_profile :: user_profile

record one_time_user =
  ot_created :: nat
  ot_user :: "user option"

definition get_field :: "profile_field \<Rightarrow> user_profile \<Rightarrow> eva_value option" where
  "get_field field p = (case field of PF_Email \<Rightarrow> map_option VString (up_email p) | PF_Phone \<Rightarrow> map_option VString (up_phone p))"

definition set_field :: "(eva_value \<Rightarrow> string) \<Rightarrow> profile_field \<Rightarrow> eva_value \<Rightarrow> user_profile \<Rightarrow> user_profile" where
  "set_field display field val p =
     (let s = (if val = VUnit then None else Some (display val))
      in case field of PF_Email \<Rightarrow> p\<lparr>up_email := s\<rparr> | PF_Phone \<Rightarrow> p\<lparr>up_phone := s\<rparr>)"

record user_info =
  ui_login :: string
  ui_password :: "string option"
  ui_acls :: "string list"
  ui_profile :: "user_profile option"

definition to_info :: "crypto \<Rightarrow> bool \<Rightarrow> bool \<Rightarrow> user \<Rightarrow> user_info" where
  "to_info C full with_password u =
     \<lparr>ui_login = us_login u, ui_password = (if with_password then Some (password_to_string C (us_password u)) else None),
      ui_acls = us_acls u, ui_profile = (if full then Some (us_profile u) else None)\<rparr>"

subsection \<open>The service\<close>

record auth_env =
  va_crypto :: crypto
  va_key_value :: "api_key \<Rightarrow> eva_value result"
  va_key_of :: "eva_value \<Rightarrow> api_key result"
  va_user_value :: "user \<Rightarrow> eva_value result"
  va_user_of :: "eva_value \<Rightarrow> user result"
  va_reg :: "nat \<Rightarrow> unit result"
  va_key_topic :: string
  va_user_topic :: string
  va_seed :: "nat \<Rightarrow> nat"
  va_display :: "eva_value \<Rightarrow> string"
  va_otp_check :: "string \<Rightarrow> eva_value option \<Rightarrow> unit result"
  va_otp_destroy :: "string \<Rightarrow> unit result"
  va_acl_format :: "string list \<Rightarrow> string option \<Rightarrow> acl_data result"

record auth_service =
  au_keys :: key_db
  au_users :: "(string, user) hmap"
  au_one_time :: "(string, one_time_user) hmap"
  au_one_time_expires :: "nat option"
  au_policy :: password_policy
  au_otp_svc :: bool
  au_reg :: registry
  au_draws :: nat

definition ONE_TIME_USER_PREFIX :: string where
  "ONE_TIME_USER_PREFIX = ''OT.''"

text \<open>A random string, and the count of draws after it.\<close>

definition draw :: "auth_env \<Rightarrow> nat \<Rightarrow> nat \<Rightarrow> string result option" where
  "draw N k len = random_string (va_crypto N) (va_seed N k) len"

definition ot_is_valid :: "nat \<Rightarrow> nat \<Rightarrow> one_time_user \<Rightarrow> bool" where
  "ot_is_valid expires now o1 \<longleftrightarrow> now - ot_created o1 < expires \<and> ot_user o1 \<noteq> None"

definition clear_one_time_users :: "nat \<Rightarrow> nat \<Rightarrow> auth_service \<Rightarrow> auth_service" where
  "clear_one_time_users expires now s = s\<lparr>au_one_time := hm_retain (\<lambda>_ o1. ot_is_valid expires now o1) (au_one_time s)\<rparr>"

text \<open>\<open>OneTimeUser::get_acls\<close>: the account is taken, whatever the outcome.\<close>

definition ot_get_acls :: "crypto \<Rightarrow> string \<Rightarrow> one_time_user \<Rightarrow> string list result \<times> one_time_user" where
  "ot_get_acls C pw o1 =
     (case ot_user o1 of
        None \<Rightarrow> (Inl EAccess, o1)
      | Some u \<Rightarrow>
          (case verify_password C (us_password u) pw of
             Inl e \<Rightarrow> (Inl e, o1\<lparr>ot_user := None\<rparr>)
           | Inr True \<Rightarrow> (Inr (us_acls u), o1\<lparr>ot_user := None\<rparr>)
           | Inr False \<Rightarrow> (Inl EAccess, o1\<lparr>ot_user := None\<rparr>)))"

definition key_reg_calls :: "auth_env \<Rightarrow> (string \<times> eva_value option) list \<Rightarrow> auth_service \<Rightarrow> unit answer \<times> auth_service" where
  "key_reg_calls N keys s =
     (let (r, g) = reg_calls (va_reg N) ''key/'' (va_key_topic N) keys (au_reg s)
      in (case r of Inl e \<Rightarrow> Inl (CE_Error e) | Inr _ \<Rightarrow> Inr (), s\<lparr>au_reg := g\<rparr>))"

definition user_reg_calls :: "auth_env \<Rightarrow> (string \<times> eva_value option) list \<Rightarrow> auth_service \<Rightarrow> unit answer \<times> auth_service" where
  "user_reg_calls N keys s =
     (let (r, g) = reg_calls (va_reg N) ''user/'' (va_user_topic N) keys (au_reg s)
      in (case r of Inl e \<Rightarrow> Inl (CE_Error e) | Inr _ \<Rightarrow> Inr (), s\<lparr>au_reg := g\<rparr>))"

subsection \<open>Calls on keys\<close>

definition key_list :: "unit payload \<Rightarrow> auth_service \<Rightarrow> api_key list answer \<times> auth_service" where
  "key_list p s = without_params p s (\<lambda>_. (Inr (list_objects ak_id (kd_by_id (au_keys s))), s))"

fun deploy_keys :: "auth_env \<Rightarrow> api_key list \<Rightarrow> key_db \<Rightarrow> (string \<times> eva_value option) list result \<times> key_db" where
  "deploy_keys N [] db = (Inr [], db)"
| "deploy_keys N (key # keys) db =
     (let db1 = snd (kd_remove (ak_id key) db)
      in case va_key_value N key of
           Inl e \<Rightarrow> (Inl e, db1)
         | Inr v \<Rightarrow>
             (case kd_append key db1 of
                (Inl e, db2) \<Rightarrow> (Inl e, db2)
              | (Inr _, db2) \<Rightarrow>
                  (case deploy_keys N keys db2 of
                     (Inl e, db3) \<Rightarrow> (Inl e, db3)
                   | (Inr rk, db3) \<Rightarrow> (Inr ((ak_id key, Some v) # rk), db3))))"

definition key_deploy :: "auth_env \<Rightarrow> api_key list payload \<Rightarrow> auth_service \<Rightarrow> unit answer \<times> auth_service" where
  "key_deploy N p s =
     with_params p s (\<lambda>new.
       if \<not> list_all (\<lambda>k. valid_id (ak_id k)) new then (Inl (CE_Error EInvalidData), s)
       else
         (case deploy_keys N new (au_keys s) of
            (Inl e, db) \<Rightarrow> (Inl (CE_Error e), s\<lparr>au_keys := db\<rparr>)
          | (Inr rk, db) \<Rightarrow> key_reg_calls N rk (s\<lparr>au_keys := db\<rparr>)))"

datatype key_or_id = KeyFull api_key | KeyId string

fun key_or_id_str :: "key_or_id \<Rightarrow> string" where
  "key_or_id_str (KeyFull k) = ak_id k"
| "key_or_id_str (KeyId i) = i"

fun undeploy_keys :: "string list \<Rightarrow> key_db \<Rightarrow> string list \<times> key_db" where
  "undeploy_keys [] db = ([], db)"
| "undeploy_keys (i # ids) db =
     (case kd_remove i db of
        (Some key, db1) \<Rightarrow> (let (rest, db2) = undeploy_keys ids db1 in (ak_id key # rest, db2))
      | (None, db1) \<Rightarrow> undeploy_keys ids db1)"

definition key_undeploy :: "auth_env \<Rightarrow> key_or_id list payload \<Rightarrow> auth_service \<Rightarrow> unit answer \<times> auth_service" where
  "key_undeploy N p s =
     with_params p s (\<lambda>xs.
       (let (ids, db) = undeploy_keys (map key_or_id_str xs) (au_keys s)
        in key_reg_calls N (map (\<lambda>i. (i, None)) ids) (s\<lparr>au_keys := db\<rparr>)))"

definition key_get_config :: "string payload \<Rightarrow> auth_service \<Rightarrow> api_key answer \<times> auth_service" where
  "key_get_config p s = with_params p s (\<lambda>i. (get_object i (kd_by_id (au_keys s)), s))"

definition key_export :: "string payload \<Rightarrow> auth_service \<Rightarrow> api_key list answer \<times> auth_service" where
  "key_export p s = with_params p s (\<lambda>i. (export_objects ak_id i (kd_by_id (au_keys s)), s))"

definition key_get :: "string payload \<Rightarrow> auth_service \<Rightarrow> (string \<times> string) answer \<times> auth_service" where
  "key_get p s =
     with_params p s (\<lambda>i. (map_sum id (\<lambda>k. (ak_id k, ak_key k)) (get_object i (kd_by_id (au_keys s))), s))"

definition key_destroy :: "auth_env \<Rightarrow> string payload \<Rightarrow> auth_service \<Rightarrow> unit answer \<times> auth_service" where
  "key_destroy N p s =
     with_params p s (\<lambda>i.
       (case kd_remove i (au_keys s) of
          (Some _, db) \<Rightarrow> key_reg_calls N [(i, None)] (s\<lparr>au_keys := db\<rparr>)
        | (None, _) \<Rightarrow> (Inl (CE_Error ENotFound), s)))"

text \<open>An error after the removal leaves the key removed.\<close>

definition key_regenerate :: "auth_env \<Rightarrow> string payload \<Rightarrow> auth_service \<Rightarrow> api_key answer option \<times> auth_service" where
  "key_regenerate N p s =
     (case p of
        NoPayload \<Rightarrow> (Some (Inl CE_Params), s)
      | Payload (Inl e) \<Rightarrow> (Some (Inl (CE_Error e)), s)
      | Payload (Inr i) \<Rightarrow>
          (case kd_remove i (au_keys s) of
             (None, _) \<Rightarrow> (Some (Inl (CE_Error ENotFound)), s)
           | (Some key, db) \<Rightarrow>
               (let s1 = s\<lparr>au_keys := db, au_draws := Suc (au_draws s)\<rparr>
                in case draw N (au_draws s) 32 of
                     None \<Rightarrow> (None, s1)
                   | Some (Inl e) \<Rightarrow> (Some (Inl (CE_Error e)), s1)
                   | Some (Inr k) \<Rightarrow>
                       (let new = key\<lparr>ak_key := k\<rparr>
                        in case va_key_value N new of
                             Inl e \<Rightarrow> (Some (Inl (CE_Error e)), s1)
                           | Inr v \<Rightarrow>
                               (case kd_append new db of
                                  (Inl e, db2) \<Rightarrow> (Some (Inl (CE_Error e)), s1\<lparr>au_keys := db2\<rparr>)
                                | (Inr _, db2) \<Rightarrow>
                                    (case key_reg_calls N [(i, Some v)] (s1\<lparr>au_keys := db2\<rparr>) of
                                       (Inl e, s2) \<Rightarrow> (Some (Inl e), s2)
                                     | (Inr _, s2) \<Rightarrow> (Some (Inr new), s2)))))))"

definition auth_key :: "auth_env \<Rightarrow> string payload \<Rightarrow> auth_service \<Rightarrow> acl_data answer \<times> auth_service" where
  "auth_key N p s =
     with_params p s (\<lambda>k.
       (case kd_get_by_k k (au_keys s) of
          None \<Rightarrow> Inl (CE_Error EAccess)
        | Some key \<Rightarrow> map_sum CE_Error id (va_acl_format N (ak_acls key) (Some (ak_id key))), s))"

datatype hash_algo = AlgoSha256 | AlgoSha512 | AlgoPbkdf2

definition password_hash ::
    "auth_env \<Rightarrow> (eva_value \<times> hash_algo) payload \<Rightarrow> auth_service \<Rightarrow> string answer \<times> auth_service" where
  "password_hash N p s =
     with_params p s (\<lambda>(pw, algo).
       (let plain = va_display N pw; C = va_crypto N
        in case algo of
             AlgoSha256 \<Rightarrow> (Inr (password_to_string C (new_sha256 C plain)), s)
           | AlgoSha512 \<Rightarrow> (Inr (password_to_string C (new_sha512 C plain)), s)
           | AlgoPbkdf2 \<Rightarrow>
               (map_sum CE_Error (password_to_string C) (new_pbkdf2 C (va_seed N (au_draws s)) plain),
                s\<lparr>au_draws := Suc (au_draws s)\<rparr>)))"

subsection \<open>Calls on users\<close>

definition user_list :: "auth_env \<Rightarrow> (bool \<times> bool) payload \<Rightarrow> auth_service \<Rightarrow> user_info list answer \<times> auth_service" where
  "user_list N p s =
     (case p of
        Payload (Inl e) \<Rightarrow> (Inl (CE_Error e), s)
      | NoPayload \<Rightarrow> (Inr (map (to_info (va_crypto N) False False) (list_objects us_login (au_users s))), s)
      | Payload (Inr (full, with_password)) \<Rightarrow>
          (Inr (map (to_info (va_crypto N) full with_password) (list_objects us_login (au_users s))), s))"

definition valid_login :: "string \<Rightarrow> bool" where
  "valid_login l \<longleftrightarrow> \<not> str_starts_with l ''.'' \<and> valid_id l"

definition user_deploy :: "auth_env \<Rightarrow> user list payload \<Rightarrow> auth_service \<Rightarrow> unit answer \<times> auth_service" where
  "user_deploy N p s =
     with_params p s (\<lambda>new.
       if \<not> list_all (\<lambda>u. valid_login (us_login u)) new then (Inl (CE_Error EInvalidData), s)
       else
         (case deploy_objects (va_user_value N) us_login new (au_users s) of
            (Inl e, m) \<Rightarrow> (Inl (CE_Error e), s\<lparr>au_users := m\<rparr>)
          | (Inr keys, m) \<Rightarrow> user_reg_calls N keys (s\<lparr>au_users := m\<rparr>)))"

datatype user_or_login = UserFull user | UserLogin string

fun user_or_login_str :: "user_or_login \<Rightarrow> string" where
  "user_or_login_str (UserFull u) = us_login u"
| "user_or_login_str (UserLogin l) = l"

definition user_undeploy :: "auth_env \<Rightarrow> user_or_login list payload \<Rightarrow> auth_service \<Rightarrow> unit answer \<times> auth_service" where
  "user_undeploy N p s =
     with_params p s (\<lambda>xs.
       (let (ids, m) = undeploy_objects us_login (map user_or_login_str xs) (au_users s)
        in user_reg_calls N (map (\<lambda>i. (i, None)) ids) (s\<lparr>au_users := m\<rparr>)))"

definition user_get_profile_field ::
    "(string \<times> profile_field) payload \<Rightarrow> auth_service \<Rightarrow> eva_value option answer \<times> auth_service" where
  "user_get_profile_field p s =
     with_params p s (\<lambda>(i, field). (map_sum id (\<lambda>u. get_field field (us_profile u)) (get_object i (au_users s)), s))"

text \<open>A change of a user: memory first, then the registry; the message only where the code sends one.\<close>

definition user_store :: "auth_env \<Rightarrow> bool \<Rightarrow> string \<Rightarrow> user \<Rightarrow> auth_service \<Rightarrow> unit answer \<times> auth_service" where
  "user_store N announce i u s =
     (let s1 = s\<lparr>au_users := hm_insert i u (au_users s)\<rparr>
      in case va_user_value N u of
           Inl e \<Rightarrow> (Inl (CE_Error e), s1)
         | Inr v \<Rightarrow>
             (case reg_put (va_reg N) (''user/'' @ i) (Some v) (au_reg s1) of
                (Inl e, g) \<Rightarrow> (Inl (CE_Error e), s1\<lparr>au_reg := g\<rparr>)
              | (Inr _, g) \<Rightarrow>
                  (Inr (), s1\<lparr>au_reg := (if announce then reg_send (va_user_topic N @ i) (Some v) g else g)\<rparr>)))"

definition user_set_profile_field ::
    "auth_env \<Rightarrow> (string \<times> profile_field \<times> eva_value) payload \<Rightarrow> auth_service \<Rightarrow> unit answer \<times> auth_service" where
  "user_set_profile_field N p s =
     with_params p s (\<lambda>(i, field, val).
       (case hm_get (au_users s) i of
          None \<Rightarrow> (Inl (CE_Error ENotFound), s)
        | Some u \<Rightarrow> user_store N False i (u\<lparr>us_profile := set_field (va_display N) field val (us_profile u)\<rparr>) s))"

definition user_get_config :: "string payload \<Rightarrow> auth_service \<Rightarrow> user answer \<times> auth_service" where
  "user_get_config p s = with_params p s (\<lambda>i. (get_object i (au_users s), s))"

definition user_export :: "string payload \<Rightarrow> auth_service \<Rightarrow> user list answer \<times> auth_service" where
  "user_export p s = with_params p s (\<lambda>i. (export_objects us_login i (au_users s), s))"

definition user_destroy :: "auth_env \<Rightarrow> string payload \<Rightarrow> auth_service \<Rightarrow> unit answer \<times> auth_service" where
  "user_destroy N p s =
     with_params p s (\<lambda>i.
       if hm_contains (au_users s) i then user_reg_calls N [(i, None)] (s\<lparr>au_users := hm_remove i (au_users s)\<rparr>)
       else (Inl (CE_Error ENotFound), s))"

record params_id_pass =
  pi_i :: string
  pi_password :: string
  pi_check_policy :: bool

definition user_set_password :: "auth_env \<Rightarrow> params_id_pass payload \<Rightarrow> auth_service \<Rightarrow> unit answer \<times> auth_service" where
  "user_set_password N p s =
     with_params p s (\<lambda>q.
       if pi_password q = [] then (Inl (CE_Error EInvalidData), s)
       else
         (case (if pi_check_policy q then policy_check (au_policy s) (pi_password q) else Inr ()) of
            Inl e \<Rightarrow> (Inl (CE_Error e), s)
          | Inr _ \<Rightarrow>
              (case hm_get (au_users s) (pi_i q) of
                 None \<Rightarrow> (Inl (CE_Error ENotFound), s)
               | Some u \<Rightarrow>
                   (let s1 = s\<lparr>au_draws := Suc (au_draws s)\<rparr>
                    in case new_pbkdf2 (va_crypto N) (va_seed N (au_draws s)) (pi_password q) of
                         Inl e \<Rightarrow> (Inl (CE_Error e), s1)
                       | Inr pw \<Rightarrow> user_store N True (pi_i q) (u\<lparr>us_password := pw\<rparr>) s1))))"

subsection \<open>One-time users\<close>

text \<open>The loop that looks for a free login: a random string each time, until one is vacant. One-time users
  that are not enabled are refused as unsupported (\<open>ENotImplemented\<close>).\<close>

definition ot_login_of :: "string option \<Rightarrow> string \<Rightarrow> string" where
  "ot_login_of login r = (case login of Some l \<Rightarrow> l @ ''.'' @ r | None \<Rightarrow> r)"

partial_function (option) ot_find_login ::
    "auth_env \<Rightarrow> string option \<Rightarrow> (string, one_time_user) hmap \<Rightarrow> nat \<Rightarrow> (string result \<times> nat) option" where
  "ot_find_login N login ots k =
     Option.bind (draw N k 16) (\<lambda>r.
       if \<not> is_ok r then Some (r, Suc k)
       else if hm_contains ots (ot_login_of login (projr r)) then ot_find_login N login ots (Suc k)
       else Some (Inr (ot_login_of login (projr r)), Suc k))"

definition ot_create ::
    "auth_env \<Rightarrow> nat \<Rightarrow> string \<Rightarrow> string list \<Rightarrow> nat \<Rightarrow> (one_time_user \<times> string) result option" where
  "ot_create N now login acls k =
     (case draw N k 16 of
        None \<Rightarrow> None
      | Some (Inl e) \<Rightarrow> Some (Inl e)
      | Some (Inr plain) \<Rightarrow>
          Some (Inr (\<lparr>ot_created = now,
             ot_user = Some \<lparr>us_login = login, us_password = new_sha256 (va_crypto N) plain, us_acls = acls,
                             us_profile = \<lparr>up_email = None, up_phone = None\<rparr>\<rparr>\<rparr>, plain)))"

definition user_create_one_time ::
    "auth_env \<Rightarrow> nat \<Rightarrow> (string option \<times> string list) payload \<Rightarrow> auth_service \<Rightarrow>
     (string \<times> string) answer option \<times> auth_service" where
  "user_create_one_time N now p s =
     (case p of
        NoPayload \<Rightarrow> (Some (Inl CE_Params), s)
      | Payload (Inl e) \<Rightarrow> (Some (Inl (CE_Error e)), s)
      | Payload (Inr (login, acls)) \<Rightarrow>
          if au_one_time_expires s = None then (Some (Inl (CE_Error ENotImplemented)), s)
          else
            (case ot_find_login N login (au_one_time s) (au_draws s) of
               None \<Rightarrow> (None, s)
             | Some (Inl e, k) \<Rightarrow> (Some (Inl (CE_Error e)), s\<lparr>au_draws := k\<rparr>)
             | Some (Inr l, k) \<Rightarrow>
                 (let s1 = s\<lparr>au_draws := Suc k\<rparr>
                  in case ot_create N now l acls k of
                       None \<Rightarrow> (None, s1)
                     | Some (Inl e) \<Rightarrow> (Some (Inl (CE_Error e)), s1)
                     | Some (Inr (o1, plain)) \<Rightarrow>
                         (Some (Inr (ONE_TIME_USER_PREFIX @ l, plain)),
                          s1\<lparr>au_one_time := hm_insert l o1 (au_one_time s1)\<rparr>))))"

subsection \<open>Authentication\<close>

record params_auth =
  pa_login :: string
  pa_password :: string
  pa_xopts :: "(string, eva_value) hmap option"
  pa_externally_verified :: bool

definition otp_of :: "params_auth \<Rightarrow> eva_value option" where
  "otp_of q = (case pa_xopts q of Some x \<Rightarrow> hm_get x ''otp'' | None \<Rightarrow> None)"

text \<open>Who the user is: the access lists and whether the account is a one-time account.\<close>

definition auth_identify ::
    "auth_env \<Rightarrow> params_auth \<Rightarrow> auth_service \<Rightarrow> (string list \<times> bool) result \<times> auth_service" where
  "auth_identify N q s =
     (case strip_prefix ONE_TIME_USER_PREFIX (pa_login q) of
        Some l \<Rightarrow>
          (case hm_get (au_one_time s) l of
             None \<Rightarrow> (Inl EAccess, s)
           | Some o1 \<Rightarrow>
               (let (r, o2) = ot_get_acls (va_crypto N) (pa_password q) o1
                in (map_sum id (\<lambda>acls. (acls, True)) r, s\<lparr>au_one_time := hm_insert l o2 (au_one_time s)\<rparr>)))
      | None \<Rightarrow>
          (case hm_get (au_users s) (pa_login q) of
             None \<Rightarrow> (Inl EAccess, s)
           | Some u \<Rightarrow>
               if pa_externally_verified q then (Inr (us_acls u, False), s)
               else
                 (case verify_password (va_crypto N) (us_password u) (pa_password q) of
                    Inl e \<Rightarrow> (Inl e, s)
                  | Inr ok \<Rightarrow> (if ok then Inr (us_acls u, False) else Inl EAccess, s))))"

definition auth_user :: "auth_env \<Rightarrow> params_auth payload \<Rightarrow> auth_service \<Rightarrow> acl_data answer \<times> auth_service" where
  "auth_user N p s =
     with_params p s (\<lambda>q.
       (case auth_identify N q s of
          (Inl e, s1) \<Rightarrow> (Inl (CE_Error e), s1)
        | (Inr (acls, one_time), s1) \<Rightarrow>
            (case (if \<not> one_time \<and> \<not> pa_externally_verified q \<and> au_otp_svc s then va_otp_check N (pa_login q) (otp_of q)
                   else Inr ()) of
               Inl e \<Rightarrow> (Inl (CE_Error e), s1)
             | Inr _ \<Rightarrow> (map_sum CE_Error id (va_acl_format N acls None), s1))))"

definition reset_user :: "auth_env \<Rightarrow> params_auth payload \<Rightarrow> auth_service \<Rightarrow> unit answer \<times> auth_service" where
  "reset_user N p s =
     with_params p s (\<lambda>q.
       if str_starts_with (pa_login q) ONE_TIME_USER_PREFIX then (Inl (CE_Error EAccess), s)
       else
         (case hm_get (au_users s) (pa_login q) of
            None \<Rightarrow> (Inl (CE_Error EAccess), s)
          | Some u \<Rightarrow>
              (case verify_password (va_crypto N) (us_password u) (pa_password q) of
                 Inl e \<Rightarrow> (Inl (CE_Error e), s)
               | Inr False \<Rightarrow> (Inl (CE_Error EAccess), s)
               | Inr True \<Rightarrow>
                   if \<not> au_otp_svc s then (Inr (), s)
                   else
                     (case va_otp_check N (pa_login q) (otp_of q) of
                        Inl e \<Rightarrow> (Inl (CE_Error e), s)
                      | Inr _ \<Rightarrow>
                          (case va_otp_destroy N (pa_login q) of
                             Inr _ \<Rightarrow> (Inr (), s)
                           | Inl e \<Rightarrow> if e \<noteq> ENotFound then (Inl (CE_Error e), s) else (Inr (), s))))))"

subsection \<open>The start\<close>

fun load_keys :: "auth_env \<Rightarrow> (string \<times> eva_value) list \<Rightarrow> key_db \<Rightarrow> key_db result" where
  "load_keys N [] db = Inr db"
| "load_keys N ((k, v) # rest) db =
     (case va_key_of N v of
        Inl e \<Rightarrow> Inl e
      | Inr key \<Rightarrow> (case kd_append key db of (Inl e, _) \<Rightarrow> Inl e | (Inr _, db1) \<Rightarrow> load_keys N rest db1))"

fun load_users :: "auth_env \<Rightarrow> (string \<times> eva_value) list \<Rightarrow> (string, user) hmap \<Rightarrow> (string, user) hmap result" where
  "load_users N [] users = Inr users"
| "load_users N ((k, v) # rest) users =
     (case va_user_of N v of
        Inl e \<Rightarrow> Inl e
      | Inr u \<Rightarrow> load_users N rest (hm_insert (us_login u) u users))"

definition auth_load :: "auth_env \<Rightarrow> registry \<Rightarrow> (key_db \<times> (string, user) hmap) result" where
  "auth_load N g =
     (case load_keys N (reg_list ''key/'' g) \<lparr>kd_by_id = [], kd_by_k = []\<rparr> of
        Inl e \<Rightarrow> Inl e
      | Inr db \<Rightarrow> (case load_users N (reg_list ''user/'' g) [] of Inl e \<Rightarrow> Inl e | Inr users \<Rightarrow> Inr (db, users)))"

subsection \<open>The dispatch\<close>

datatype auth_call =
    AC_KeyList "unit payload" | AC_KeyDeploy "api_key list payload" | AC_KeyUndeploy "key_or_id list payload"
  | AC_KeyGetConfig "string payload" | AC_KeyExport "string payload" | AC_KeyGet "string payload"
  | AC_KeyDestroy "string payload" | AC_KeyRegenerate "string payload" | AC_AuthKey "string payload"
  | AC_PasswordHash "(eva_value \<times> hash_algo) payload" | AC_UserList "(bool \<times> bool) payload"
  | AC_UserDeploy "user list payload" | AC_UserUndeploy "user_or_login list payload"
  | AC_UserGetProfileField "(string \<times> profile_field) payload"
  | AC_UserSetProfileField "(string \<times> profile_field \<times> eva_value) payload" | AC_UserGetConfig "string payload"
  | AC_UserExport "string payload" | AC_UserDestroy "string payload" | AC_UserSetPassword "params_id_pass payload"
  | AC_UserCreateOneTime nat "(string option \<times> string list) payload" | AC_ResetUser "params_auth payload"
  | AC_AuthUser "params_auth payload" | AC_Cleanup nat

text \<open>The state after a call; \<open>AC_Cleanup\<close> is a run of the cleaner of expired one-time users.\<close>

definition auth_step :: "auth_env \<Rightarrow> auth_call \<Rightarrow> auth_service \<Rightarrow> auth_service" where
  "auth_step N call s =
     (case call of
        AC_KeyList p \<Rightarrow> snd (key_list p s)
      | AC_KeyDeploy p \<Rightarrow> snd (key_deploy N p s)
      | AC_KeyUndeploy p \<Rightarrow> snd (key_undeploy N p s)
      | AC_KeyGetConfig p \<Rightarrow> snd (key_get_config p s)
      | AC_KeyExport p \<Rightarrow> snd (key_export p s)
      | AC_KeyGet p \<Rightarrow> snd (key_get p s)
      | AC_KeyDestroy p \<Rightarrow> snd (key_destroy N p s)
      | AC_KeyRegenerate p \<Rightarrow> snd (key_regenerate N p s)
      | AC_AuthKey p \<Rightarrow> snd (auth_key N p s)
      | AC_PasswordHash p \<Rightarrow> snd (password_hash N p s)
      | AC_UserList p \<Rightarrow> snd (user_list N p s)
      | AC_UserDeploy p \<Rightarrow> snd (user_deploy N p s)
      | AC_UserUndeploy p \<Rightarrow> snd (user_undeploy N p s)
      | AC_UserGetProfileField p \<Rightarrow> snd (user_get_profile_field p s)
      | AC_UserSetProfileField p \<Rightarrow> snd (user_set_profile_field N p s)
      | AC_UserGetConfig p \<Rightarrow> snd (user_get_config p s)
      | AC_UserExport p \<Rightarrow> snd (user_export p s)
      | AC_UserDestroy p \<Rightarrow> snd (user_destroy N p s)
      | AC_UserSetPassword p \<Rightarrow> snd (user_set_password N p s)
      | AC_UserCreateOneTime now p \<Rightarrow> snd (user_create_one_time N now p s)
      | AC_ResetUser p \<Rightarrow> snd (reset_user N p s)
      | AC_AuthUser p \<Rightarrow> snd (auth_user N p s)
      | AC_Cleanup now \<Rightarrow>
          (case au_one_time_expires s of Some expires \<Rightarrow> clear_one_time_users expires now s | None \<Rightarrow> s))"

end
