(* ===== verification/Svc_Auth_Laws.thy ===== *)
theory Svc_Auth_Laws
  imports Svc_Auth
begin

text \<open>
  What the local authentication service guarantees: its two indexes of the keys agree after every
  call, so that exactly the registered keys authenticate; users and one-time users authenticate with their password
  only; a restart brings the users back; the session of a user has the access lists of the user, as the access list service
  combines them.
\<close>

subsection \<open>The indexes of the keys\<close>

definition kd_ok :: "key_db \<Rightarrow> bool" where
  "kd_ok db \<longleftrightarrow> hm_wf (kd_by_id db) \<and> hm_wf (kd_by_k db) \<and>
     (\<forall>i a. hm_get (kd_by_id db) i = Some a \<longrightarrow> ak_id a = i \<and> hm_get (kd_by_k db) (ak_key a) = Some a) \<and>
     (\<forall>k a. hm_get (kd_by_k db) k = Some a \<longrightarrow> ak_key a = k \<and> hm_get (kd_by_id db) (ak_id a) = Some a)"

lemma kd_okD:
  assumes "kd_ok db"
  shows "hm_wf (kd_by_id db)" "hm_wf (kd_by_k db)"
    "hm_get (kd_by_id db) i = Some a \<Longrightarrow> ak_id a = i" "hm_get (kd_by_id db) i = Some a \<Longrightarrow> hm_get (kd_by_k db) (ak_key a) = Some a"
    "hm_get (kd_by_k db) k = Some a \<Longrightarrow> ak_key a = k" "hm_get (kd_by_k db) k = Some a \<Longrightarrow> hm_get (kd_by_id db) (ak_id a) = Some a"
  using assms by (auto simp: kd_ok_def)

lemma kd_okI:
  assumes "hm_wf m" and "hm_wf n" and "\<And>i a. hm_get m i = Some a \<Longrightarrow> ak_id a = i \<and> hm_get n (ak_key a) = Some a"
    and "\<And>k a. hm_get n k = Some a \<Longrightarrow> ak_key a = k \<and> hm_get m (ak_id a) = Some a"
  shows "kd_ok \<lparr>kd_by_id = m, kd_by_k = n\<rparr>"
  unfolding kd_ok_def key_db.simps using assms by blast

lemma kd_ok_empty: "kd_ok \<lparr>kd_by_id = [], kd_by_k = []\<rparr>"
  by (simp add: kd_ok_def)

lemma kd_remove_ok:
  assumes "kd_ok db"
  shows "kd_ok (snd (kd_remove i db))" and "fst (kd_remove i db) = hm_get (kd_by_id db) i"
    and "hm_get (kd_by_id (snd (kd_remove i db))) j = (if j = i then None else hm_get (kd_by_id db) j)"
proof -
  note d = kd_okD [OF assms]
  show "kd_ok (snd (kd_remove i db))"
  proof (cases "hm_get (kd_by_id db) i")
    case (Some key)
    note key = d(3) [OF Some] d(4) [OF Some]
    have by_id: "ak_id a = j \<and> hm_get (hm_remove (ak_key key) (kd_by_k db)) (ak_key a) = Some a"
      if "hm_get (hm_remove i (kd_by_id db)) j = Some a" for j a
    proof -
      have a: "hm_get (kd_by_id db) j = Some a" "j \<noteq> i" using that d(1) by (auto simp: hm_laws split: if_splits)
      have "ak_key a \<noteq> ak_key key" using d(3) [OF a(1)] d(4) [OF a(1)] key a(2) by (metis option.inject)
      then show ?thesis using d(3) [OF a(1)] d(4) [OF a(1)] d(2) by (simp add: hm_laws)
    qed
    have by_k: "ak_key a = k \<and> hm_get (hm_remove i (kd_by_id db)) (ak_id a) = Some a"
      if "hm_get (hm_remove (ak_key key) (kd_by_k db)) k = Some a" for k a
    proof -
      have a: "hm_get (kd_by_k db) k = Some a" "k \<noteq> ak_key key" using that d(2) by (auto simp: hm_laws split: if_splits)
      have "ak_id a \<noteq> i" using d(5) [OF a(1)] d(6) [OF a(1)] Some a(2) by auto
      then show ?thesis using d(5) [OF a(1)] d(6) [OF a(1)] d(1) by (simp add: hm_laws)
    qed
    show ?thesis
      using kd_okI [OF hm.wf_remove [OF d(1)] hm.wf_remove [OF d(2)] by_id by_k] Some by (simp add: kd_remove_def)
  qed (simp add: kd_remove_def assms)
qed (use kd_okD(1) [OF assms] in \<open>auto simp: kd_remove_def hm_laws split: option.split\<close>)

lemma kd_append_ok:
  assumes "kd_ok db" and "hm_get (kd_by_id db) (ak_id key) = None" and "kd_append key db = (r, db')"
  shows "kd_ok db'" and "r = Inl EBusy \<and> db' = db \<and> hm_get (kd_by_k db) (ak_key key) \<noteq> None \<or>
    r = Inr () \<and> hm_get (kd_by_k db) (ak_key key) = None \<and> kd_by_id db' = hm_insert (ak_id key) key (kd_by_id db)"
proof -
  note d = kd_okD [OF assms(1)]
  have "kd_ok db' \<and> (r = Inl EBusy \<and> db' = db \<and> hm_get (kd_by_k db) (ak_key key) \<noteq> None \<or>
    r = Inr () \<and> hm_get (kd_by_k db) (ak_key key) = None \<and> kd_by_id db' = hm_insert (ak_id key) key (kd_by_id db))"
  proof (cases "hm_get (kd_by_k db) (ak_key key)")
    case (Some k)
    then have "ak_id key \<noteq> ak_id k" using d(6) [OF Some] assms(2) by auto
    then show ?thesis using assms Some by (auto simp: kd_append_def)
  next
    case None
    have by_id: "ak_id a = j \<and> hm_get (hm_insert (ak_key key) key (kd_by_k db)) (ak_key a) = Some a"
      if "hm_get (hm_insert (ak_id key) key (kd_by_id db)) j = Some a" for j a
      using that d(1,2) d(3,4) [of j a] None by (auto simp: hm_laws split: if_splits)
    have by_k: "ak_key a = k \<and> hm_get (hm_insert (ak_id key) key (kd_by_id db)) (ak_id a) = Some a"
      if "hm_get (hm_insert (ak_key key) key (kd_by_k db)) k = Some a" for k a
      using that d(1,2) d(5,6) [of k a] assms(2) by (auto simp: hm_laws split: if_splits)
    have "db' = \<lparr>kd_by_id = hm_insert (ak_id key) key (kd_by_id db), kd_by_k = hm_insert (ak_key key) key (kd_by_k db)\<rparr>" "r = Inr ()"
      using None assms(3) by (simp_all add: kd_append_def)
    then show ?thesis
      using kd_okI [OF hm.wf_insert [OF d(1)] hm.wf_insert [OF d(2)] by_id by_k] None by simp
  qed
  then show "kd_ok db'" and "r = Inl EBusy \<and> db' = db \<and> hm_get (kd_by_k db) (ak_key key) \<noteq> None \<or>
    r = Inr () \<and> hm_get (kd_by_k db) (ak_key key) = None \<and> kd_by_id db' = hm_insert (ak_id key) key (kd_by_id db)" by auto
qed

lemma deploy_keys_ok:
  assumes "kd_ok db"
  shows "kd_ok (snd (deploy_keys N keys db))"
  using assms
proof (induction keys arbitrary: db)
  case (Cons key keys)
  let ?db1 = "snd (kd_remove (ak_id key) db)"
  obtain r db2 where a: "kd_append key ?db1 = (r, db2)" by fastforce
  have "kd_ok ?db1" "hm_get (kd_by_id ?db1) (ak_id key) = None" using kd_remove_ok [OF Cons.prems] by auto
  then have "kd_ok ?db1" "kd_ok db2" using kd_append_ok(1) [OF _ _ a] by blast+
  then show ?case using Cons.IH [of db2] a by (auto simp: Let_def split: sum.split prod.split)
qed simp

lemma undeploy_keys_ok:
  assumes "kd_ok db"
  shows "kd_ok (snd (undeploy_keys ids db))"
  using assms
proof (induction ids arbitrary: db)
  case (Cons i ids)
  show ?case using Cons.IH [OF kd_remove_ok(1) [OF Cons.prems, of i]] by (auto split: prod.split option.split)
qed simp

lemma key_reg_calls_fields [simp]:
  "au_keys (snd (key_reg_calls N keys s)) = au_keys s" "au_users (snd (key_reg_calls N keys s)) = au_users s"
  "au_one_time (snd (key_reg_calls N keys s)) = au_one_time s"
  by (simp_all add: key_reg_calls_def case_prod_unfold Let_def)

lemma user_reg_calls_fields [simp]:
  "au_keys (snd (user_reg_calls N keys s)) = au_keys s" "au_users (snd (user_reg_calls N keys s)) = au_users s"
  "au_one_time (snd (user_reg_calls N keys s)) = au_one_time s"
  by (simp_all add: user_reg_calls_def case_prod_unfold Let_def)

lemma with_params_snd: "snd (with_params p s k) = (case p of Payload (Inr v) \<Rightarrow> snd (k v) | _ \<Rightarrow> s)"
  by (simp add: with_params_def split: payload.split sum.split)

lemma user_store_fields [simp]:
  "au_keys (snd (user_store N b i u s)) = au_keys s" "au_one_time (snd (user_store N b i u s)) = au_one_time s"
  "au_users (snd (user_store N b i u s)) = hm_insert i u (au_users s)"
  by (auto simp: user_store_def Let_def split: sum.split prod.split)

lemma identify_keys: "au_keys (snd (auth_identify N q s)) = au_keys s" "au_users (snd (auth_identify N q s)) = au_users s"
  by (auto simp: auth_identify_def Let_def case_prod_unfold split: option.split sum.split)

text \<open>The calls on keys; all others leave the keys as they are.\<close>

definition key_call :: "auth_call \<Rightarrow> bool" where
  "key_call call = (case call of AC_KeyDeploy _ \<Rightarrow> True | AC_KeyUndeploy _ \<Rightarrow> True | AC_KeyDestroy _ \<Rightarrow> True
     | AC_KeyRegenerate _ \<Rightarrow> True | _ \<Rightarrow> False)"

lemma other_calls_keys:
  assumes "\<not> key_call call"
  shows "au_keys (auth_step N call s) = au_keys s"
proof -
  have "au_keys (snd (user_create_one_time N now p s)) = au_keys s" for now p
    by (auto simp: user_create_one_time_def Let_def split: payload.split sum.split option.split prod.split)
  moreover have "au_keys (snd (auth_user N p s)) = au_keys s" for p
    using identify_keys(1) [of N _ s]
    by (auto simp: auth_user_def with_params_def split: payload.split sum.split prod.split) (metis snd_conv)+
  moreover have "au_keys (snd (reset_user N p s)) = au_keys s" for p
    by (auto simp: reset_user_def with_params_def split: payload.split sum.split option.split bool.split)
  moreover have "au_keys (snd (user_set_password N p s)) = au_keys s" for p
    by (auto simp: user_set_password_def with_params_def Let_def split: payload.split sum.split option.split)
  moreover have "au_keys (snd (user_deploy N p s)) = au_keys s" for p
    by (auto simp: user_deploy_def with_params_def split: payload.split sum.split prod.split)
  ultimately show ?thesis
    using assms
    by (cases call) (simp_all add: key_call_def auth_step_def with_params_snd clear_one_time_users_def key_list_def without_params_def
        key_get_config_def key_export_def key_get_def auth_key_def password_hash_def user_list_def user_undeploy_def
        user_get_profile_field_def user_set_profile_field_def user_get_config_def user_export_def user_destroy_def
        Let_def case_prod_unfold split: payload.split sum.split option.split hash_algo.split)
qed

lemma regenerate_keys_ok:
  assumes "kd_ok (au_keys s)"
  shows "kd_ok (au_keys (snd (key_regenerate N p s)))"
proof (cases "\<exists>i key db. p = Payload (Inr i) \<and> kd_remove i (au_keys s) = (Some key, db)")
  case True
  then obtain i key db where p: "p = Payload (Inr i)" and r: "kd_remove i (au_keys s) = (Some key, db)" by blast
  have db: "kd_ok db" "hm_get (kd_by_id db) i = None" "ak_id key = i"
    using kd_remove_ok [OF assms, of i] r kd_okD(3) [OF assms] by auto
  have append: "kd_ok (snd (kd_append (key\<lparr>ak_key := k\<rparr>) db))" for k
  proof -
    obtain r2 db2 where a: "kd_append (key\<lparr>ak_key := k\<rparr>) db = (r2, db2)" by fastforce
    then show ?thesis using kd_append_ok(1) [OF db(1) _ a] db(2,3) by simp
  qed
  have "au_keys (snd (key_regenerate N p s)) = db \<or> (\<exists>k. au_keys (snd (key_regenerate N p s)) = snd (kd_append (key\<lparr>ak_key := k\<rparr>) db))"
  proof (cases "draw N (au_draws s) 32")
    case (Some d)
    show ?thesis
    proof (cases d)
      case (Inr k)
      obtain r2 db2 where a: "kd_append (key\<lparr>ak_key := k\<rparr>) db = (r2, db2)" by fastforce
      show ?thesis
        by (cases "va_key_value N (key\<lparr>ak_key := k\<rparr>)"; cases r2)
          (auto simp: key_regenerate_def p r Some Inr a Let_def case_prod_unfold intro: exI [of _ k] split: sum.split)
    qed (simp add: key_regenerate_def p r Some)
  qed (simp add: key_regenerate_def p r)
  then show ?thesis using db(1) append by auto
next
  case False
  then show ?thesis using assms by (auto simp: key_regenerate_def split: payload.split sum.split prod.split option.split)
qed

lemma step_keys_ok:
  assumes "kd_ok (au_keys s)"
  shows "kd_ok (au_keys (auth_step N call s))"
proof (cases "key_call call")
  case True
  have "kd_ok (au_keys (snd (key_deploy N p s)))" for p
    using assms deploy_keys_ok [OF assms, of N]
    by (auto simp: key_deploy_def with_params_snd split: payload.split sum.split prod.split) (metis snd_conv)+
  moreover have "kd_ok (au_keys (snd (key_undeploy N p s)))" for p
    using assms undeploy_keys_ok [OF assms]
    by (auto simp: key_undeploy_def with_params_snd Let_def case_prod_unfold split: payload.split sum.split)
  moreover have "kd_ok (au_keys (snd (key_destroy N p s)))" for p
    using assms kd_remove_ok(1) [OF assms]
    by (auto simp: key_destroy_def with_params_snd split: payload.split sum.split prod.split option.split) (metis snd_conv)+
  ultimately show ?thesis using True regenerate_keys_ok [OF assms] by (cases call) (simp_all add: key_call_def auth_step_def)
qed (simp add: other_calls_keys assms)

lemma run_keys_ok:
  assumes "kd_ok (au_keys s)"
  shows "kd_ok (au_keys (fold (auth_step N) calls s))"
  using assms by (induction calls arbitrary: s) (simp_all add: step_keys_ok)

text \<open>
  C13: exactly the registered keys authenticate. Whatever calls the service handled, failed ones included, a key
  authenticates with its value, as itself and with its own access lists; a value of no registered key is
  refused, and a key that is destroyed is refused from then on.
\<close>

theorem registered_keys_authenticate:
  assumes "kd_ok (au_keys s)" and "s' = fold (auth_step N) calls s"
  shows "(kd_get i (au_keys s') = Some a \<longrightarrow>
      fst (auth_key N (Payload (Inr (ak_key a))) s') = map_sum CE_Error id (va_acl_format N (ak_acls a) (Some i)) \<and>
      fst (auth_key N (Payload (Inr (ak_key a))) (snd (key_destroy N (Payload (Inr i)) s'))) = Inl (CE_Error EAccess)) \<and>
    ((\<forall>j b. kd_get j (au_keys s') = Some b \<longrightarrow> ak_key b \<noteq> v) \<longrightarrow>
      fst (auth_key N (Payload (Inr v)) s') = Inl (CE_Error EAccess))"
proof -
  have ok: "kd_ok (au_keys s')" using run_keys_ok [OF assms(1)] assms(2) by simp
  note d = kd_okD [OF ok]
  have "fst (auth_key N (Payload (Inr (ak_key a))) s') = map_sum CE_Error id (va_acl_format N (ak_acls a) (Some i)) \<and>
      fst (auth_key N (Payload (Inr (ak_key a))) (snd (key_destroy N (Payload (Inr i)) s'))) = Inl (CE_Error EAccess)"
    if "kd_get i (au_keys s') = Some a"
  proof -
    have a: "hm_get (kd_by_id (au_keys s')) i = Some a" using that by (simp add: kd_get_def)
    have "au_keys (snd (key_destroy N (Payload (Inr i)) s')) =
        \<lparr>kd_by_id = hm_remove i (kd_by_id (au_keys s')), kd_by_k = hm_remove (ak_key a) (kd_by_k (au_keys s'))\<rparr>"
      by (simp add: key_destroy_def with_params_def kd_remove_def a)
    then show ?thesis
      using d(2) d(3) [OF a] d(4) [OF a] by (simp add: auth_key_def with_params_def kd_get_by_k_def hm.get_remove)
  qed
  moreover have "fst (auth_key N (Payload (Inr v)) s') = Inl (CE_Error EAccess)"
    if none: "\<forall>j b. kd_get j (au_keys s') = Some b \<longrightarrow> ak_key b \<noteq> v"
  proof (cases "hm_get (kd_by_k (au_keys s')) v")
    case (Some b)
    then show ?thesis using none d(5) [OF Some] d(6) [OF Some] by (simp add: kd_get_def)
  qed (simp add: auth_key_def with_params_def kd_get_by_k_def)
  ultimately show ?thesis by blast
qed

text \<open>An environment for evaluation: objects are serialized field by field.\<close>

definition wit_names :: "string list \<Rightarrow> eva_value" where
  "wit_names xs = VSeq (map VString xs)"

fun wit_string :: "eva_value \<Rightarrow> string" where
  "wit_string (VString x) = x"
| "wit_string _ = []"

fun wit_bytes :: "eva_value \<Rightarrow> byte_array" where
  "wit_bytes (VBytes b) = b"
| "wit_bytes _ = []"

fun wit_opt :: "eva_value \<Rightarrow> string option" where
  "wit_opt (VString x) = Some x"
| "wit_opt _ = None"

definition wit_opt_value :: "string option \<Rightarrow> eva_value" where
  "wit_opt_value x = (case x of Some y \<Rightarrow> VString y | None \<Rightarrow> VUnit)"

fun wit_names_of :: "eva_value \<Rightarrow> string list" where
  "wit_names_of (VSeq xs) = map wit_string xs"
| "wit_names_of _ = []"

fun wit_password_value :: "password \<Rightarrow> eva_value" where
  "wit_password_value (Sha256 h) = VSeq [VUnit, VBytes h]"
| "wit_password_value (Sha512 h) = VSeq [VBytes h]"
| "wit_password_value (Pbkdf2 salt h) = VSeq [VBytes salt, VBytes h]"

fun wit_password_of :: "eva_value \<Rightarrow> password" where
  "wit_password_of (VSeq [VUnit, VBytes h]) = Sha256 h"
| "wit_password_of (VSeq [VBytes h]) = Sha512 h"
| "wit_password_of (VSeq [VBytes salt, VBytes h]) = Pbkdf2 salt h"
| "wit_password_of _ = Sha256 []"

definition wit_key_value :: "api_key \<Rightarrow> eva_value" where
  "wit_key_value k = VSeq [VString (ak_id k), VString (ak_key k), wit_names (ak_acls k)]"

fun wit_key_of :: "eva_value \<Rightarrow> api_key result" where
  "wit_key_of (VSeq [i, k, acls]) = Inr \<lparr>ak_id = wit_string i, ak_key = wit_string k, ak_acls = wit_names_of acls\<rparr>"
| "wit_key_of _ = Inl EInvalidData"

definition wit_user_value :: "user \<Rightarrow> eva_value" where
  "wit_user_value u = VSeq [VString (us_login u), wit_password_value (us_password u), wit_names (us_acls u),
     wit_opt_value (up_email (us_profile u)), wit_opt_value (up_phone (us_profile u))]"

fun wit_user_of :: "eva_value \<Rightarrow> user result" where
  "wit_user_of (VSeq [l, pw, acls, e, ph]) = Inr \<lparr>us_login = wit_string l, us_password = wit_password_of pw,
     us_acls = wit_names_of acls, us_profile = \<lparr>up_email = wit_opt e, up_phone = wit_opt ph\<rparr>\<rparr>"
| "wit_user_of _ = Inl EInvalidData"

lemma wit_names_of_names [simp]: "wit_names_of (wit_names xs) = xs"
  by (induction xs) (simp_all add: wit_names_def)

lemma wit_opt_of_value [simp]: "wit_opt (wit_opt_value x) = x"
  by (simp add: wit_opt_value_def split: option.split)

lemma wit_password_of_value [simp]: "wit_password_of (wit_password_value p) = p"
  by (cases p) simp_all

lemma wit_objects: "wit_key_of (wit_key_value k) = Inr k" "wit_user_of (wit_user_value u) = Inr u"
  by (simp_all add: wit_key_value_def wit_user_value_def)

definition wit_auth :: auth_env where
  "wit_auth = \<lparr>va_crypto = wit_crypto, va_key_value = (\<lambda>k. Inr (wit_key_value k)), va_key_of = wit_key_of,
     va_user_value = (\<lambda>u. Inr (wit_user_value u)), va_user_of = wit_user_of, va_reg = (\<lambda>_. Inr ()), va_key_topic = ''k'',
     va_user_topic = ''u'', va_seed = (\<lambda>n. n), va_display = wit_string, va_otp_check = (\<lambda>_ _. Inr ()),
     va_otp_destroy = (\<lambda>_. Inr ()), va_acl_format = (\<lambda>acls key. Inr acl_data_default)\<rparr>"

definition wit_policy :: password_policy where
  "wit_policy = \<lparr>min_length = 0, required_letter = False, required_mixed_case = False, required_number = False\<rparr>"

definition wit_auth_service :: auth_service where
  "wit_auth_service = \<lparr>au_keys = \<lparr>kd_by_id = [], kd_by_k = []\<rparr>, au_users = [], au_one_time = [], au_one_time_expires = Some 10,
     au_policy = wit_policy, au_otp_svc = True, au_reg = \<lparr>rg_store = [], rg_calls = 0, rg_tx = []\<rparr>, au_draws = 0\<rparr>"

definition wit_api_key :: api_key where
  "wit_api_key = \<lparr>ak_id = ''a'', ak_key = ''secret'', ak_acls = [''x'']\<rparr>"

theorem registered_keys_authenticate_witness:
  "fst (auth_key wit_auth (Payload (Inr ''secret''))
     (fold (auth_step wit_auth) [AC_KeyDeploy (Payload (Inr [wit_api_key]))] wit_auth_service)) = Inr acl_data_default"
proof -
  let ?s = "fold (auth_step wit_auth) [AC_KeyDeploy (Payload (Inr [wit_api_key]))] wit_auth_service"
  have "kd_ok (au_keys wit_auth_service)" by (simp add: wit_auth_service_def kd_ok_empty)
  moreover have "kd_get ''a'' (au_keys ?s) = Some wit_api_key"
    by (simp add: auth_step_def key_deploy_def with_params_def valid_id_def char_class_defs wit_api_key_def wit_auth_def wit_auth_service_def
        kd_remove_def kd_append_def kd_get_def hm_laws Let_def)
  ultimately show ?thesis
    using registered_keys_authenticate [of wit_auth_service ?s wit_auth "[AC_KeyDeploy (Payload (Inr [wit_api_key]))]" "''a''" wit_api_key]
    by (simp add: wit_api_key_def) (simp add: wit_auth_def)
qed

subsection \<open>Authentication of users\<close>

lemma strip_prefix_Some: "strip_prefix p s = Some t \<longleftrightarrow> s = p @ t"
  by (auto simp: strip_prefix_def str_starts_with_def) (metis append_take_drop_id)

lemma identify_result:
  assumes "auth_identify N q s = (Inr (acls, one_time), s1)"
  shows "(one_time \<and> (\<exists>l o1 u. pa_login q = ONE_TIME_USER_PREFIX @ l \<and> hm_get (au_one_time s) l = Some o1 \<and> ot_user o1 = Some u \<and>
        verify_password (va_crypto N) (us_password u) (pa_password q) = Inr True \<and> acls = us_acls u \<and>
        s1 = s\<lparr>au_one_time := hm_insert l (o1\<lparr>ot_user := None\<rparr>) (au_one_time s)\<rparr>)) \<or>
    (\<not> one_time \<and> s1 = s \<and> strip_prefix ONE_TIME_USER_PREFIX (pa_login q) = None \<and>
      (\<exists>u. hm_get (au_users s) (pa_login q) = Some u \<and> acls = us_acls u \<and>
        (pa_externally_verified q \<or> verify_password (va_crypto N) (us_password u) (pa_password q) = Inr True)))"
proof (cases "strip_prefix ONE_TIME_USER_PREFIX (pa_login q)")
  case None
  then show ?thesis using assms by (auto simp: auth_identify_def split: option.splits sum.splits if_splits)
next
  case (Some l)
  then obtain o1 u where o1: "hm_get (au_one_time s) l = Some o1" "ot_user o1 = Some u"
    using assms by (auto simp: auth_identify_def ot_get_acls_def split: option.splits)
  then have "verify_password (va_crypto N) (us_password u) (pa_password q) = Inr True" "one_time" "acls = us_acls u"
    "s1 = s\<lparr>au_one_time := hm_insert l (o1\<lparr>ot_user := None\<rparr>) (au_one_time s)\<rparr>"
    using assms Some by (auto simp: auth_identify_def ot_get_acls_def split: sum.splits bool.splits)
  then show ?thesis using o1 Some by (auto simp: strip_prefix_Some)
qed

lemma auth_user_session:
  assumes "auth_user N (Payload (Inr q)) s = (Inr d, s')"
  obtains acls one_time where "auth_identify N q s = (Inr (acls, one_time), s')" and "va_acl_format N acls None = Inr d"
    and "\<not> one_time \<and> \<not> pa_externally_verified q \<and> au_otp_svc s \<longrightarrow> va_otp_check N (pa_login q) (otp_of q) = Inr ()"
proof -
  obtain r s1 where i: "auth_identify N q s = (r, s1)" by fastforce
  obtain acls one_time where r: "r = Inr (acls, one_time)"
    using assms i by (cases r) (auto simp: auth_user_def with_params_def)
  define otp where "otp = (if \<not> one_time \<and> \<not> pa_externally_verified q \<and> au_otp_svc s then va_otp_check N (pa_login q) (otp_of q) else Inr ())"
  have call: "auth_user N (Payload (Inr q)) s =
      (case otp of Inl e \<Rightarrow> (Inl (CE_Error e), s1) | Inr _ \<Rightarrow> (map_sum CE_Error id (va_acl_format N acls None), s1))"
    unfolding otp_def by (simp add: auth_user_def with_params_def i r)
  have o: "otp = Inr ()" and f: "map_sum CE_Error id (va_acl_format N acls None) = Inr d" and s1: "s' = s1"
    using assms call by (cases otp; simp)+
  have "va_acl_format N acls None = Inr d" using f by (cases "va_acl_format N acls None") auto
  moreover have "\<not> one_time \<and> \<not> pa_externally_verified q \<and> au_otp_svc s \<longrightarrow> va_otp_check N (pa_login q) (otp_of q) = Inr ()"
    using o unfolding otp_def by metis
  ultimately show thesis using i r s1 that by blast
qed

text \<open>
  C12: a user authenticates only with the password. If a request is answered with a session, then the account is
  a registered user whose password was verified, or who was verified by the caller, and, where one-time passwords
  are configured, whose one-time password was accepted; or it is an unused one-time account, whose password was
  verified and which is used up by it. The session has the access lists of the account, and nothing else changes.
\<close>

theorem auth_user_exact:
  assumes "auth_user N (Payload (Inr q)) s = (Inr d, s')"
  shows "(\<exists>u. hm_get (au_users s) (pa_login q) = Some u \<and> s' = s \<and> va_acl_format N (us_acls u) None = Inr d \<and>
      (pa_externally_verified q \<or>
        verify_password (va_crypto N) (us_password u) (pa_password q) = Inr True \<and>
        (au_otp_svc s \<longrightarrow> va_otp_check N (pa_login q) (otp_of q) = Inr ()))) \<or>
    (\<exists>l o1 u. pa_login q = ONE_TIME_USER_PREFIX @ l \<and> hm_get (au_one_time s) l = Some o1 \<and> ot_user o1 = Some u \<and>
      verify_password (va_crypto N) (us_password u) (pa_password q) = Inr True \<and> va_acl_format N (us_acls u) None = Inr d \<and>
      s' = s\<lparr>au_one_time := hm_insert l (o1\<lparr>ot_user := None\<rparr>) (au_one_time s)\<rparr>)"
proof -
  obtain acls one_time where "auth_identify N q s = (Inr (acls, one_time), s')" "va_acl_format N acls None = Inr d"
    "\<not> one_time \<and> \<not> pa_externally_verified q \<and> au_otp_svc s \<longrightarrow> va_otp_check N (pa_login q) (otp_of q) = Inr ()"
    by (rule auth_user_session [OF assms])
  then show ?thesis using identify_result by blast
qed

definition wit_user :: user where
  "wit_user = \<lparr>us_login = ''john'', us_password = new_sha256 wit_crypto ''letmein'', us_acls = [''x''],
     us_profile = \<lparr>up_email = None, up_phone = None\<rparr>\<rparr>"

definition wit_users :: auth_service where
  "wit_users = wit_auth_service\<lparr>au_users := [(''john'', wit_user)]\<rparr>"

definition wit_params :: params_auth where
  "wit_params = \<lparr>pa_login = ''john'', pa_password = ''letmein'', pa_xopts = None, pa_externally_verified = False\<rparr>"

theorem auth_user_exact_witness:
  "auth_user wit_auth (Payload (Inr wit_params)) wit_users = (Inr acl_data_default, wit_users) \<and>
   verify_password wit_crypto (us_password wit_user) ''letmein'' = Inr True"
proof -
  have a: "auth_user wit_auth (Payload (Inr wit_params)) wit_users = (Inr acl_data_default, wit_users)"
    by (simp add: auth_user_def with_params_def auth_identify_def wit_params_def ONE_TIME_USER_PREFIX_def strip_prefix_def
        str_starts_with_def wit_users_def wit_auth_service_def hm_get_def wit_user_def new_sha256_def wit_auth_def)
  with auth_user_exact [OF a] show ?thesis
    by (auto simp: wit_users_def wit_auth_service_def hm_get_def wit_params_def wit_auth_def ONE_TIME_USER_PREFIX_def)
qed

lemma one_time_attempt:
  assumes "hm_wf (au_one_time s)" and "pa_login q = ONE_TIME_USER_PREFIX @ l" and "s' = snd (auth_user N (Payload (Inr q)) s)"
  shows "hm_wf (au_one_time s')" and "\<forall>o1. hm_get (au_one_time s') l = Some o1 \<longrightarrow> ot_user o1 = None"
    and "\<forall>j. j \<noteq> l \<longrightarrow> hm_get (au_one_time s') j = hm_get (au_one_time s) j"
proof -
  have p: "strip_prefix ONE_TIME_USER_PREFIX (pa_login q) = Some l" using assms(2) by (simp add: strip_prefix_Some)
  have s': "s' = snd (auth_identify N q s)"
    using assms(3) by (auto simp: auth_user_def with_params_def split: prod.split sum.split)
  have "hm_wf (au_one_time s') \<and> (\<forall>o1. hm_get (au_one_time s') l = Some o1 \<longrightarrow> ot_user o1 = None) \<and>
      (\<forall>j. j \<noteq> l \<longrightarrow> hm_get (au_one_time s') j = hm_get (au_one_time s) j)"
    using assms(1) by (auto simp: s' auth_identify_def p ot_get_acls_def hm_laws split: option.split sum.split bool.split)
  then show "hm_wf (au_one_time s')" and "\<forall>o1. hm_get (au_one_time s') l = Some o1 \<longrightarrow> ot_user o1 = None"
    and "\<forall>j. j \<noteq> l \<longrightarrow> hm_get (au_one_time s') j = hm_get (au_one_time s) j" by blast+
qed

text \<open>
  C33: a one-time account is used once. After an attempt to authenticate with it, successful or not, every further
  attempt is refused, whatever other accounts are used in between; their state is not touched.
\<close>

theorem one_time_used_once:
  assumes "hm_wf (au_one_time s)" and "pa_login q = ONE_TIME_USER_PREFIX @ l" and "pa_login q2 = pa_login q"
    and "s' = fold (\<lambda>r s. snd (auth_user N (Payload (Inr r)) s)) rs (snd (auth_user N (Payload (Inr q)) s))"
  shows "fst (auth_user N (Payload (Inr q2)) s') = Inl (CE_Error EAccess)"
proof -
  let ?ok = "\<lambda>s. hm_wf (au_one_time s) \<and> (\<forall>o1. hm_get (au_one_time s) l = Some o1 \<longrightarrow> ot_user o1 = None)"
  have step: "?ok (snd (auth_user N (Payload (Inr r)) t))" if ok: "?ok t" for r t
  proof (cases "strip_prefix ONE_TIME_USER_PREFIX (pa_login r)")
    case (Some k)
    then have k: "pa_login r = ONE_TIME_USER_PREFIX @ k" by (simp add: strip_prefix_Some)
    note a = one_time_attempt [OF conjunct1 [OF ok] k refl, of N]
    show ?thesis using conjunct2 [OF ok] a by (cases "k = l") simp_all
  next
    case None
    have "snd (auth_user N (Payload (Inr r)) t) = t"
      by (simp add: auth_user_def with_params_def auth_identify_def None split: sum.split option.split)
    then show ?thesis using ok by simp
  qed
  have "?ok (fold (\<lambda>r s. snd (auth_user N (Payload (Inr r)) s)) rs t)" if "?ok t" for t
    using that
  proof (induction rs arbitrary: t)
    case (Cons r rs)
    show ?case using Cons.IH [OF step [OF Cons.prems, of r]] by simp
  qed simp
  then have "?ok s'" using one_time_attempt [OF assms(1,2) refl, of N] assms(4) by simp
  moreover have "strip_prefix ONE_TIME_USER_PREFIX (pa_login q2) = Some l" using assms(2,3) by (simp add: strip_prefix_Some)
  ultimately show ?thesis
    by (cases "hm_get (au_one_time s') l") (simp_all add: auth_user_def with_params_def auth_identify_def ot_get_acls_def)
qed

definition wit_one_time :: auth_service where
  "wit_one_time = wit_auth_service\<lparr>au_one_time := [(''abc'', \<lparr>ot_created = 0, ot_user = Some wit_user\<rparr>)]\<rparr>"

theorem one_time_used_once_witness:
  "fst (auth_user wit_auth (Payload (Inr (wit_params\<lparr>pa_login := ''OT.abc''\<rparr>)))
     (snd (auth_user wit_auth (Payload (Inr (wit_params\<lparr>pa_login := ''OT.abc''\<rparr>))) wit_one_time))) = Inl (CE_Error EAccess)"
  using one_time_used_once [of wit_one_time "wit_params\<lparr>pa_login := ''OT.abc''\<rparr>" "''abc''" "wit_params\<lparr>pa_login := ''OT.abc''\<rparr>" _
      wit_auth "[]", OF _ _ _ refl]
  by (simp add: wit_one_time_def wit_auth_service_def hm_wf_def ONE_TIME_USER_PREFIX_def)

text \<open>
  The expiration of a one-time account is looked at by the cleaner only: until its next run an expired account
  authenticates.
\<close>

theorem expired_account_accepted:
  assumes "hm_get (au_one_time s) l = Some o1" and "ot_user o1 = Some u" and "\<not> ot_is_valid expires now o1"
    and "verify_password (va_crypto N) (us_password u) (pa_password q) = Inr True" and "pa_login q = ONE_TIME_USER_PREFIX @ l"
  shows "fst (auth_user N (Payload (Inr q)) s) = map_sum CE_Error id (va_acl_format N (us_acls u) None)"
  using assms strip_prefix_Some [of ONE_TIME_USER_PREFIX "pa_login q" l]
  by (simp add: auth_user_def with_params_def auth_identify_def ot_get_acls_def)

text \<open>
  A deployment of keys that fails because of a value in use has already removed the previous key with the same
  identifier from memory, and the registry still has it.
\<close>

theorem failed_deploy_drops_key:
  assumes "kd_ok (au_keys s)" and "kd_get i (au_keys s) = Some a" and "kd_get j (au_keys s) = Some b" and "i \<noteq> j"
    and "valid_id i" and "is_ok (va_key_value N (a\<lparr>ak_key := ak_key b\<rparr>))"
  shows "fst (key_deploy N (Payload (Inr [a\<lparr>ak_key := ak_key b\<rparr>])) s) = Inl (CE_Error EBusy) \<and>
    kd_get i (au_keys (snd (key_deploy N (Payload (Inr [a\<lparr>ak_key := ak_key b\<rparr>])) s))) = None \<and>
    au_reg (snd (key_deploy N (Payload (Inr [a\<lparr>ak_key := ak_key b\<rparr>])) s)) = au_reg s"
proof -
  note d = kd_okD [OF assms(1)]
  have a: "hm_get (kd_by_id (au_keys s)) i = Some a" and b: "hm_get (kd_by_id (au_keys s)) j = Some b"
    using assms(2,3) by (simp_all add: kd_get_def)
  obtain v where v: "va_key_value N (a\<lparr>ak_key := ak_key b\<rparr>) = Inr v" using assms(6) by (cases "va_key_value N (a\<lparr>ak_key := ak_key b\<rparr>)") auto
  have ids: "ak_id a = i" "ak_id b = j" using d(3) [OF a] d(3) [OF b] .
  have ne: "ak_key b \<noteq> ak_key a" using d(4) [OF a] d(4) [OF b] ids assms(4) by (metis option.inject)
  have "hm_get (hm_remove (ak_key a) (kd_by_k (au_keys s))) (ak_key b) = Some b"
    using d(2) d(4) [OF b] ne by (simp add: hm.get_remove)
  then show ?thesis
    using assms(4,5) v ids d(1) a
    by (simp add: key_deploy_def with_params_def kd_remove_def kd_append_def kd_get_def Let_def hm.get_remove)
qed

subsection \<open>A restart\<close>

abbreviation users_synced :: "auth_env \<Rightarrow> (string, user) hmap \<Rightarrow> (string, eva_value) hmap \<Rightarrow> bool" where
  "users_synced N \<equiv> synced ''user/'' us_login (va_user_value N)"

lemma reg_stores:
  assumes "\<forall>n. va_reg N n = Inr ()"
  shows "rg_store (au_reg (snd (key_reg_calls N keys s))) = reg_apply ''key/'' keys (rg_store (au_reg s))"
    and "rg_store (au_reg (snd (user_reg_calls N keys s))) = reg_apply ''user/'' keys (rg_store (au_reg s))"
  using reg_calls_effect(2) [OF assms] by (simp_all add: key_reg_calls_def user_reg_calls_def case_prod_unfold Let_def)

lemma synced_keys:
  assumes "users_synced N users store"
  shows "users_synced N users (reg_apply ''key/'' keys store)"
proof (rule synced_other [OF assms])
  show "hm_wf (reg_apply ''key/'' keys store)" by (rule reg_apply_wf [OF syncedD(2) [OF assms]])
  show "hm_get (reg_apply ''key/'' keys store) (''user/'' @ k) = hm_get store (''user/'' @ k)" for k
    using reg_apply_other [OF _ syncedD(2) [OF assms], of "''key/''" "''user/'' @ k" keys] by simp
qed

lemma store_synced:
  assumes "\<forall>n. va_reg N n = Inr ()" and "is_ok (va_user_value N u)" and "us_login u = i"
    and "users_synced N (au_users s) (rg_store (au_reg s))" and "s' = snd (user_store N b i u s)"
  shows "users_synced N (au_users s') (rg_store (au_reg s'))"
proof -
  obtain v where v: "va_user_value N u = Inr v" using assms(2) by (cases "va_user_value N u") auto
  then have "rg_store (au_reg s') = hm_insert (''user/'' @ i) v (rg_store (au_reg s))"
    using assms(5) reg_put_effect [OF assms(1), of "''user/'' @ i" "Some v" "au_reg s"]
    by (auto simp: user_store_def reg_send_def Let_def split: prod.split sum.split)
  then show ?thesis using synced_insert [OF assms(4) v] assms(3,5) by simp
qed

lemma step_synced:
  assumes ser: "\<forall>u. is_ok (va_user_value N u)" and reg: "\<forall>n. va_reg N n = Inr ()"
    and s: "users_synced N (au_users s) (rg_store (au_reg s))"
  shows "users_synced N (au_users (auth_step N call s)) (rg_store (au_reg (auth_step N call s)))"
proof -
  let ?ok = "\<lambda>s'. users_synced N (au_users s') (rg_store (au_reg s'))"
  note stores = reg_stores [OF reg] and keys = synced_keys [OF s]
  have deploy: "?ok (snd (user_deploy N p s))" for p
  proof -
    have "\<exists>keys m. deploy_objects (va_user_value N) us_login new (au_users s) = (Inr keys, m) \<and>
        users_synced N m (reg_apply ''user/'' keys (rg_store (au_reg s)))" for new
      using deploy_synced [OF _ s, of new] ser by blast
    then show ?thesis
      using s by (auto simp: user_deploy_def with_params_snd stores split: payload.split sum.split prod.split) (metis Inl_Inr_False Pair_inject sum.inject(2))+
  qed
  have undeploy: "?ok (snd (user_undeploy N p s))" for p
    using s undeploy_synced [OF s]
    by (auto simp: user_undeploy_def with_params_snd stores split: payload.split sum.split prod.split)
  have destroy: "?ok (snd (user_destroy N p s))" for p
    using s synced_remove [OF s]
    by (auto simp: user_destroy_def with_params_snd stores reg_apply_def split: payload.split sum.split)
  have profile: "?ok (snd (user_set_profile_field N p s))" for p
  proof -
    have "?ok (snd (user_store N False i (u\<lparr>us_profile := f\<rparr>) s))" if "hm_get (au_users s) i = Some u" for i u f
      by (rule store_synced [OF reg _ _ s refl]) (use syncedD(3) [OF s that] ser in simp_all)
    then show ?thesis
      using s by (auto simp: user_set_profile_field_def with_params_snd split: payload.split sum.split option.split)
  qed
  have pass: "?ok (snd (user_set_password N p s))" for p
  proof -
    have "?ok (snd (user_store N True i (u\<lparr>us_password := pw\<rparr>) (s\<lparr>au_draws := k\<rparr>)))" if "hm_get (au_users s) i = Some u" for i u pw k
      by (rule store_synced [OF reg _ _ _ refl]) (use s syncedD(3) [OF s that] ser in simp_all)
    then show ?thesis
      using s by (auto simp: user_set_password_def with_params_snd Let_def split: payload.split sum.split option.split)
  qed
  have key: "?ok (snd (key_deploy N p s))" for p
    using s keys by (auto simp: key_deploy_def with_params_snd stores split: payload.split sum.split prod.split)
  have unkey: "?ok (snd (key_undeploy N p s))" for p
    using s keys by (auto simp: key_undeploy_def with_params_snd stores split: payload.split sum.split prod.split)
  have keydestroy: "?ok (snd (key_destroy N p s))" for p
    using s keys by (auto simp: key_destroy_def with_params_snd stores split: payload.split sum.split prod.split option.split)
  have regen: "?ok (snd (key_regenerate N p s))" for p
  proof -
    have "?ok s2" if "key_reg_calls N ks t = (r, s2)" "au_users t = au_users s" "au_reg t = au_reg s" for ks t r s2
      using that keys stores(1) [of ks t] key_reg_calls_fields(2) [of N ks t] by simp
    then show ?thesis
      using s by (auto simp: key_regenerate_def Let_def split: payload.split sum.split option.split prod.split)
  qed
  have one: "?ok (snd (user_create_one_time N now p s))" for now p
    using s by (auto simp: user_create_one_time_def Let_def split: payload.split sum.split option.split prod.split)
  have auth: "?ok (snd (auth_user N p s))" for p
  proof -
    have "?ok (snd (auth_identify N q s))" for q
      using s by (auto simp: auth_identify_def Let_def case_prod_unfold split: option.split sum.split)
    then show ?thesis
      using s by (auto simp: auth_user_def with_params_snd split: payload.split sum.split prod.split) (metis snd_conv)+
  qed
  have "?ok (snd (reset_user N p s))" for p
    using s by (auto simp: reset_user_def with_params_snd split: payload.split sum.split option.split bool.split)
  then show ?thesis
    using s deploy undeploy destroy profile pass key unkey keydestroy regen one auth
    by (cases call) (simp_all add: auth_step_def with_params_snd clear_one_time_users_def key_list_def without_params_def
        key_get_config_def key_export_def key_get_def auth_key_def password_hash_def user_list_def
        user_get_profile_field_def user_get_config_def user_export_def Let_def case_prod_unfold
        split: payload.split sum.split option.split hash_algo.split)
qed

lemma load_users_result:
  assumes "\<forall>(k, v) \<in> set reg. va_user_of N v = Inr (f v) \<and> us_login (f v) = k" and "hm_wf reg" and "hm_wf users"
  shows "\<exists>m. load_users N reg users = Inr m \<and>
    (\<forall>k. hm_get m k = (case hm_get reg k of Some v \<Rightarrow> Some (f v) | None \<Rightarrow> hm_get users k))"
  using assms
proof (induction reg arbitrary: users)
  case (Cons e reg)
  obtain j v where e: "e = (j, v)" by (cases e)
  have w: "hm_wf reg" "hm_get reg j = None" using Cons.prems(2) e by (simp_all add: hm_wf_def hm_get_def map_of_eq_None_iff)
  from Cons.IH [OF _ w(1) hm.wf_insert [OF Cons.prems(3)], of j "f v"] Cons.prems(1) obtain m where
    m: "load_users N reg (hm_insert j (f v) users) = Inr m"
      "\<forall>k. hm_get m k = (case hm_get reg k of Some v \<Rightarrow> Some (f v) | None \<Rightarrow> hm_get (hm_insert j (f v) users) k)"
    by auto
  have "hm_get (e # reg) k = (if k = j then Some v else hm_get reg k)" for k by (simp add: hm_get_def e)
  then show ?case using m w(2) Cons.prems(1,3) by (auto simp: e hm_laws split: option.split)
qed simp



subsection \<open>The session of a user\<close>

text \<open>The access list service as the one that is called.\<close>

definition acl_format_rpc :: "acl_service \<Rightarrow> string list \<Rightarrow> string option \<Rightarrow> acl_data result" where
  "acl_format_rpc t acls key =
     (case fst (acl_format (Payload (Inr (Multiple acls, key))) t) of
        Inr d \<Rightarrow> Inr d
      | Inl (CE_Error e) \<Rightarrow> Inl e
      | Inl _ \<Rightarrow> Inl EInvalidParams)"

definition account_of :: "params_auth \<Rightarrow> auth_service \<Rightarrow> user option" where
  "account_of q s =
     (case strip_prefix ONE_TIME_USER_PREFIX (pa_login q) of
        Some l \<Rightarrow> Option.bind (hm_get (au_one_time s) l) ot_user
      | None \<Rightarrow> hm_get (au_users s) (pa_login q))"

definition session :: "auth_env \<Rightarrow> auth_service \<Rightarrow> string list \<Rightarrow> acl_data \<Rightarrow> bool" where
  "session N s acls d \<longleftrightarrow>
     (\<exists>q u. fst (auth_user N (Payload (Inr q)) s) = Inr d \<and> account_of q s = Some u \<and> acls = us_acls u) \<or>
     (\<exists>k key. fst (auth_key N (Payload (Inr k)) s) = Inr d \<and> kd_get_by_k k (au_keys s) = Some key \<and> acls = ak_acls key)"

lemma session_format:
  assumes "session N s acls d"
  shows "\<exists>key. va_acl_format N acls key = Inr d"
  using assms unfolding session_def
proof
  assume "\<exists>q u. fst (auth_user N (Payload (Inr q)) s) = Inr d \<and> account_of q s = Some u \<and> acls = us_acls u"
  then obtain q u s' where q: "auth_user N (Payload (Inr q)) s = (Inr d, s')" "account_of q s = Some u" "acls = us_acls u"
    by (metis prod.collapse)
  obtain acls2 one_time where a: "auth_identify N q s = (Inr (acls2, one_time), s')" "va_acl_format N acls2 None = Inr d"
    by (rule auth_user_session [OF q(1)])
  have "acls2 = us_acls u"
    using a(1) q(2) by (auto simp: auth_identify_def account_of_def ot_get_acls_def split: option.splits sum.splits bool.splits if_splits)
  then show ?thesis using a(2) q(3) by blast
next
  assume "\<exists>k key. fst (auth_key N (Payload (Inr k)) s) = Inr d \<and> kd_get_by_k k (au_keys s) = Some key \<and> acls = ak_acls key"
  then obtain k key where k: "fst (auth_key N (Payload (Inr k)) s) = Inr d" "kd_get_by_k k (au_keys s) = Some key" "acls = ak_acls key"
    by blast
  then show ?thesis
    by (cases "va_acl_format N acls (Some (ak_id key))") (auto simp: auth_key_def with_params_def)
qed

text \<open>
  C11: what a session may do. When a user, a one-time account or an API key is authenticated and the access lists come
  from the access list service, the session may read and write, is denied and is allowed exactly what some of the
  access lists of the account says, and it is an administrator's exactly if one of them is; a name of a list that does
  not exist gives nothing.
\<close>

theorem session_grants:
  assumes "va_acl_format N = acl_format_rpc t" and "acls_ok (as_acls t)" and "session N s acls d"
    and "A = {a. \<exists>i \<in> set acls. hm_get (as_acls t) i = Some a}"
  shows "ad_admin d = (\<exists>a \<in> A. acl_admin a) \<and> ad_from d = acl_id ` A \<and>
    granted (ad_read d) k = (\<Union>a \<in> A. granted (acl_read a) k) \<and> granted (ad_write d) k = (\<Union>a \<in> A. granted (acl_write a) k) \<and>
    granted (ad_deny_read d) k = (\<Union>a \<in> A. granted (acl_deny_read a) k) \<and>
    granted (ad_deny_write d) k = (\<Union>a \<in> A. granted (acl_deny_write a) k) \<and>
    unwrap_or {} (ad_ops d) = (\<Union>a \<in> A. unwrap_or {} (acl_ops a))"
proof -
  obtain key where "acl_format_rpc t acls key = Inr d" using session_format [OF assms(3)] assms(1) by auto
  then have "fst (acl_format (Payload (Inr (Multiple acls, key))) t) = Inr d"
    by (auto simp: acl_format_rpc_def split: sum.splits call_error.splits)
  then show ?thesis by (rule mp [OF format_grants [OF assms(2,4)]])
qed

theorem session_grants_witness:
  "\<exists>d. fst (auth_user (wit_auth\<lparr>va_acl_format := acl_format_rpc wit_acls\<rparr>) (Payload (Inr wit_params))
      (wit_users\<lparr>au_users := [(''john'', wit_user\<lparr>us_acls := [''b'', ''c'']\<rparr>)]\<rparr>)) = Inr d \<and>
    granted (ad_read d) ''items'' = {VString ''y''}"
proof -
  let ?N = "wit_auth\<lparr>va_acl_format := acl_format_rpc wit_acls\<rparr>" and ?u = "wit_user\<lparr>us_acls := [''b'', ''c'']\<rparr>"
  let ?s = "wit_users\<lparr>au_users := [(''john'', ?u)]\<rparr>"
  have "\<exists>d. fst (acl_format (Payload (Inr (Multiple [''b'', ''c''], None))) wit_acls) = Inr d"
    by (simp add: acl_format_def with_params_def format_data_def format_sources_result wit_acls_def hm_get_def)
  then obtain d where d: "acl_format_rpc wit_acls [''b'', ''c''] None = Inr d" by (auto simp: acl_format_rpc_def)
  have a: "fst (auth_user ?N (Payload (Inr wit_params)) ?s) = Inr d"
    by (simp add: auth_user_def with_params_def auth_identify_def wit_params_def ONE_TIME_USER_PREFIX_def strip_prefix_def
        str_starts_with_def wit_users_def wit_auth_service_def hm_get_def wit_user_def new_sha256_def wit_auth_def d)
  have "account_of wit_params ?s = Some ?u"
    by (simp add: account_of_def wit_params_def ONE_TIME_USER_PREFIX_def strip_prefix_def str_starts_with_def hm_get_def)
  then have s: "session ?N ?s [''b'', ''c''] d"
    unfolding session_def using a by (intro disjI1 exI [of _ wit_params] exI [of _ ?u]) simp
  have A: "{a. \<exists>i \<in> set [''b'', ''c'']. hm_get (as_acls wit_acls) i = Some a} = {wit_acl ''b'' ''y''}"
    by (auto simp: wit_acls_def hm_get_def)
  have N: "va_acl_format ?N = acl_format_rpc wit_acls" by simp
  have "granted (ad_read d) ''items'' = (\<Union>a \<in> {wit_acl ''b'' ''y''}. granted (acl_read a) ''items'')"
    using session_grants [OF N wit_acls_ok s refl, of "''items''", unfolded A] by (elim conjE)
  then have "granted (ad_read d) ''items'' = {VString ''y''}" by (simp add: granted_def wit_acl_def hm_get_def)
  with a show ?thesis by (intro exI conjI)
qed

end
