(* ===== verification/Lm_Opener.thy ===== *)
theory Lm_Opener
  imports Core_Action
begin

text \<open>
  The openers of the logic manager (\<open>svc/controller-lm/src/opener.rs\<close>): the plan that moves a
  valve or a gate, driven by two groups of ports and without position feedback, from one step to
  another. A plan is a sequence of port commands and delays. Durations are in nanoseconds, steps
  (\<open>i8\<close>) are integers.
\<close>

subsection \<open>Durations\<close>

text \<open>A \<open>Duration\<close> holds less than \<open>2 ^ 64\<close> seconds; a sum beyond that panics, which is \<open>None\<close>.\<close>

definition DURATION_LIMIT :: nat where
  "DURATION_LIMIT = 2 ^ 64 * 1000000000"

definition duration_add :: "nat \<Rightarrow> nat \<Rightarrow> nat option" where
  "duration_add a b = (if a + b < DURATION_LIMIT then Some (a + b) else None)"

definition duration_sum :: "nat list \<Rightarrow> nat option" where
  "duration_sum ds = (if sum_list ds < DURATION_LIMIT then Some (sum_list ds) else None)"

fun durations_of :: "f64 list \<Rightarrow> nat list option" where
  "durations_of [] = Some []"
| "durations_of (x # xs) =
     (case duration_from_secs_f64 x of
        None \<Rightarrow> None
      | Some d \<Rightarrow> (case durations_of xs of None \<Rightarrow> None | Some ds \<Rightarrow> Some (d # ds)))"

subsection \<open>Plans\<close>

datatype opener_logic = Ac | Rdc

datatype command = PortOn | PortOff | DPortOn | DPortOff | Delay nat

record plan_config =
  pc_logic :: opener_logic
  pc_steps :: "f64 list"
  pc_warmup_open :: "nat option"
  pc_warmup_close :: "nat option"
  pc_tuning :: "nat option"
  pc_ts :: "int option"
  pc_te :: "int option"

abbreviation end_pos_of :: "plan_config \<Rightarrow> int" where
  "end_pos_of config \<equiv> int (length (pc_steps config))"

definition tune :: "plan_config \<Rightarrow> nat \<Rightarrow> nat option" where
  "tune config delay = (case pc_tuning config of Some tuning \<Rightarrow> duration_add delay tuning | None \<Rightarrow> Some delay)"

definition plan_delay :: "plan_config \<Rightarrow> nat option \<Rightarrow> nat list \<Rightarrow> bool \<Rightarrow> nat option" where
  "plan_delay config warmup moved at_end =
     (case duration_sum moved of
        None \<Rightarrow> None
      | Some d \<Rightarrow>
          (case duration_add (unwrap_or 0 warmup) d of
             None \<Rightarrow> None
           | Some delay \<Rightarrow> if at_end then tune config delay else Some delay))"

text \<open>The arms for going up and for going down.\<close>

definition plan_up :: "plan_config \<Rightarrow> nat list \<Rightarrow> int \<Rightarrow> int \<Rightarrow> command list option" where
  "plan_up config steps current_pos requested_pos =
     (let moved = take (nat (requested_pos - current_pos)) (drop (nat current_pos) steps)
      in case plan_delay config (pc_warmup_open config) moved (requested_pos = end_pos_of config) of
           None \<Rightarrow> None
         | Some delay \<Rightarrow>
             Some ((case pc_logic config of Ac \<Rightarrow> [DPortOn, PortOn] | Rdc \<Rightarrow> [DPortOff, PortOn]) @ [Delay delay, PortOff]))"

definition plan_down :: "plan_config \<Rightarrow> nat list \<Rightarrow> int \<Rightarrow> int \<Rightarrow> command list option" where
  "plan_down config steps current_pos requested_pos =
     (let moved = take (nat (current_pos - requested_pos)) (drop (nat (end_pos_of config - current_pos)) (rev steps))
      in case plan_delay config (pc_warmup_close config) moved (requested_pos = 0) of
           None \<Rightarrow> None
         | Some delay \<Rightarrow>
             Some (case pc_logic config of
                     Ac \<Rightarrow> [DPortOff, PortOn, Delay delay, PortOff]
                   | Rdc \<Rightarrow> [PortOff, DPortOn, Delay delay, DPortOff]))"

text \<open>The tests of the two limits from which a movement goes by way of an end position.\<close>

definition via_end :: "plan_config \<Rightarrow> int \<Rightarrow> bool" where
  "via_end config requested_pos =
     (case pc_te config of Some te \<Rightarrow> te \<le> requested_pos \<and> requested_pos \<noteq> end_pos_of config | None \<Rightarrow> False)"

definition via_start :: "plan_config \<Rightarrow> int \<Rightarrow> bool" where
  "via_start config requested_pos =
     (case pc_ts config of Some ts \<Rightarrow> requested_pos \<le> ts \<and> requested_pos \<noteq> 0 | None \<Rightarrow> False)"

text \<open>
  A plan, an error, or a panic (\<open>None\<close>); plans are appended. The recursion is that of the code:
  the value \<open>None\<close> of the outer option is a generation that does not return.
\<close>

type_synonym planned = "command list result option"

fun plan_of :: "planned \<Rightarrow> command list option" where
  "plan_of (Some (Inr p)) = Some p"
| "plan_of _ = None"

fun plan_add :: "planned \<Rightarrow> planned \<Rightarrow> planned" where
  "plan_add (Some (Inr p)) (Some (Inr q)) = Some (Inr (p @ q))"
| "plan_add (Some (Inr p)) r = r"
| "plan_add r _ = r"

partial_function (option) generate :: "plan_config \<Rightarrow> int \<Rightarrow> int \<Rightarrow> bool \<Rightarrow> planned option" where
  "generate config current_pos requested_pos break_on_status_error =
     (if 127 < end_pos_of config then Some (Some (Inl EFailed))
      else if requested_pos < 0 \<or> current_pos < 0 \<or> end_pos_of config < current_pos \<or> end_pos_of config < requested_pos
      then Some (Some (Inl EFailed))
      else if current_pos < 0 \<and> break_on_status_error then Some (Some (Inl EFailed))
      else if durations_of (pc_steps config) = None then Some None
      else if current_pos = requested_pos then Some (Some (Inr []))
      else if current_pos < requested_pos then
        (if via_end config requested_pos then
           Option.bind (generate config current_pos (end_pos_of config) break_on_status_error) (\<lambda>plan_te.
             if plan_of plan_te = None then Some plan_te
             else Option.bind (generate config (end_pos_of config) requested_pos break_on_status_error)
                    (\<lambda>plan_tgt. Some (plan_add plan_te plan_tgt)))
         else Some (map_option Inr (plan_up config (the (durations_of (pc_steps config))) current_pos requested_pos)))
      else
        (if via_start config requested_pos then
           Option.bind (generate config current_pos 0 break_on_status_error) (\<lambda>plan_ts.
             if plan_of plan_ts = None then Some plan_ts
             else Option.bind (generate config 0 requested_pos break_on_status_error)
                    (\<lambda>plan_tgt. Some (plan_add plan_ts plan_tgt)))
         else Some (map_option Inr (plan_down config (the (durations_of (pc_steps config))) current_pos requested_pos))))"

subsection \<open>The generation returns\<close>

text \<open>The steps are durations, and the longest movements do not exceed what a duration can hold.\<close>

definition plan_safe :: "plan_config \<Rightarrow> nat list \<Rightarrow> bool" where
  "plan_safe config ds \<longleftrightarrow>
     durations_of (pc_steps config) = Some ds \<and> length (pc_steps config) \<le> 127 \<and>
     unwrap_or 0 (pc_warmup_open config) + sum_list ds + unwrap_or 0 (pc_tuning config) < DURATION_LIMIT \<and>
     unwrap_or 0 (pc_warmup_close config) + sum_list ds + unwrap_or 0 (pc_tuning config) < DURATION_LIMIT"

definition step_in :: "plan_config \<Rightarrow> int \<Rightarrow> bool" where
  "step_in config pos \<longleftrightarrow> 0 \<le> pos \<and> pos \<le> end_pos_of config"

lemma durations_length: "durations_of xs = Some ds \<Longrightarrow> length ds = length xs"
  by (induction xs arbitrary: ds) (auto split: option.splits)

lemma plan_safeD:
  assumes "plan_safe config ds"
  shows "durations_of (pc_steps config) = Some ds" and "\<not> 127 < end_pos_of config" and "int (length ds) = end_pos_of config"
  using assms durations_length [of "pc_steps config" ds] by (auto simp: plan_safe_def)

lemma sum_take_drop: "sum_list (take n (drop m xs)) \<le> sum_list (xs :: nat list)"
proof -
  have "sum_list xs = sum_list (take m xs) + sum_list (drop m xs)" by (metis append_take_drop_id sum_list_append)
  moreover have "sum_list (drop m xs) = sum_list (take n (drop m xs)) + sum_list (drop n (drop m xs))"
    by (metis append_take_drop_id sum_list_append)
  ultimately show ?thesis by simp
qed

lemma plan_delay_total:
  assumes "unwrap_or 0 warmup + t + unwrap_or 0 (pc_tuning config) < DURATION_LIMIT" and "sum_list moved \<le> t"
  shows "plan_delay config warmup moved at_end =
    Some (unwrap_or 0 warmup + sum_list moved + (if at_end then unwrap_or 0 (pc_tuning config) else 0))"
  using assms by (cases "pc_tuning config") (auto simp: plan_delay_def duration_sum_def duration_add_def tune_def)

text \<open>What the steps between two positions take.\<close>

definition travel :: "nat list \<Rightarrow> int \<Rightarrow> nat" where
  "travel ds pos = sum_list (take (nat pos) ds)"

lemma travel_up:
  assumes "0 \<le> c" and "c \<le> r"
  shows "travel ds r = travel ds c + sum_list (take (nat (r - c)) (drop (nat c) ds))"
proof -
  have "nat r = nat c + nat (r - c)" using assms by linarith
  then show ?thesis by (simp add: travel_def take_add)
qed

lemma travel_down:
  assumes "0 \<le> r" and "r \<le> c" and "c \<le> int (length ds)"
  shows "travel ds c = travel ds r + sum_list (take (nat (c - r)) (drop (nat (int (length ds) - c)) (rev ds)))"
proof -
  have n: "nat (int (length ds) - c) = length ds - nat c" "nat (c - r) = nat c - nat r" using assms by linarith+
  have "drop (length ds - nat c) (rev ds) = rev (take (nat c) ds)" using assms by (simp add: rev_take)
  then have "take (nat c - nat r) (drop (length ds - nat c) (rev ds)) = rev (drop (nat r) (take (nat c) ds))"
    using assms by (simp add: rev_drop min_absorb2 nat_le_iff)
  moreover have "take (nat r) (take (nat c) ds) = take (nat r) ds" using assms by (simp add: min_absorb1)
  moreover have "sum_list (take (nat c) ds) = sum_list (take (nat r) (take (nat c) ds)) + sum_list (drop (nat r) (take (nat c) ds))"
    by (metis append_take_drop_id sum_list_append)
  ultimately show ?thesis by (simp add: travel_def n sum_list_rev)
qed

lemma travel_mono: "0 \<le> c \<Longrightarrow> c \<le> r \<Longrightarrow> travel ds c \<le> travel ds r"
  using travel_up [of c r ds] by simp

lemma travel_le: "travel ds r \<le> sum_list ds"
  using sum_take_drop [of "nat r" 0 ds] by (simp add: travel_def)

lemma travel_ends [simp]: "travel ds 0 = 0" "travel ds (int (length ds)) = sum_list ds"
  by (simp_all add: travel_def)

lemma plan_up_total:
  assumes "plan_safe config ds" and "step_in config r" and "0 \<le> c" and "c \<le> r"
  shows "plan_up config ds c r =
    Some ((case pc_logic config of Ac \<Rightarrow> [DPortOn, PortOn] | Rdc \<Rightarrow> [DPortOff, PortOn]) @
      [Delay (unwrap_or 0 (pc_warmup_open config) + (travel ds r - travel ds c) +
         (if r = end_pos_of config then unwrap_or 0 (pc_tuning config) else 0)), PortOff])"
  using assms plan_delay_total [of "pc_warmup_open config" "sum_list ds" config "take (nat (r - c)) (drop (nat c) ds)"]
    travel_up [of c r ds] sum_take_drop [of "nat (r - c)" "nat c" ds]
  by (simp add: plan_up_def plan_safe_def Let_def)

lemma plan_down_total:
  assumes "plan_safe config ds" and "step_in config c" and "0 \<le> r" and "r \<le> c"
  shows "plan_down config ds c r =
    Some (let d = Delay (unwrap_or 0 (pc_warmup_close config) + (travel ds c - travel ds r) +
         (if r = 0 then unwrap_or 0 (pc_tuning config) else 0))
      in case pc_logic config of Ac \<Rightarrow> [DPortOff, PortOn, d, PortOff] | Rdc \<Rightarrow> [PortOff, DPortOn, d, DPortOff])"
proof -
  have l: "end_pos_of config = int (length ds)" using plan_safeD(3) [OF assms(1)] by simp
  have "sum_list (take (nat (c - r)) (drop (nat (int (length ds) - c)) (rev ds))) \<le> sum_list ds"
    using sum_take_drop [of _ _ "rev ds"] by (simp add: sum_list_rev)
  then show ?thesis
    using assms plan_delay_total [of "pc_warmup_close config" "sum_list ds" config] travel_down [of r c ds] l
    by (simp add: plan_down_def plan_safe_def step_in_def Let_def del: of_nat_eq_iff)
qed

lemma generate_direct:
  assumes "plan_safe config ds" and "step_in config c" and "step_in config r"
  shows "c = r \<Longrightarrow> generate config c r b = Some (Some (Inr []))"
    and "c < r \<Longrightarrow> \<not> via_end config r \<Longrightarrow> generate config c r b = Some (map_option Inr (plan_up config ds c r))"
    and "r < c \<Longrightarrow> \<not> via_start config r \<Longrightarrow> generate config c r b = Some (map_option Inr (plan_down config ds c r))"
  using assms plan_safeD [OF assms(1)] by (subst generate.simps; simp add: step_in_def)+

lemma generate_by_end:
  assumes "plan_safe config ds" and "step_in config c" and "step_in config r" and "c < r" and "via_end config r"
    and "generate config c (end_pos_of config) b = Some (Some (Inr p))" and "generate config (end_pos_of config) r b = Some (Some (Inr q))"
  shows "generate config c r b = Some (Some (Inr (p @ q)))"
  using assms plan_safeD [OF assms(1)] by (subst generate.simps) (simp add: step_in_def)

lemma generate_by_start:
  assumes "plan_safe config ds" and "step_in config c" and "step_in config r" and "r < c" and "via_start config r"
    and "generate config c 0 b = Some (Some (Inr p))" and "generate config 0 r b = Some (Some (Inr q))"
  shows "generate config c r b = Some (Some (Inr (p @ q)))"
  using assms plan_safeD [OF assms(1)] by (subst generate.simps) (simp add: step_in_def)

lemma via_bounds:
  assumes "step_in config r"
  shows "via_end config r \<Longrightarrow> r < end_pos_of config" and "via_start config r \<Longrightarrow> 0 < r"
    and "\<not> via_end config (end_pos_of config)" and "\<not> via_start config 0"
  using assms by (auto simp: via_end_def via_start_def step_in_def split: option.splits)

lemma generate_some:
  assumes "generate config c r b = Some y"
  shows "plan_safe config ds \<longrightarrow> step_in config c \<longrightarrow> step_in config r \<longrightarrow>
    plan_of y \<noteq> None \<and> (c \<noteq> r \<longrightarrow> \<not> (via_end config r \<and> via_start config r))"
proof (rule generate.raw_induct [OF _ assms], intro impI, goal_cases)
  case (1 f config c r b y)
  have inner: "step_in config (end_pos_of config)" "step_in config 0" by (simp_all add: step_in_def)
  have add: "plan_of (plan_add p q) \<noteq> None" if "plan_of p \<noteq> None" "plan_of q \<noteq> None" for p q
    using that by (cases "(p, q)" rule: plan_add.cases) auto
  note v = via_bounds [OF 1(5)] and s = plan_safeD [OF 1(3)]
  have valid: "\<not> (r < 0 \<or> c < 0 \<or> end_pos_of config < c \<or> end_pos_of config < r)" "\<not> (c < 0 \<and> b)"
    using 1(4,5) by (auto simp: step_in_def)
  consider "c = r" | "c < r" "via_end config r" | "c < r" "\<not> via_end config r" | "r < c" "via_start config r"
    | "r < c" "\<not> via_start config r" by linarith
  then show ?case
  proof cases
    case 2
    then obtain p where p: "f config c (end_pos_of config) b = Some p" using 1(2) valid s by (auto split: Option.bind_splits)
    have pp: "plan_of p \<noteq> None" using 1(1) [OF p] 1(3,4) inner by blast
    then obtain q where q: "f config (end_pos_of config) r b = Some q" "y = plan_add p q"
      using 1(2) valid s 2 p by (auto split: Option.bind_splits)
    have "plan_of q \<noteq> None \<and> \<not> (via_end config r \<and> via_start config r)"
      using 1(1) [OF q(1)] 1(3,5) inner v(1) [OF 2(2)] by force
    then show ?thesis using add [OF pp] q(2) by blast
  next
    case 4
    then obtain p where p: "f config c 0 b = Some p" using 1(2) valid s by (auto split: Option.bind_splits)
    have pp: "plan_of p \<noteq> None" using 1(1) [OF p] 1(3,4) inner by blast
    then obtain q where q: "f config 0 r b = Some q" "y = plan_add p q"
      using 1(2) valid s 4 p by (auto split: Option.bind_splits)
    have "plan_of q \<noteq> None \<and> \<not> (via_end config r \<and> via_start config r)"
      using 1(1) [OF q(1)] 1(3,5) inner v(2) [OF 4(2)] by force
    then show ?thesis using add [OF pp] q(2) by blast
  qed (use 1 valid s plan_up_total [OF 1(3,5), of c] plan_down_total [OF 1(3,4), of r] in \<open>auto simp: step_in_def\<close>)
qed

subsection \<open>The drive\<close>

text \<open>
  The drive a plan is made for. With \<open>Ac\<close> the ports are the power and the direct ports the
  direction, with \<open>Rdc\<close> the ports move it up and the direct ports move it down. The shaft starts
  to move when the warm-up is over, needs the time of each step to pass it and stops at its ends.
\<close>

record drive =
  dr_port :: bool
  dr_dport :: bool
  dr_pos :: nat

definition moves_up :: "opener_logic \<Rightarrow> drive \<Rightarrow> bool" where
  "moves_up l d \<longleftrightarrow> dr_port d \<and> (case l of Ac \<Rightarrow> dr_dport d | Rdc \<Rightarrow> \<not> dr_dport d)"

definition moves_down :: "opener_logic \<Rightarrow> drive \<Rightarrow> bool" where
  "moves_down l d \<longleftrightarrow> (case l of Ac \<Rightarrow> dr_port d \<and> \<not> dr_dport d | Rdc \<Rightarrow> \<not> dr_port d \<and> dr_dport d)"

fun run_command :: "plan_config \<Rightarrow> nat \<Rightarrow> command \<Rightarrow> drive \<Rightarrow> drive" where
  "run_command config full PortOn d = d\<lparr>dr_port := True\<rparr>"
| "run_command config full PortOff d = d\<lparr>dr_port := False\<rparr>"
| "run_command config full DPortOn d = d\<lparr>dr_dport := True\<rparr>"
| "run_command config full DPortOff d = d\<lparr>dr_dport := False\<rparr>"
| "run_command config full (Delay t) d =
     (if moves_up (pc_logic config) d then d\<lparr>dr_pos := min full (dr_pos d + (t - unwrap_or 0 (pc_warmup_open config)))\<rparr>
      else if moves_down (pc_logic config) d then d\<lparr>dr_pos := dr_pos d - (t - unwrap_or 0 (pc_warmup_close config))\<rparr>
      else d)"

definition run_plan :: "plan_config \<Rightarrow> nat \<Rightarrow> command list \<Rightarrow> drive \<Rightarrow> drive" where
  "run_plan config full plan d = fold (run_command config full) plan d"

text \<open>At rest at a step; a short circuit is both groups of ports of a reversible drive on.\<close>

definition at_rest :: "plan_config \<Rightarrow> nat list \<Rightarrow> int \<Rightarrow> drive \<Rightarrow> bool" where
  "at_rest config ds pos d \<longleftrightarrow>
     dr_pos d = travel ds pos \<and> \<not> dr_port d \<and> (pc_logic config = Rdc \<longrightarrow> \<not> dr_dport d)"

definition short_circuit :: "opener_logic \<Rightarrow> drive \<Rightarrow> bool" where
  "short_circuit l d \<longleftrightarrow> l = Rdc \<and> dr_port d \<and> dr_dport d"

definition never_short :: "plan_config \<Rightarrow> nat \<Rightarrow> command list \<Rightarrow> drive \<Rightarrow> bool" where
  "never_short config full plan d \<longleftrightarrow> (\<forall>n. \<not> short_circuit (pc_logic config) (run_plan config full (take n plan) d))"

lemma run_plan_append [simp]: "run_plan config full (p @ q) d = run_plan config full q (run_plan config full p d)"
  by (simp add: run_plan_def)

lemma never_short_append:
  assumes "never_short config full p d" and "never_short config full q (run_plan config full p d)"
  shows "never_short config full (p @ q) d"
  unfolding never_short_def
proof
  fix n
  show "\<not> short_circuit (pc_logic config) (run_plan config full (take n (p @ q)) d)"
  proof (cases "n \<le> length p")
    case True
    then show ?thesis using assms(1) by (simp add: never_short_def)
  next
    case False
    then have "take n (p @ q) = p @ take (n - length p) q" by simp
    then show ?thesis using assms(2) by (simp add: never_short_def)
  qed
qed

lemma take_four: "take n [a, b, c, d] \<in> {[], [a], [a, b], [a, b, c], [a, b, c, d]}"
proof -
  consider "n = 0" | "n = 1" | "n = 2" | "n = 3" | "4 \<le> n" by linarith
  then show ?thesis by cases (simp_all add: numeral_2_eq_2 numeral_3_eq_3)
qed

lemma never_short_four:
  assumes "\<And>q. q \<in> {[], [a], [a, b], [a, b, c], [a, b, c, e]} \<Longrightarrow> \<not> short_circuit (pc_logic config) (run_plan config full q d)"
  shows "never_short config full [a, b, c, e] d"
  unfolding never_short_def using assms [OF take_four] by blast

definition good_plan :: "plan_config \<Rightarrow> nat list \<Rightarrow> int \<Rightarrow> int \<Rightarrow> command list \<Rightarrow> bool" where
  "good_plan config ds c r plan \<longleftrightarrow>
     (\<forall>d. at_rest config ds c d \<longrightarrow>
        at_rest config ds r (run_plan config (sum_list ds) plan d) \<and> never_short config (sum_list ds) plan d)"

lemma good_plan_trans: "good_plan config ds a b p \<Longrightarrow> good_plan config ds b c q \<Longrightarrow> good_plan config ds a c (p @ q)"
  by (simp add: good_plan_def never_short_append)

lemma good_plan_up:
  assumes "plan_safe config ds" and "step_in config r" and "0 \<le> c" and "c \<le> r" and "plan_up config ds c r = Some p"
  shows "good_plan config ds c r p"
proof -
  have "min (sum_list ds) (travel ds c + (travel ds r - travel ds c + (if r = end_pos_of config then t else 0))) = travel ds r" for t
    using travel_mono [of c r ds] travel_le [of ds r] assms(2-4) plan_safeD(3) [OF assms(1)] travel_ends(2) [of ds] by auto
  then show ?thesis
    using assms(5) unfolding plan_up_total [OF assms(1-4)] good_plan_def
    by (cases "pc_logic config")
      (auto simp: at_rest_def run_plan_def short_circuit_def moves_up_def add.assoc intro!: never_short_four)
qed

lemma good_plan_down:
  assumes "plan_safe config ds" and "step_in config c" and "0 \<le> r" and "r \<le> c" and "plan_down config ds c r = Some p"
  shows "good_plan config ds c r p"
proof -
  have "travel ds c - (travel ds c - travel ds r + (if r = 0 then t else 0)) = travel ds r" for t
    using travel_mono [of r c ds] assms(3,4) by auto
  then show ?thesis
    using assms(5) unfolding plan_down_total [OF assms(1-4)] good_plan_def
    by (cases "pc_logic config")
      (auto simp: at_rest_def run_plan_def short_circuit_def moves_up_def moves_down_def add.assoc Let_def intro!: never_short_four)
qed

lemma good_plan_direct:
  assumes "plan_safe config ds" and "step_in config c" and "step_in config r"
    and "c < r \<Longrightarrow> \<not> via_end config r" and "r < c \<Longrightarrow> \<not> via_start config r"
  shows "\<exists>p. generate config c r b = Some (Some (Inr p)) \<and> good_plan config ds c r p"
proof -
  have bounds: "0 \<le> c" "0 \<le> r" using assms(2,3) by (simp_all add: step_in_def)
  consider "c = r" | "c < r" | "r < c" by linarith
  then show ?thesis
  proof cases
    case 1
    have "good_plan config ds c r []" using 1 by (auto simp: good_plan_def run_plan_def never_short_def at_rest_def short_circuit_def)
    then show ?thesis using generate_direct(1) [OF assms(1-3) 1] by blast
  next
    case 2
    obtain p where p: "plan_up config ds c r = Some p" using plan_up_total [OF assms(1,3) bounds(1)] 2 by auto
    then show ?thesis
      using generate_direct(2) [OF assms(1-3) 2 assms(4) [OF 2]] good_plan_up [OF assms(1,3) bounds(1) _ p] 2 by auto
  next
    case 3
    obtain p where p: "plan_down config ds c r = Some p" using plan_down_total [OF assms(1,2) bounds(2)] 3 by auto
    then show ?thesis
      using generate_direct(3) [OF assms(1-3) 3 assms(5) [OF 3]] good_plan_down [OF assms(1,2) bounds(2) _ p] 3 by auto
  qed
qed

lemma generate_good:
  assumes "plan_safe config ds" and "step_in config c" and "step_in config r"
    and "c = r \<or> \<not> (via_end config r \<and> via_start config r)"
  shows "\<exists>p. generate config c r b = Some (Some (Inr p)) \<and> good_plan config ds c r p"
proof -
  have inner: "step_in config (end_pos_of config)" "step_in config 0" by (simp_all add: step_in_def)
  note v = via_bounds [OF assms(3)]
  consider "c < r" "via_end config r" | "r < c" "via_start config r" | "c < r \<longrightarrow> \<not> via_end config r" "r < c \<longrightarrow> \<not> via_start config r"
    by linarith
  then show ?thesis
  proof cases
    case 1
    obtain p where p: "generate config c (end_pos_of config) b = Some (Some (Inr p))" "good_plan config ds c (end_pos_of config) p"
      using good_plan_direct [OF assms(1,2) inner(1)] v(3) assms(2) by (auto simp: step_in_def)
    obtain q where q: "generate config (end_pos_of config) r b = Some (Some (Inr q))" "good_plan config ds (end_pos_of config) r q"
      using good_plan_direct [OF assms(1) inner(1) assms(3)] v(1) 1 assms(4) by force
    show ?thesis using generate_by_end [OF assms(1-3) 1 p(1) q(1)] good_plan_trans [OF p(2) q(2)] by blast
  next
    case 2
    obtain p where p: "generate config c 0 b = Some (Some (Inr p))" "good_plan config ds c 0 p"
      using good_plan_direct [OF assms(1,2) inner(2)] v(4) assms(2) by (auto simp: step_in_def)
    obtain q where q: "generate config 0 r b = Some (Some (Inr q))" "good_plan config ds 0 r q"
      using good_plan_direct [OF assms(1) inner(2) assms(3)] v(2) 2 assms(4) by force
    show ?thesis using generate_by_start [OF assms(1-3) 2 p(1) q(1)] good_plan_trans [OF p(2) q(2)] by blast
  next
    case 3
    then show ?thesis using good_plan_direct [OF assms(1-3)] by blast
  qed
qed

text \<open>
  C9: an opener reaches the requested step. If no step lies in both limits, a plan is generated, and
  the drive that is at rest at the current step is at rest at the requested one when the plan was
  executed, whatever the warm-up times, the tuning, the logic and the limits are; and at no moment
  are both groups of ports of a reversible drive on.
\<close>

theorem opener_reaches_step:
  assumes "plan_safe config ds" and "step_in config c" and "step_in config r"
    and "c = r \<or> \<not> (via_end config r \<and> via_start config r)" and "at_rest config ds c d"
  shows "\<exists>plan. generate config c r b = Some (Some (Inr plan)) \<and>
    at_rest config ds r (run_plan config (sum_list ds) plan d) \<and> never_short config (sum_list ds) plan d"
  using generate_good [OF assms(1-4)] assms(5) unfolding good_plan_def by blast

definition wit_opener :: plan_config where
  "wit_opener = \<lparr>pc_logic = Rdc, pc_steps = [Fin 1, Fin 2, Fin 3], pc_warmup_open = Some 5, pc_warmup_close = None,
     pc_tuning = Some 7, pc_ts = Some 1, pc_te = Some 2\<rparr>"

abbreviation wit_secs :: "nat list" where
  "wit_secs \<equiv> [1000000000, 2000000000, 3000000000]"

lemma wit_opener_safe: "plan_safe wit_opener wit_secs"
proof -
  have "round_even 1000000000 = 1000000000" "round_even 2000000000 = 2000000000" "round_even 3000000000 = 3000000000"
    by (simp_all add: round_even_def Let_def)
  then show ?thesis by (simp add: plan_safe_def wit_opener_def duration_from_secs_f64_def DURATION_LIMIT_def)
qed

theorem opener_reaches_step_witness:
  "\<exists>plan. generate wit_opener 0 2 False = Some (Some (Inr plan)) \<and>
    dr_pos (run_plan wit_opener 6000000000 plan \<lparr>dr_port = False, dr_dport = False, dr_pos = 0\<rparr>) = 3000000000"
proof -
  have h: "step_in wit_opener 0" "step_in wit_opener 2" "\<not> via_start wit_opener 2"
    by (simp_all add: step_in_def via_start_def wit_opener_def)
  have r: "at_rest wit_opener wit_secs 0 \<lparr>dr_port = False, dr_dport = False, dr_pos = 0\<rparr>" by (simp add: at_rest_def)
  have t: "travel wit_secs 2 = 3000000000" by (simp add: travel_def numeral_2_eq_2)
  show ?thesis using opener_reaches_step [OF wit_opener_safe h(1,2) _ r, of False] h(3) t by (auto simp: at_rest_def)
qed

text \<open>
  C31: when the generation of a plan returns. For valid steps it returns a plan exactly if the requested
  step is the current one or is not in both limits; if it is in both, the two ways of reaching it call
  each other for ever.
\<close>

theorem generate_returns:
  assumes "plan_safe config ds" and "step_in config c" and "step_in config r"
  shows "((\<exists>plan. generate config c r b = Some (Some (Inr plan))) \<longleftrightarrow> c = r \<or> \<not> (via_end config r \<and> via_start config r)) \<and>
    (generate config c r b = None \<longleftrightarrow> c \<noteq> r \<and> via_end config r \<and> via_start config r)"
proof (cases "c = r \<or> \<not> (via_end config r \<and> via_start config r)")
  case True
  obtain p where "generate config c r b = Some (Some (Inr p))" using generate_good [OF assms True] by blast
  then show ?thesis using True by auto
next
  case False
  then have "generate config c r b = None"
    using generate_some [of config c r b _ ds] assms by (cases "generate config c r b") blast+
  then show ?thesis using False by simp
qed

theorem generate_returns_witness:
  "generate (wit_opener\<lparr>pc_ts := Some 2\<rparr>) 0 2 False = None \<and> (\<exists>plan. generate (wit_opener\<lparr>pc_ts := Some 2\<rparr>) 0 3 False = Some (Some (Inr plan)))"
proof -
  let ?c = "wit_opener\<lparr>pc_ts := Some 2\<rparr>"
  have s: "plan_safe ?c wit_secs" using wit_opener_safe by (simp add: plan_safe_def)
  have "step_in ?c 0" "step_in ?c 2" "step_in ?c 3" "via_end ?c 2" "via_start ?c 2" "\<not> via_end ?c 3"
    by (simp_all add: step_in_def via_start_def via_end_def wit_opener_def)
  then show ?thesis using generate_returns [OF s, of 0 2 False] generate_returns [OF s, of 0 3 False] by simp
qed

text \<open>The option to stop at an unknown position has no effect: an unknown position is refused before it is read.\<close>

theorem break_on_status_error_unused: "generate config c r True = generate config c r False"
proof -
  have "generate config c r b = Some y \<Longrightarrow> generate config c r (\<not> b) = Some y" for b y
    by (rule generate.raw_induct [of "\<lambda>config c r b y. generate config c r (\<not> b) = Some y"])
      (subst generate.simps, auto split: if_splits Option.bind_splits)
  then show ?thesis by (metis (full_types) not_Some_eq)
qed

end
