(* ===== verification/Core_Seq.thy ===== *)
theory Core_Seq
  imports Core_Keeps
begin

text \<open>
  Sequences of actions (\<open>eva/src/seq.rs\<close>). A sequence is a list of delays, actions and groups of
  actions; it stops at the first entry that fails or for which the time is not enough, or when it
  is terminated, and then the actions for the abort are launched. The structures and durations come
  from the \<open>eva_robots\<close> crate; its computed durations, the checks of the remaining time and the moment
  of a termination are the fields of the environment, as is what the other tasks do meanwhile. The
  tasks of a group are run in the order in which they are spawned; what happens between their steps
  is part of the environment of each action. A termination takes effect between the calls of the core.
\<close>

record sequence_action =
  sa_oid :: oid
  sa_params :: "action_params option"
  sa_wait :: nat

datatype sequence_action_entry = SeqSingle sequence_action | SeqMulti "sequence_action list"

datatype sequence_entry = SeqDelay nat | SeqActions sequence_action_entry

record sequence =
  sq_u :: uuid
  sq_seq :: "sequence_entry list"
  sq_timeout :: nat
  sq_on_abort :: "sequence_action_entry option"

datatype stop = StopBefore | StopAfter

record seq_env =
  sv_action :: "nat \<Rightarrow> action_env"
  sv_priority :: "8 word"
  sv_secs :: "nat \<Rightarrow> f64"
  sv_enough :: "nat \<Rightarrow> nat \<Rightarrow> nat \<Rightarrow> unit result"
  sv_join_error :: error
  sv_stop :: "nat \<Rightarrow> stop option"
  sv_max_expected_duration :: "sequence \<Rightarrow> nat"
  sv_abort_timeout :: "sequence \<Rightarrow> nat"
  sv_futs :: "(uuid, nat) hmap \<Rightarrow> (uuid, nat) hmap"

text \<open>The core, the number of launched actions and of time checks, and the table of running sequences.\<close>

record seq_state =
  ss_core :: core
  ss_launched :: nat
  ss_checks :: nat
  ss_futs :: "(uuid, nat) hmap"

text \<open>\<open>None\<close> is a panic of the task.\<close>

definition launch_action_entry ::
    "eva_lib \<Rightarrow> core_env \<Rightarrow> seq_env \<Rightarrow> sequence_action \<Rightarrow> seq_state \<Rightarrow> unit result option \<times> seq_state" where
  "launch_action_entry L E V a s =
     (let (r, c) = core_action L E (sv_action V (ss_launched s)) None (sa_oid a) (sa_params a) (sv_priority V)
            (Some (sv_secs V (sa_wait a))) True (ss_core s)
      in (case r of
            None \<Rightarrow> None
          | Some (Inl e) \<Rightarrow> Some (Inl e)
          | Some (Inr (AL_State ok)) \<Rightarrow> Some (if ok then Inr () else Inl EFailed)
          | Some (Inr _) \<Rightarrow> Some (Inl ECore),
          s\<lparr>ss_core := c, ss_launched := Suc (ss_launched s)\<rparr>))"

fun launch_all ::
    "eva_lib \<Rightarrow> core_env \<Rightarrow> seq_env \<Rightarrow> sequence_action list \<Rightarrow> seq_state \<Rightarrow> unit result option list \<times> seq_state" where
  "launch_all L E V [] s = ([], s)"
| "launch_all L E V (a # batch) s =
     (let (r, s1) = launch_action_entry L E V a s; (rs, s2) = launch_all L E V batch s1 in (r # rs, s2))"

fun join_all :: "seq_env \<Rightarrow> unit result option list \<Rightarrow> bool \<Rightarrow> unit result" where
  "join_all V [] ok = (if ok then Inr () else Inl EFailed)"
| "join_all V (None # futs) ok = Inl (sv_join_error V)"
| "join_all V (Some (Inl e) # futs) ok = join_all V futs False"
| "join_all V (Some (Inr _) # futs) ok = join_all V futs ok"

definition launch_action_sequence_batch ::
    "eva_lib \<Rightarrow> core_env \<Rightarrow> seq_env \<Rightarrow> sequence_action list \<Rightarrow> seq_state \<Rightarrow> unit result \<times> seq_state" where
  "launch_action_sequence_batch L E V batch s = (let (futs, s1) = launch_all L E V batch s in (join_all V futs True, s1))"

definition seq_enough :: "seq_env \<Rightarrow> nat \<Rightarrow> nat \<Rightarrow> seq_state \<Rightarrow> unit result \<times> seq_state" where
  "seq_enough V timeout expected s = (sv_enough V (ss_checks s) timeout expected, s\<lparr>ss_checks := Suc (ss_checks s)\<rparr>)"

text \<open>
  One entry: the result the task goes on with, or \<open>None\<close> if the task panicked.
\<close>

definition run_entry ::
    "eva_lib \<Rightarrow> core_env \<Rightarrow> seq_env \<Rightarrow> nat \<Rightarrow> sequence_entry \<Rightarrow> seq_state \<Rightarrow> unit result option \<times> seq_state" where
  "run_entry L E V timeout entry s =
     (case entry of
        SeqDelay d \<Rightarrow> (let (r, s1) = seq_enough V timeout (d * 1000) s in (Some r, s1))
      | SeqActions (SeqSingle a) \<Rightarrow>
          (case seq_enough V timeout (sa_wait a) s of
             (Inl e, s1) \<Rightarrow> (Some (Inl e), s1)
           | (Inr _, s1) \<Rightarrow> launch_action_entry L E V a s1)
      | SeqActions (SeqMulti actions) \<Rightarrow>
          if actions = [] then (Some (Inr ()), s)
          else
            (case seq_enough V timeout (Max (set (map sa_wait actions))) s of
               (Inl e, s1) \<Rightarrow> (Some (Inl e), s1)
             | (Inr _, s1) \<Rightarrow> (let (r, s2) = launch_action_sequence_batch L E V actions s1 in (Some r, s2))))"

text \<open>What is received from the task: its result, or nothing if it was aborted or panicked.\<close>

fun launch_action_sequence ::
    "eva_lib \<Rightarrow> core_env \<Rightarrow> seq_env \<Rightarrow> nat \<Rightarrow> nat \<Rightarrow> sequence_entry list \<Rightarrow> seq_state \<Rightarrow> unit result option \<times> seq_state" where
  "launch_action_sequence L E V k timeout [] s = (Some (Inr ()), s)"
| "launch_action_sequence L E V k timeout (entry # rest) s =
     (if sv_stop V k = Some StopBefore then (None, s)
      else
        (case run_entry L E V timeout entry s of
           (r, s1) \<Rightarrow>
             if sv_stop V k = Some StopAfter then (None, s1)
             else
               (case r of
                  None \<Rightarrow> (None, s1)
                | Some (Inl e) \<Rightarrow> (Some (Inl e), s1)
                | Some (Inr _) \<Rightarrow> launch_action_sequence L E V (Suc k) timeout rest s1)))"

definition seq_abort ::
    "eva_lib \<Rightarrow> core_env \<Rightarrow> seq_env \<Rightarrow> sequence_action_entry \<Rightarrow> seq_state \<Rightarrow> unit result option \<times> seq_state" where
  "seq_abort L E V entry s =
     (case entry of
        SeqSingle a \<Rightarrow> launch_action_entry L E V a s
      | SeqMulti a \<Rightarrow> (let (r, s1) = launch_action_sequence_batch L E V a s in (Some r, s1)))"

text \<open>The request; \<open>None\<close> is its panic.\<close>

definition seq_failed ::
    "eva_lib \<Rightarrow> core_env \<Rightarrow> seq_env \<Rightarrow> sequence_action_entry option \<Rightarrow> error \<Rightarrow> seq_state \<Rightarrow> unit result option \<times> seq_state" where
  "seq_failed L E V on_abort e s =
     (case on_abort of
        None \<Rightarrow> (Some (Inl e), s)
      | Some b \<Rightarrow>
          (case seq_abort L E V b s of
             (None, s1) \<Rightarrow> (None, s1)
           | (Some (Inl e1), s1) \<Rightarrow> (Some (Inl e1), s1)
           | (Some (Inr _), s1) \<Rightarrow> (Some (Inl e), s1)))"

definition seq_execute :: "eva_lib \<Rightarrow> core_env \<Rightarrow> seq_env \<Rightarrow> sequence \<Rightarrow> seq_state \<Rightarrow> unit result option \<times> seq_state" where
  "seq_execute L E V q s =
     (if sq_timeout q < sv_max_expected_duration V q then (Some (Inl EFailed), s)
      else
        (let s1 = s\<lparr>ss_futs := hm_insert (sq_u q) (sv_abort_timeout V q) (ss_futs s)\<rparr>;
             (r, s2) = launch_action_sequence L E V 0 (sq_timeout q) (sq_seq q) s1;
             s3 = s2\<lparr>ss_futs := hm_remove (sq_u q) (sv_futs V (ss_futs s2))\<rparr>
         in case r of
              Some (Inr _) \<Rightarrow> (Some (Inr ()), s3)
            | Some (Inl e) \<Rightarrow> seq_failed L E V (sq_on_abort q) e s3
            | None \<Rightarrow> seq_failed L E V (sq_on_abort q) EAborted s3))"

definition seq_terminate :: "uuid \<Rightarrow> seq_state \<Rightarrow> unit result \<times> seq_state" where
  "seq_terminate u s =
     (if hm_contains (ss_futs s) u then (Inr (), s\<lparr>ss_futs := hm_remove u (ss_futs s)\<rparr>) else (Inl ENotFound, s))"

text \<open>How long the shutdown waits for the aborts.\<close>

definition seq_shutdown :: "seq_state \<Rightarrow> nat" where
  "seq_shutdown s = fold (\<lambda>w max_timeout. if max_timeout < w then w else max_timeout) (hm_values (ss_futs s)) 0"

subsection \<open>What a sequence launches\<close>

definition actions_of :: "sequence_action_entry \<Rightarrow> sequence_action list" where
  "actions_of e = (case e of SeqSingle a \<Rightarrow> [a] | SeqMulti as \<Rightarrow> as)"

definition entry_actions :: "sequence_entry \<Rightarrow> sequence_action list" where
  "entry_actions entry = (case entry of SeqDelay _ \<Rightarrow> [] | SeqActions e \<Rightarrow> actions_of e)"

text \<open>Two states with the same core and the same number of launched actions, after the given actions.\<close>

definition after_actions :: "eva_lib \<Rightarrow> core_env \<Rightarrow> seq_env \<Rightarrow> sequence_action list \<Rightarrow> seq_state \<Rightarrow> seq_state \<Rightarrow> bool" where
  "after_actions L E V as s s' \<longleftrightarrow>
     ss_core s' = ss_core (snd (launch_all L E V as s)) \<and> ss_launched s' = ss_launched s + length as"

lemma launch_entry_state:
  "ss_futs (snd (launch_action_entry L E V a s)) = ss_futs s"
  "ss_launched (snd (launch_action_entry L E V a s)) = Suc (ss_launched s)"
  "ss_core s = ss_core t \<Longrightarrow> ss_launched s = ss_launched t \<Longrightarrow>
    fst (launch_action_entry L E V a s) = fst (launch_action_entry L E V a t) \<and>
    ss_core (snd (launch_action_entry L E V a s)) = ss_core (snd (launch_action_entry L E V a t))"
  by (simp_all add: launch_action_entry_def split_beta Let_def)

lemma launch_all_state:
  "ss_futs (snd (launch_all L E V as s)) = ss_futs s \<and> ss_launched (snd (launch_all L E V as s)) = ss_launched s + length as"
proof (induction as arbitrary: s)
  case (Cons a as)
  then show ?case using launch_entry_state(1,2) [of L E V a s] by (simp add: split_beta Let_def)
qed simp

lemma launch_all_cong:
  assumes "ss_core s = ss_core t" and "ss_launched s = ss_launched t"
  shows "ss_core (snd (launch_all L E V as s)) = ss_core (snd (launch_all L E V as t)) \<and>
    fst (launch_all L E V as s) = fst (launch_all L E V as t)"
  using assms
proof (induction as arbitrary: s t)
  case (Cons a as)
  let ?s = "snd (launch_action_entry L E V a s)" and ?t = "snd (launch_action_entry L E V a t)"
  have "ss_core ?s = ss_core ?t" "ss_launched ?s = ss_launched ?t"
    using launch_entry_state(3) [OF Cons.prems, of L E V a] Cons.prems(2) by (simp_all add: launch_entry_state(2))
  from Cons.IH [OF this] show ?case using launch_entry_state(3) [OF Cons.prems, of L E V a] by (simp add: split_beta Let_def)
qed simp

lemma launch_all_append:
  "snd (launch_all L E V (as @ bs) s) = snd (launch_all L E V bs (snd (launch_all L E V as s)))"
  "fst (launch_all L E V (as @ bs) s) = fst (launch_all L E V as s) @ fst (launch_all L E V bs (snd (launch_all L E V as s)))"
  by (induction as arbitrary: s) (simp_all add: split_beta Let_def)

lemma after_actions_Nil [simp]: "after_actions L E V [] s t \<longleftrightarrow> ss_core t = ss_core s \<and> ss_launched t = ss_launched s"
  by (simp add: after_actions_def)

lemma after_actions_trans:
  assumes "after_actions L E V as s t" and "after_actions L E V bs t u"
  shows "after_actions L E V (as @ bs) s u"
proof -
  have "ss_core (snd (launch_all L E V bs t)) = ss_core (snd (launch_all L E V bs (snd (launch_all L E V as s))))"
    using assms(1) launch_all_state [of L E V as s] by (intro conjunct1 [OF launch_all_cong]) (simp_all add: after_actions_def)
  then show ?thesis using assms by (simp add: after_actions_def launch_all_append)
qed

lemma after_launch: "after_actions L E V [a] s (snd (launch_action_entry L E V a s))"
  using launch_entry_state(2) [of L E V a s] by (simp add: after_actions_def split_beta Let_def)

lemma after_batch: "after_actions L E V as s (snd (launch_action_sequence_batch L E V as s))"
  using launch_all_state [of L E V as s] by (simp add: after_actions_def launch_action_sequence_batch_def split_beta)

lemma after_cong:
  assumes "after_actions L E V as t u" and "ss_core t = ss_core s" and "ss_launched t = ss_launched s"
  shows "after_actions L E V as s u"
  using assms launch_all_cong [OF assms(2,3)] by (simp add: after_actions_def)

text \<open>An entry launches all its actions, or none because the time is not enough.\<close>

lemma run_entry_after:
  assumes "run_entry L E V timeout entry s = (r, s1)"
  shows "after_actions L E V (entry_actions entry) s s1 \<or> after_actions L E V [] s s1 \<and> (\<exists>e. r = Some (Inl e))"
    and "ss_futs s1 = ss_futs s"
proof -
  let ?t = "s\<lparr>ss_checks := Suc (ss_checks s)\<rparr>"
  have c: "after_actions L E V as ?t u \<Longrightarrow> after_actions L E V as s u" for as u by (erule after_cong) simp_all
  have "(after_actions L E V (entry_actions entry) s s1 \<or> after_actions L E V [] s s1 \<and> (\<exists>e. r = Some (Inl e))) \<and> ss_futs s1 = ss_futs s"
  proof (cases entry)
    case (SeqDelay d)
    then show ?thesis using assms by (auto simp: run_entry_def seq_enough_def entry_actions_def)
  next
    case (SeqActions x)
    show ?thesis
    proof (cases x)
      case (SeqSingle a)
      note l = c [OF after_launch [of L E V a ?t]] launch_entry_state(1) [of L E V a ?t]
      show ?thesis
      proof (cases "sv_enough V (ss_checks s) timeout (sa_wait a)")
        case (Inr u)
        then have "launch_action_entry L E V a ?t = (r, s1)"
          using assms by (simp add: SeqActions SeqSingle run_entry_def seq_enough_def)
        then show ?thesis using l by (simp add: SeqActions SeqSingle entry_actions_def actions_of_def)
      qed (use assms in \<open>auto simp: SeqActions SeqSingle run_entry_def seq_enough_def\<close>)
    next
      case (SeqMulti as)
      note l = c [OF after_batch [of L E V as ?t]] launch_all_state [of L E V as ?t]
      show ?thesis
      proof (cases "as = []")
        case False
        show ?thesis
        proof (cases "sv_enough V (ss_checks s) timeout (Max (set (map sa_wait as)))")
          case (Inr u)
          then have "snd (launch_action_sequence_batch L E V as ?t) = s1"
            using assms False by (simp add: SeqActions SeqMulti run_entry_def seq_enough_def split: prod.splits)
          then show ?thesis
            using l by (auto simp: SeqActions SeqMulti entry_actions_def actions_of_def launch_action_sequence_batch_def split_beta)
        qed (use assms False in \<open>auto simp: SeqActions SeqMulti run_entry_def seq_enough_def\<close>)
      qed (use assms in \<open>simp add: SeqActions SeqMulti run_entry_def entry_actions_def actions_of_def\<close>)
    qed
  qed
  then show "after_actions L E V (entry_actions entry) s s1 \<or> after_actions L E V [] s s1 \<and> (\<exists>e. r = Some (Inl e))"
    and "ss_futs s1 = ss_futs s" by blast+
qed

text \<open>All actions were launched and completed.\<close>

definition all_done :: "eva_lib \<Rightarrow> core_env \<Rightarrow> seq_env \<Rightarrow> sequence_action list \<Rightarrow> seq_state \<Rightarrow> bool" where
  "all_done L E V as s \<longleftrightarrow> set (fst (launch_all L E V as s)) \<subseteq> {Some (Inr ())}"

lemma all_done_Nil [simp]: "all_done L E V [] s"
  by (simp add: all_done_def)

lemma all_done_append:
  assumes "all_done L E V as s" and "after_actions L E V as s t" and "all_done L E V bs t"
  shows "all_done L E V (as @ bs) s"
proof -
  have "fst (launch_all L E V bs t) = fst (launch_all L E V bs (snd (launch_all L E V as s)))"
    using assms(2) launch_all_state [of L E V as s] by (intro conjunct2 [OF launch_all_cong]) (simp_all add: after_actions_def)
  then show ?thesis using assms(1,3) by (auto simp: all_done_def launch_all_append)
qed

lemma join_all_done: "join_all V futs ok = Inr () \<longleftrightarrow> ok \<and> set futs \<subseteq> {Some (Inr ())}"
proof (induction futs arbitrary: ok)
  case (Cons f futs)
  then show ?case by (cases f; cases "the f") auto
qed simp

lemma run_entry_done:
  assumes "run_entry L E V timeout entry s = (Some (Inr ()), s1)"
  shows "all_done L E V (entry_actions entry) s"
proof -
  let ?t = "s\<lparr>ss_checks := Suc (ss_checks s)\<rparr>"
  have c: "fst (launch_all L E V as ?t) = fst (launch_all L E V as s)" for as
    by (intro conjunct2 [OF launch_all_cong]) simp_all
  show ?thesis
  proof (cases entry)
    case (SeqActions x)
    show ?thesis
    proof (cases x)
      case (SeqSingle a)
      then show ?thesis
        using assms c [of "[a]"]
        by (auto simp: SeqActions run_entry_def seq_enough_def entry_actions_def actions_of_def all_done_def split_beta Let_def split: sum.splits)
    next
      case (SeqMulti as)
      have "as = [] \<or> join_all V (fst (launch_all L E V as ?t)) True = Inr ()"
        using assms by (auto simp: SeqActions SeqMulti run_entry_def seq_enough_def launch_action_sequence_batch_def
            split: sum.splits if_splits prod.splits)
      then show ?thesis
        using c [of as] by (auto simp: SeqActions SeqMulti entry_actions_def actions_of_def all_done_def join_all_done)
    qed
  qed (simp add: entry_actions_def)
qed

lemma sequence_after:
  assumes "launch_action_sequence L E V k timeout es s = (r, s1)"
  shows "\<exists>n \<le> length es. after_actions L E V (concat (map entry_actions (take n es))) s s1 \<and> ss_futs s1 = ss_futs s \<and>
    (r = Some (Inr ()) \<longrightarrow> n = length es \<and> all_done L E V (concat (map entry_actions es)) s)"
  using assms
proof (induction es arbitrary: k s)
  case (Cons e es)
  obtain q s2 where e: "run_entry L E V timeout e s = (q, s2)" by fastforce
  note a = run_entry_after [OF e]
  show ?case
  proof (cases "sv_stop V k = None \<and> q = Some (Inr ())")
    case True
    then have go: "launch_action_sequence L E V (Suc k) timeout es s2 = (r, s1)" and q: "q = Some (Inr ())" using Cons.prems e by auto
    have ea: "after_actions L E V (entry_actions e) s s2" using a(1) q by simp
    from Cons.IH [OF go] obtain n where n: "n \<le> length es" "after_actions L E V (concat (map entry_actions (take n es))) s2 s1"
      "ss_futs s1 = ss_futs s2" "r = Some (Inr ()) \<longrightarrow> n = length es \<and> all_done L E V (concat (map entry_actions es)) s2" by blast
    have "all_done L E V (entry_actions e) s" using run_entry_done e q by blast
    then show ?thesis
      using n after_actions_trans [OF ea n(2)] a(2) all_done_append [OF _ ea] by (intro exI [of _ "Suc n"]) auto
  next
    case False
    have "sv_stop V k = None \<or> sv_stop V k = Some StopBefore \<or> sv_stop V k = Some StopAfter"
      by (metis (full_types) not_Some_eq stop.exhaust)
    then have "r \<noteq> Some (Inr ()) \<and> (s1 = s \<or> s1 = s2)"
      using Cons.prems e False by (elim disjE) (auto split: option.splits sum.splits)
    then show ?thesis using a by (fastforce intro: exI [of _ 0] exI [of _ "Suc 0"])
  qed
qed simp

definition abort_actions :: "sequence \<Rightarrow> sequence_action list" where
  "abort_actions q = (case sq_on_abort q of None \<Rightarrow> [] | Some b \<Rightarrow> actions_of b)"

lemma seq_failed_after:
  assumes "seq_failed L E V (sq_on_abort q) e s = (r, s')"
  shows "r \<noteq> Some (Inr ())" and "after_actions L E V (abort_actions q) s s'" and "ss_futs s' = ss_futs s"
proof -
  have "r \<noteq> Some (Inr ()) \<and> after_actions L E V (abort_actions q) s s' \<and> ss_futs s' = ss_futs s"
  proof (cases "sq_on_abort q")
    case None
    then show ?thesis using assms by (auto simp: seq_failed_def abort_actions_def)
  next
    case (Some b)
    obtain x t where x: "seq_abort L E V b s = (x, t)" by fastforce
    have "after_actions L E V (actions_of b) s t \<and> ss_futs t = ss_futs s"
    proof (cases b)
      case (SeqSingle a)
      then show ?thesis
        using x after_launch [of L E V a s] launch_entry_state(1) [of L E V a s] by (simp add: seq_abort_def actions_of_def)
    next
      case (SeqMulti as)
      then show ?thesis
        using x after_batch [of L E V as s] launch_all_state [of L E V as s]
        by (auto simp: seq_abort_def actions_of_def launch_action_sequence_batch_def split: prod.splits)
    qed
    moreover have "s' = t \<and> r \<noteq> Some (Inr ())" using assms x Some by (auto simp: seq_failed_def split: option.splits sum.splits)
    ultimately show ?thesis using Some by (simp add: abort_actions_def)
  qed
  then show "r \<noteq> Some (Inr ())" and "after_actions L E V (abort_actions q) s s'" and "ss_futs s' = ss_futs s" by blast+
qed

lemma sequence_outcome:
  assumes "sv_max_expected_duration V q \<le> sq_timeout q" and "seq_execute L E V q s = (r, s')"
  shows "(if r = Some (Inr ())
      then after_actions L E V (concat (map entry_actions (sq_seq q))) s s' \<and> all_done L E V (concat (map entry_actions (sq_seq q))) s
      else \<exists>n \<le> length (sq_seq q). after_actions L E V (concat (map entry_actions (take n (sq_seq q))) @ abort_actions q) s s') \<and>
    ss_futs s' = hm_remove (sq_u q) (sv_futs V (hm_insert (sq_u q) (sv_abort_timeout V q) (ss_futs s)))"
proof -
  let ?s1 = "s\<lparr>ss_futs := hm_insert (sq_u q) (sv_abort_timeout V q) (ss_futs s)\<rparr>"
  obtain x s2 where x: "launch_action_sequence L E V 0 (sq_timeout q) (sq_seq q) ?s1 = (x, s2)" by fastforce
  let ?s3 = "s2\<lparr>ss_futs := hm_remove (sq_u q) (sv_futs V (ss_futs s2))\<rparr>"
  from sequence_after [OF x] obtain n where n: "n \<le> length (sq_seq q)"
    "after_actions L E V (concat (map entry_actions (take n (sq_seq q)))) ?s1 s2" "ss_futs s2 = ss_futs ?s1"
    "x = Some (Inr ()) \<longrightarrow> n = length (sq_seq q) \<and> all_done L E V (concat (map entry_actions (sq_seq q))) ?s1" by blast
  have a: "after_actions L E V (concat (map entry_actions (take n (sq_seq q)))) s ?s3"
    using after_cong [OF n(2), of s] by (simp add: after_actions_def)
  have r: "(r, s') = (case x of Some (Inr _) \<Rightarrow> (Some (Inr ()), ?s3) | Some (Inl e) \<Rightarrow> seq_failed L E V (sq_on_abort q) e ?s3
      | None \<Rightarrow> seq_failed L E V (sq_on_abort q) EAborted ?s3)"
    using assms x by (simp add: seq_execute_def Let_def split: option.splits sum.splits)
  show ?thesis
  proof (cases "x = Some (Inr ())")
    case True
    have "all_done L E V (concat (map entry_actions (sq_seq q))) s"
      using n(4) True conjunct2 [OF launch_all_cong [of ?s1 s L E V "concat (map entry_actions (sq_seq q))"]] by (simp add: all_done_def)
    then show ?thesis using r True a n by simp
  next
    case False
    then obtain e where f: "seq_failed L E V (sq_on_abort q) e ?s3 = (r, s')" using r by (auto split: option.splits sum.splits)
    note f' = seq_failed_after [OF f]
    show ?thesis using f'(1,3) after_actions_trans [OF a f'(2)] n(1,3) by auto
  qed
qed


definition wit_seq_env :: seq_env where
  "wit_seq_env = \<lparr>sv_action = (\<lambda>_. wit_action_env), sv_priority = 100, sv_secs = (\<lambda>_. Fin 1), sv_enough = (\<lambda>_ _ _. Inr ()),
     sv_join_error = ECore, sv_stop = (\<lambda>_. None), sv_max_expected_duration = (\<lambda>_. 2), sv_abort_timeout = (\<lambda>_. 3), sv_futs = id\<rparr>"

lemma wit_seq_env_fields:
  "sv_enough wit_seq_env = (\<lambda>_ _ _. Inr ())" "sv_stop wit_seq_env = (\<lambda>_. None)" "sv_futs wit_seq_env = id"
  "sv_max_expected_duration wit_seq_env = (\<lambda>_. 2)" "sv_abort_timeout wit_seq_env = (\<lambda>_. 3)"
  by (simp_all add: wit_seq_env_def)

definition wit_seq_action :: sequence_action where
  "wit_seq_action = \<lparr>sa_oid = OID KUnit ''missing'', sa_params = Some (ParamsUnit (VU8 1)), sa_wait = 1\<rparr>"

definition wit_sequence :: sequence where
  "wit_sequence = \<lparr>sq_u = 9, sq_seq = [SeqDelay 1, SeqActions (SeqSingle wit_seq_action)], sq_timeout = 5,
     sq_on_abort = Some (SeqMulti [wit_seq_action, wit_seq_action])\<rparr>"

definition wit_seq_state :: seq_state where
  "wit_seq_state = \<lparr>ss_core = wit_core5, ss_launched = 0, ss_checks = 0, ss_futs = []\<rparr>"

lemma wit_launch: "ss_core s = wit_core5 \<Longrightarrow> launch_action_entry std_lib wit_env wit_seq_env wit_seq_action s =
    (Some (Inl ENotFound), s\<lparr>ss_core := wit_core5, ss_launched := Suc (ss_launched s)\<rparr>)"
  by (simp add: launch_action_entry_def core_action_def action_prepare_def wit_seq_action_def params_fit_def wit_core5_get wit_seq_env_def)


subsection \<open>Consistency\<close>

lemma keeps_launch:
  assumes "\<And>n d. core_ok d \<Longrightarrow> core_ok (av_others (sv_action V n) d)" "\<And>n d. core_ok d \<Longrightarrow> core_ok (av_others_end (sv_action V n) d)"
    and "core_ok (ss_core s)"
  shows "core_ok (ss_core (snd (launch_all L E V as s)))"
  using assms(3)
proof (induction as arbitrary: s)
  case (Cons a as)
  have "core_ok (ss_core (snd (launch_action_entry L E V a s)))"
    using keeps_action [OF Cons.prems assms(1,2)] by (simp add: launch_action_entry_def split_beta Let_def)
  from Cons.IH [OF this] show ?case by (simp add: split_beta Let_def)
qed simp

text \<open>
  The requests of sequences keep the core consistent, as the bus API requires of the calls it
  passes on.
\<close>

theorem sequence_keeps_core:
  assumes "\<And>n d. core_ok d \<Longrightarrow> core_ok (av_others (sv_action V n) d)" "\<And>n d. core_ok d \<Longrightarrow> core_ok (av_others_end (sv_action V n) d)"
    and "core_ok (ss_core s)"
  shows "core_ok (ss_core (snd (seq_execute L E V q s)))"
proof (cases "sv_max_expected_duration V q \<le> sq_timeout q")
  case True
  obtain r s' where x: "seq_execute L E V q s = (r, s')" by fastforce
  obtain as where "after_actions L E V as s s'" using sequence_outcome [OF True x] by (auto split: if_splits)
  then show ?thesis using keeps_launch [OF assms] x by (simp add: after_actions_def)
qed (simp add: seq_execute_def assms(3))

text \<open>The shutdown waits for the longest abort.\<close>

lemma shutdown_waits: "w \<in> set (hm_values (ss_futs s)) \<Longrightarrow> w \<le> seq_shutdown s"
proof -
  have "m \<le> fold (\<lambda>w m. if m < w then w else m) ws m \<and> (\<forall>w \<in> set ws. w \<le> fold (\<lambda>w m. if m < w then w else m) ws m)" for ws and m :: nat
    by (induction ws arbitrary: m) (auto, (meson less_le_not_le order_trans nat_le_linear)+)
  then show "w \<in> set (hm_values (ss_futs s)) \<Longrightarrow> w \<le> seq_shutdown s" by (simp add: seq_shutdown_def)
qed

end
