(* ===== verification/Lm_Actions.thy ===== *)
theory Lm_Actions
  imports Lm_Opener Core_Seq
begin

text \<open>
  The execution of the actions of openers (\<open>svc/controller-lm/src/opener.rs\<close>): the plan becomes a
  sequence that the core executes, the active sequences are registered so that they can be
  terminated, and the progress of the action is published. The answers of the core, the conversion of
  values, the queue of the published messages and the table of pending actions (\<open>Actt\<close>, not part of the
  repository) are the fields of the environment.
\<close>

record opener =
  op_oid :: oid
  op_break_on_status_error :: bool
  op_port :: "oid list"
  op_dport :: "oid list"
  op_plan_config :: plan_config
  op_set_state :: bool
  op_port_timeout :: "nat option"

record active_openers =
  ao_by_oid :: "(oid, uuid) hmap"
  ao_by_action_uuid :: "(uuid, uuid) hmap"

definition ao_register :: "oid \<Rightarrow> uuid \<Rightarrow> uuid \<Rightarrow> active_openers \<Rightarrow> active_openers" where
  "ao_register x action_uuid seq_uuid a =
     \<lparr>ao_by_oid = hm_insert x seq_uuid (ao_by_oid a), ao_by_action_uuid = hm_insert action_uuid seq_uuid (ao_by_action_uuid a)\<rparr>"

definition ao_unregister :: "oid \<Rightarrow> uuid \<Rightarrow> active_openers \<Rightarrow> active_openers" where
  "ao_unregister x action_uuid a =
     \<lparr>ao_by_oid = hm_remove x (ao_by_oid a), ao_by_action_uuid = hm_remove action_uuid (ao_by_action_uuid a)\<rparr>"

datatype lm_action_event = EvCanceled | EvRunning | EvCompleted | EvTerminated | EvFailed int

datatype lm_message = ActionMsg oid lm_action_event | StateMsg oid raw_event

record lm_env =
  lm_timeout :: nat
  lm_seq_uuid :: uuid
  lm_micros :: "nat \<Rightarrow> nat"
  lm_to_i8 :: "eva_value \<Rightarrow> int result"
  lm_item_state :: "oid \<Rightarrow> eva_value list result"
  lm_pack_seq :: "sequence \<Rightarrow> unit result"
  lm_seq :: "sequence \<Rightarrow> unit result"
  lm_seq_terminate :: "uuid \<Rightarrow> unit result"
  lm_others :: "active_openers \<Rightarrow> active_openers"
  lm_actt_remove :: "oid \<Rightarrow> uuid \<Rightarrow> bool result"
  lm_send :: "nat \<Rightarrow> unit result"
  lm_pack :: "lm_message \<Rightarrow> unit result"

subsection \<open>The sequence of a plan\<close>

definition port_actions :: "oid list \<Rightarrow> eva_value \<Rightarrow> nat \<Rightarrow> sequence_action list" where
  "port_actions src val port_timeout = map (\<lambda>x. \<lparr>sa_oid = x, sa_params = Some (ParamsUnit val), sa_wait = port_timeout\<rparr>) src"

fun command_entry :: "lm_env \<Rightarrow> opener \<Rightarrow> nat \<Rightarrow> command \<Rightarrow> sequence_entry" where
  "command_entry N cfg t PortOn = SeqActions (SeqMulti (port_actions (op_port cfg) (VI8 1) t))"
| "command_entry N cfg t PortOff = SeqActions (SeqMulti (port_actions (op_port cfg) (VI8 0) t))"
| "command_entry N cfg t DPortOn = SeqActions (SeqMulti (port_actions (op_dport cfg) (VI8 1) t))"
| "command_entry N cfg t DPortOff = SeqActions (SeqMulti (port_actions (op_dport cfg) (VI8 0) t))"
| "command_entry N cfg t (Delay d) = SeqDelay (lm_micros N d)"

definition opener_sequence :: "lm_env \<Rightarrow> opener \<Rightarrow> command list \<Rightarrow> nat \<Rightarrow> sequence" where
  "opener_sequence N cfg plan timeout =
     (let port_timeout = unwrap_or (lm_timeout N) (op_port_timeout cfg)
      in \<lparr>sq_u = lm_seq_uuid N, sq_seq = map (command_entry N cfg port_timeout) plan, sq_timeout = timeout,
          sq_on_abort = Some (SeqMulti (port_actions (op_port cfg) (VU8 0) port_timeout @
            (if pc_logic (op_plan_config cfg) = Rdc then port_actions (op_dport cfg) (VU8 0) port_timeout else [])))\<rparr>)"

text \<open>
  The execution; the outer \<open>None\<close> is a generation that does not return, the inner one a panic.
\<close>

definition opener_execute ::
    "lm_env \<Rightarrow> uuid \<Rightarrow> opener \<Rightarrow> eva_value \<Rightarrow> int \<Rightarrow> nat \<Rightarrow> active_openers \<Rightarrow> unit result option option \<times> active_openers" where
  "opener_execute N action_uuid cfg pos current_pos timeout a =
     (case lm_to_i8 N pos of
        Inl e \<Rightarrow> (Some (Some (Inl e)), a)
      | Inr requested_pos \<Rightarrow>
          (case generate (op_plan_config cfg) current_pos requested_pos (op_break_on_status_error cfg) of
             None \<Rightarrow> (None, a)
           | Some None \<Rightarrow> (Some None, a)
           | Some (Some (Inl e)) \<Rightarrow> (Some (Some (Inl e)), a)
           | Some (Some (Inr plan)) \<Rightarrow>
               (let q = opener_sequence N cfg plan timeout; a1 = ao_register (op_oid cfg) action_uuid (sq_u q) a
                in case lm_pack_seq N q of
                     Inl e \<Rightarrow> (Some (Some (Inl e)), a1)
                   | Inr _ \<Rightarrow> (Some (Some (lm_seq N q)), ao_unregister (op_oid cfg) action_uuid (lm_others N a1)))))"

definition get_current_pos :: "lm_env \<Rightarrow> oid \<Rightarrow> int result" where
  "get_current_pos N x =
     (case lm_item_state N x of
        Inl e \<Rightarrow> Inl e
      | Inr [] \<Rightarrow> Inl EFailed
      | Inr (v # _) \<Rightarrow> lm_to_i8 N v)"

definition run_action ::
    "lm_env \<Rightarrow> uuid \<Rightarrow> opener \<Rightarrow> eva_value \<Rightarrow> nat \<Rightarrow> active_openers \<Rightarrow> unit result option option \<times> active_openers" where
  "run_action N u cfg pos timeout a =
     (let current_pos = (case get_current_pos N (op_oid cfg) of Inr p \<Rightarrow> p | Inl _ \<Rightarrow> -1)
      in opener_execute N u cfg pos current_pos timeout a)"

definition opener_terminate :: "lm_env \<Rightarrow> uuid \<Rightarrow> active_openers \<Rightarrow> unit result" where
  "opener_terminate N u a =
     (case hm_get (ao_by_action_uuid a) u of Some v \<Rightarrow> lm_seq_terminate N v | None \<Rightarrow> Inl ENotFound)"

definition opener_kill :: "lm_env \<Rightarrow> oid \<Rightarrow> active_openers \<Rightarrow> unit result" where
  "opener_kill N x a =
     (case hm_get (ao_by_oid a) x of Some v \<Rightarrow> lm_seq_terminate N v | None \<Rightarrow> Inl ENotFound)"

subsection \<open>The handler of an action\<close>

text \<open>The messages sent so far; a message is packed and then sent.\<close>

record lm_state =
  ls_active :: active_openers
  ls_sends :: nat
  ls_sent :: "lm_message list"

definition send_msg :: "lm_env \<Rightarrow> lm_message \<Rightarrow> lm_state \<Rightarrow> unit result \<times> lm_state" where
  "send_msg N m s =
     (case lm_pack N m of
        Inl e \<Rightarrow> (Inl e, s)
      | Inr _ \<Rightarrow>
          (case lm_send N (ls_sends s) of
             Inl e \<Rightarrow> (Inl e, s\<lparr>ls_sends := Suc (ls_sends s)\<rparr>)
           | Inr _ \<Rightarrow> (Inr (), s\<lparr>ls_sends := Suc (ls_sends s), ls_sent := ls_sent s @ [m]\<rparr>)))"

text \<open>The requested value is \<open>None\<close> if the parameters of the action are not those of a unit.\<close>

record lm_action =
  la_uuid :: uuid
  la_value :: "eva_value option"
  la_timeout :: nat

definition action_events :: "opener \<Rightarrow> eva_value \<Rightarrow> unit result \<Rightarrow> lm_action_event \<times> raw_event option" where
  "action_events cfg val r =
     (case r of
        Inr _ \<Rightarrow> (EvCompleted, if op_set_state cfg then Some (raw_event_default 1 (Some val) ForceNone None) else None)
      | Inl e \<Rightarrow> (if e = EAborted then EvTerminated else EvFailed 1, None))"

definition handle_end :: "lm_env \<Rightarrow> opener \<Rightarrow> lm_action_event \<times> raw_event option \<Rightarrow> lm_state \<Rightarrow> unit result \<times> lm_state" where
  "handle_end N cfg ev s =
     (case snd ev of
        None \<Rightarrow> send_msg N (ActionMsg (op_oid cfg) (fst ev)) s
      | Some raw \<Rightarrow>
          (case send_msg N (StateMsg (op_oid cfg) raw) s of
             (Inl e, s1) \<Rightarrow> (Inl e, s1)
           | (Inr _, s1) \<Rightarrow> send_msg N (ActionMsg (op_oid cfg) (fst ev)) s1))"

definition handle_action :: "lm_env \<Rightarrow> opener \<Rightarrow> lm_action \<Rightarrow> lm_state \<Rightarrow> unit result option option \<times> lm_state" where
  "handle_action N cfg act s =
     (case lm_actt_remove N (op_oid cfg) (la_uuid act) of
        Inl e \<Rightarrow> (Some (Some (Inl e)), s)
      | Inr False \<Rightarrow> (let (r, s1) = send_msg N (ActionMsg (op_oid cfg) EvCanceled) s in (Some (Some r), s1))
      | Inr True \<Rightarrow>
          (case send_msg N (ActionMsg (op_oid cfg) EvRunning) s of
             (Inl e, s1) \<Rightarrow> (Some (Some (Inl e)), s1)
           | (Inr _, s1) \<Rightarrow>
               (case la_value act of
                  None \<Rightarrow> (let (r, s2) = handle_end N cfg (EvFailed (-1), None) s1 in (Some (Some r), s2))
                | Some val \<Rightarrow>
                    (case run_action N (la_uuid act) cfg val (la_timeout act) (ls_active s1) of
                       (None, a) \<Rightarrow> (None, s1\<lparr>ls_active := a\<rparr>)
                     | (Some None, a) \<Rightarrow> (Some None, s1\<lparr>ls_active := a\<rparr>)
                     | (Some (Some r), a) \<Rightarrow>
                         (let (r2, s2) = handle_end N cfg (action_events cfg val r) (s1\<lparr>ls_active := a\<rparr>) in (Some (Some r2), s2))))))"

subsection \<open>The opener and the core\<close>

text \<open>The actions on ports that a command stands for, and those of the abort.\<close>

definition command_actions :: "lm_env \<Rightarrow> opener \<Rightarrow> command \<Rightarrow> sequence_action list" where
  "command_actions N cfg cmd =
     (let t = unwrap_or (lm_timeout N) (op_port_timeout cfg)
      in case cmd of
           PortOn \<Rightarrow> port_actions (op_port cfg) (VI8 1) t
         | PortOff \<Rightarrow> port_actions (op_port cfg) (VI8 0) t
         | DPortOn \<Rightarrow> port_actions (op_dport cfg) (VI8 1) t
         | DPortOff \<Rightarrow> port_actions (op_dport cfg) (VI8 0) t
         | Delay _ \<Rightarrow> [])"

definition off_actions :: "lm_env \<Rightarrow> opener \<Rightarrow> sequence_action list" where
  "off_actions N cfg =
     port_actions (op_port cfg @ (if pc_logic (op_plan_config cfg) = Rdc then op_dport cfg else [])) (VU8 0)
       (unwrap_or (lm_timeout N) (op_port_timeout cfg))"

lemma opener_sequence_actions:
  "concat (map entry_actions (take n (sq_seq (opener_sequence N cfg plan timeout)))) = concat (map (command_actions N cfg) (take n plan))"
  "abort_actions (opener_sequence N cfg plan timeout) = off_actions N cfg"
  "length (sq_seq (opener_sequence N cfg plan timeout)) = length plan"
proof -
  have "entry_actions (command_entry N cfg t cmd) = command_actions N cfg cmd"
    if "t = unwrap_or (lm_timeout N) (op_port_timeout cfg)" for t cmd
    using that by (cases cmd) (simp_all add: entry_actions_def actions_of_def command_actions_def)
  then show "concat (map entry_actions (take n (sq_seq (opener_sequence N cfg plan timeout)))) =
      concat (map (command_actions N cfg) (take n plan))"
    by (simp add: opener_sequence_def Let_def take_map o_def)
qed (simp_all add: opener_sequence_def abort_actions_def actions_of_def off_actions_def port_actions_def Let_def)

text \<open>The core as the one that executes the sequences.\<close>

definition core_executes :: "lm_env \<Rightarrow> eva_lib \<Rightarrow> core_env \<Rightarrow> seq_env \<Rightarrow> seq_state \<Rightarrow> bool" where
  "core_executes N L E V s \<longleftrightarrow>
     (\<forall>q. lm_pack_seq N q = Inr ()) \<and> (\<forall>q. \<exists>e. lm_seq N q = (case fst (seq_execute L E V q s) of Some r \<Rightarrow> r | None \<Rightarrow> Inl e))"

lemma core_executesD:
  assumes "core_executes N L E V s"
  shows "lm_pack_seq N q = Inr ()" and "lm_seq N q = Inr () \<longleftrightarrow> fst (seq_execute L E V q s) = Some (Inr ())"
  using assms by (auto simp: core_executes_def split: option.splits) (metis Inl_Inr_False option.case_eq_if option.sel)+

lemma opener_run:
  assumes "core_executes N L E V s" and "\<And>q. sv_max_expected_duration V q \<le> timeout"
    and "plan_safe (op_plan_config cfg) ds" and "get_current_pos N (op_oid cfg) = Inr c" and "step_in (op_plan_config cfg) c"
    and "lm_to_i8 N val = Inr r" and "step_in (op_plan_config cfg) r"
    and "c = r \<or> \<not> (via_end (op_plan_config cfg) r \<and> via_start (op_plan_config cfg) r)" and "at_rest (op_plan_config cfg) ds c d"
  shows "\<exists>plan res s'. fst (run_action N u cfg val timeout a) = Some (Some res) \<and>
    generate (op_plan_config cfg) c r (op_break_on_status_error cfg) = Some (Some (Inr plan)) \<and>
    at_rest (op_plan_config cfg) ds r (run_plan (op_plan_config cfg) (sum_list ds) plan d) \<and>
    s' = snd (seq_execute L E V (opener_sequence N cfg plan timeout) s) \<and>
    (if res = Inr ()
     then after_actions L E V (concat (map (command_actions N cfg) plan)) s s' \<and> all_done L E V (concat (map (command_actions N cfg) plan)) s
     else \<exists>n \<le> length plan. after_actions L E V (concat (map (command_actions N cfg) (take n plan)) @ off_actions N cfg) s s')"
proof -
  obtain plan where p: "generate (op_plan_config cfg) c r (op_break_on_status_error cfg) = Some (Some (Inr plan))"
    and g: "good_plan (op_plan_config cfg) ds c r plan" using generate_good [OF assms(3,5,7,8)] by blast
  let ?q = "opener_sequence N cfg plan timeout"
  obtain x s' where x: "seq_execute L E V ?q s = (x, s')" by fastforce
  have t: "sv_max_expected_duration V ?q \<le> sq_timeout ?q" using assms(2) by (simp add: opener_sequence_def Let_def)
  note o = sequence_outcome [OF t x, unfolded opener_sequence_actions]
  have all: "concat (map entry_actions (sq_seq ?q)) = concat (map (command_actions N cfg) plan)"
    using opener_sequence_actions(1) [of "length plan" N cfg plan timeout] by (simp add: opener_sequence_actions(3))
  have "fst (run_action N u cfg val timeout a) = Some (Some (lm_seq N ?q))"
    using p core_executesD(1) [OF assms(1)] by (simp add: run_action_def assms(4,6) opener_execute_def Let_def)
  moreover have "lm_seq N ?q = Inr () \<longleftrightarrow> x = Some (Inr ())" using core_executesD(2) [OF assms(1), of ?q] x by simp
  moreover have "at_rest (op_plan_config cfg) ds r (run_plan (op_plan_config cfg) (sum_list ds) plan d)"
    using g assms(9) by (simp add: good_plan_def)
  ultimately show ?thesis
    using o x p by (intro exI [of _ plan] exI [of _ "lm_seq N ?q"] exI [of _ s']) (simp add: all split: if_splits)
qed


definition wit_gate :: opener where
  "wit_gate = \<lparr>op_oid = OID KUnit ''gate'', op_break_on_status_error = True, op_port = [OID KUnit ''missing''], op_dport = [OID KUnit ''other''],
     op_plan_config = wit_opener, op_set_state = True, op_port_timeout = None\<rparr>"

definition wit_to_i8 :: "eva_value \<Rightarrow> int result" where
  "wit_to_i8 v = (case v of VI8 w \<Rightarrow> Inr (sint w) | _ \<Rightarrow> Inl EInvalidData)"

definition wit_lm :: lm_env where
  "wit_lm = \<lparr>lm_timeout = 1, lm_seq_uuid = 5, lm_micros = (\<lambda>d. d div 1000), lm_to_i8 = wit_to_i8, lm_item_state = (\<lambda>_. Inr [VI8 0]),
     lm_pack_seq = (\<lambda>_. Inr ()),
     lm_seq = (\<lambda>q. case fst (seq_execute std_lib wit_env wit_seq_env q wit_seq_state) of Some r \<Rightarrow> r | None \<Rightarrow> Inl EBus),
     lm_seq_terminate = (\<lambda>_. Inr ()), lm_others = id, lm_actt_remove = (\<lambda>_ _. Inr True), lm_send = (\<lambda>_. Inr ()), lm_pack = (\<lambda>_. Inr ())\<rparr>"

lemma wit_lm_executes: "core_executes wit_lm std_lib wit_env wit_seq_env wit_seq_state"
  by (auto simp: core_executes_def wit_lm_def)


subsection \<open>Termination\<close>

text \<open>While a sequence is executed, its action and its unit are known, and afterwards they are not.\<close>

lemma active_while_executed:
  assumes "hm_wf (ao_by_oid a)" and "hm_wf (ao_by_action_uuid a)"
  shows "opener_terminate N u (ao_register x u v a) = lm_seq_terminate N v" and "opener_kill N x (ao_register x u v a) = lm_seq_terminate N v"
    and "opener_terminate N u (ao_unregister x u a) = Inl ENotFound" and "opener_kill N x (ao_unregister x u a) = Inl ENotFound"
  using assms by (simp_all add: opener_terminate_def opener_kill_def ao_register_def ao_unregister_def hm_laws)

subsection \<open>The published state\<close>

lemma send_msg_sent: "set (ls_sent (snd (send_msg N m s))) \<subseteq> insert m (set (ls_sent s))"
  by (auto simp: send_msg_def split: sum.split)

lemma handle_end_sent:
  assumes "StateMsg x raw \<in> set (ls_sent (snd (handle_end N cfg ev s)))" and "StateMsg x raw \<notin> set (ls_sent s)"
  shows "x = op_oid cfg \<and> snd ev = Some raw"
proof (cases "snd ev")
  case None
  then show ?thesis using assms send_msg_sent [of N "ActionMsg (op_oid cfg) (fst ev)" s] by (auto simp: handle_end_def)
next
  case (Some r)
  obtain q s1 where q: "send_msg N (StateMsg (op_oid cfg) r) s = (q, s1)" by fastforce
  have "StateMsg x raw \<in> set (ls_sent s1)"
    using assms(1) Some q send_msg_sent [of N "ActionMsg (op_oid cfg) (fst ev)" s1] by (cases q) (auto simp: handle_end_def)
  then show ?thesis using assms(2) Some q send_msg_sent [of N "StateMsg (op_oid cfg) r" s] by auto
qed

text \<open>Only an action that was run and answered ends in a state.\<close>

lemma handle_action_sent:
  assumes "StateMsg x raw \<in> set (ls_sent (snd (handle_action N cfg act t)))" and "StateMsg x raw \<notin> set (ls_sent t)"
    and "la_value act = Some val"
  shows "\<exists>a. fst (run_action N (la_uuid act) cfg val (la_timeout act) a) = Some (Some (Inr ())) \<and> x = op_oid cfg \<and>
    raw = raw_event_default 1 (Some val) ForceNone None"
proof -
  obtain q t1 where q: "send_msg N (ActionMsg (op_oid cfg) EvRunning) t = (q, t1)" by fastforce
  have new: "StateMsg x raw \<notin> set (ls_sent t1)" using send_msg_sent [of N "ActionMsg (op_oid cfg) EvRunning" t] q assms(2) by auto
  obtain y a where y: "run_action N (la_uuid act) cfg val (la_timeout act) (ls_active t1) = (y, a)" by fastforce
  have "StateMsg x raw \<notin> set (ls_sent (snd (send_msg N (ActionMsg (op_oid cfg) EvCanceled) t)))"
    using send_msg_sent [of N "ActionMsg (op_oid cfg) EvCanceled" t] assms(2) by auto
  then have run: "lm_actt_remove N (op_oid cfg) (la_uuid act) = Inr True" "is_ok q"
    using assms(1,2) new
    by (cases "lm_actt_remove N (op_oid cfg) (la_uuid act)"; cases q; simp add: handle_action_def q split_beta split: bool.splits)+
  then obtain res where res: "y = Some (Some res)"
    and m: "StateMsg x raw \<in> set (ls_sent (snd (handle_end N cfg (action_events cfg val res) (t1\<lparr>ls_active := a\<rparr>))))"
    using assms(1) new
    by (cases q; cases y; cases "the y") (simp_all add: handle_action_def assms(3) q y split_beta)
  have "x = op_oid cfg" "snd (action_events cfg val res) = Some raw" using handle_end_sent [OF m] new by simp_all
  then show ?thesis
    using y res by (intro exI [of _ "ls_active t1"], cases res) (auto simp: action_events_def split: if_splits)
qed


text \<open>A gate without ports, for evaluation: each group of actions is empty.\<close>

abbreviation wit_gate2 :: opener where
  "wit_gate2 \<equiv> wit_gate\<lparr>op_port := [], op_dport := []\<rparr>"

lemma wit_gate2_runs: "fst (run_action wit_lm 1 wit_gate2 (VI8 1) 9 a) = Some (Some (Inr ()))"
proof -
  have h: "step_in wit_opener 0" "step_in wit_opener 1" "\<not> via_end wit_opener 1"
    by (simp_all add: step_in_def via_end_def wit_opener_def)
  obtain t where p: "generate wit_opener 0 1 True = Some (Some (Inr [DPortOff, PortOn, Delay t, PortOff]))"
    using generate_direct(2) [OF wit_opener_safe h(1,2) _ h(3)] plan_up_total [OF wit_opener_safe h(2), of 0]
    by (simp add: wit_opener_def)
  have "fst (seq_execute std_lib wit_env wit_seq_env (opener_sequence wit_lm wit_gate2 [DPortOff, PortOn, Delay t, PortOff] 9) wit_seq_state) =
      Some (Inr ())"
    by (simp add: seq_execute_def opener_sequence_def wit_gate_def wit_seq_env_fields run_entry_def port_actions_def seq_enough_def Let_def)
  then show ?thesis
    using p by (simp add: run_action_def get_current_pos_def wit_lm_def wit_to_i8_def opener_execute_def wit_gate_def Let_def)
qed


end
