(* ===== verification/Spec2Isabelle.thy ===== *)
theory Spec2Isabelle
  imports Eapi_Calls Inventory_Db Svc_Auth_Laws Lm_Actions
begin

text \<open>
  A verification development for EVA ICS v4, an automation node: a core that holds the items of a
  plant (units, sensors, logical variables and macros) with their states, and services that talk to
  the core over a message bus.

  \<^bold>\<open>The parts and how they interact.\<close> Controllers publish raw states; the bus API decodes them
  and the core applies the range logic of the item, stores the state, announces it and schedules its
  saving. Actions go the other way: a request is checked, counted on its unit, recorded by the
  action manager and passed to the service of the unit, whose events complete it. A sequence is a
  list of actions that the core executes for a caller; the openers of the logic manager are such a
  caller. Other nodes are replicated: their inventories are merged and their states accepted if they
  are newer. Users authenticate with the authentication service, which gets the access list of the
  session from the access list service.

  \<^bold>\<open>The theories and the code.\<close>
  \<^item> \<open>Prelude\<close>: hash maps, strings, results, the locales \<open>hash_map\<close> and \<open>state_relation\<close>. \<open>Eva_Types\<close>: the
    vocabulary of the crate \<open>eva_common\<close>, which is not part of the repository.
  \<^item> \<open>Item_State\<close>, \<open>Item_Data\<close>, \<open>Item_Tree\<close>, \<open>Item_Map\<close>, \<open>Inventory\<close>: \<open>eva/src/items.rs\<close>. Items are shared
    handles with their mutable fields in a store; the identifier tree and the indexes are the data the
    code has.
  \<^item> \<open>Act_Mgr\<close>: \<open>eva/src/actmgr.rs\<close>.
  \<^item> \<open>Core_Base\<close>, \<open>Core_Local\<close>, \<open>Core_Raw\<close>, \<open>Core_Lvar\<close>, \<open>Core_Nodes\<close>, \<open>Core_Repl\<close>, \<open>Core_Announce\<close>, \<open>Core_Action\<close>: \<open>eva/src/core.rs\<close>. The
    state is the record \<open>core\<close>; every method is a function on it. \<open>Core_Keeps\<close>: the invariant \<open>core_ok\<close> is kept by
    each of them.
  \<^item> \<open>Core_Seq\<close>: \<open>eva/src/seq.rs\<close>. The core together with the table of running sequences.
  \<^item> \<open>Eapi_Frames\<close>, \<open>Eapi_Calls\<close>: \<open>eva/src/eapi.rs\<close>, the frames and the calls with their dispatch.
  \<^item> \<open>Inventory_Db\<close>: \<open>eva/src/inventory_db.rs\<close>, tables of rows behind the locales \<open>storage\<close> and \<open>keeping_storage\<close>.
  \<^item> \<open>Svc_Common\<close>, \<open>Svc_Store\<close>: what the services share, the registry of deployed objects included.
    \<open>Svc_Acl\<close>: \<open>svc/aaa-acl/src/main.rs\<close>. \<open>Svc_Password\<close>: \<open>genpass-native/src/lib.rs\<close>. \<open>Svc_Auth\<close>, \<open>Svc_Auth_Laws\<close>:
    \<open>svc/aaa-localauth/src/main.rs\<close>.
  \<^item> \<open>Lm_Opener\<close>, \<open>Lm_Actions\<close>: \<open>svc/controller-lm/src/opener.rs\<close>, the plans and their execution.

  \<^bold>\<open>What the lemmas show.\<close>
  \<^item> Inventory: the four trees and the inventory implement a finite map from identifiers to items
    (\<open>item_store\<close>, interpreted for both); selection by mask is matching against every item; the
    indexes agree with the map as long as no item of another source is replaced.
  \<^item> States: every branch of a raw event; the range logic holds of every stored value after any
    sequence of events; remote items are never touched by raw events; a bulk of events is the same as
    its events one by one; the counters of variables never wrap.
  \<^item> Actions: every action goes through its statuses in order and fires its trigger; the counter of a
    unit is the number of its running actions; a sequence launches its actions in order and its
    abort on every failure.
  \<^item> Nodes: merging an inventory makes the items of the source those of the payload; states
    converge to the newest event; destroying a source removes exactly its items and returns.
  \<^item> Bus API: any calls and frames keep the core consistent; the calls that only read change
    nothing; a core that is not active is not changed by frames.
  \<^item> Database: a saved item is loaded as it was; the two engines agree on what they store; a flush
    writes the last state of each item.
  \<^item> Authentication: exactly the registered keys authenticate; users authenticate with their
    password and one-time accounts once; a session grants the union of the access lists of its account;
    users and access lists survive a restart; stored passwords verify exactly.
  \<^item> Openers: a plan brings the drive to rest at the requested step without a short circuit; the core
    launches exactly the actions of the plan; a state is published only when it is reached; when the
    generation of a plan returns.

  \<^bold>\<open>Parameters and hypotheses.\<close> Code that is not in the repository is an argument: the crate \<open>eva_common\<close>
  (\<open>eva_lib\<close>; the predicates \<open>value_eq_conv\<close>, \<open>ieid_strict_order\<close>, \<open>repl_conv\<close>, \<open>node_conv\<close>, \<open>action_status_conv\<close> and \<open>i64_conv\<close> state the
  documented behaviour that is relied on), clocks, bus, registry and database (\<open>core_env\<close>, \<open>db_env\<close>, \<open>load_env\<close>), services
  and other tasks (\<open>action_env\<close>, \<open>seq_env\<close>, \<open>lm_env\<close>), decoders and encoders of payloads (\<open>api_env\<close>, \<open>call_env\<close>, \<open>acl_env\<close>, \<open>auth_env\<close>)
  and cryptography (\<open>crypto\<close>). Each is instantiated by a concrete value in the witnesses. The other service
  is not a parameter where it is modelled: sessions are stated over the model of the access lists, openers
  over the model of the sequences.

  \<^bold>\<open>Numbers, loops and panics.\<close> Integers are words where they can wrap (\<open>i64\<close> of variables, event
  identifiers, digests); durations are nanoseconds below \<open>2 ^ 64\<close> seconds. Floats are rationals with infinities and
  NaN, with the rounding as a parameter. A loop that may not end is \<open>partial_function (option)\<close>: the random
  strings and the generation of plans, with the exact condition under which they return. No fuel is
  used: the waits of \<open>destroy_source\<close> are a list of what the other tasks do in each wait, and the call is shown to
  return once the lock is released. A panic is the value \<open>None\<close> or \<open>Panicked\<close>.

  \<^bold>\<open>Interleaving.\<close> Operations that hold a lock are single steps; where the code releases it and waits, the
  step is split (launches of actions, destruction of a source) or what the other tasks do meanwhile is
  an argument. The tasks of a group of a sequence are run in the order in which they are spawned, and
  a sequence is terminated between the calls of the core.

  \<^bold>\<open>Not modelled.\<close> Process start, child processes, sockets, log files and the registry
  server (\<open>eva/src\<close> other than the files above), which are calls of the operating system; the start-up,
  the accounting reports and the shutdown sequence of the core; the calls of the bus API about logs,
  services, secondary points and updates, which are the parameter \<open>ce_other\<close>; rules, cycles, jobs and parsers of the
  logic manager, the other services (field protocols, databases, the user interface, replication
  transport), which are separate programs; the command line, the tools and the vendored crates.
\<close>

end
